(* ===== verification/Prelude.thy ===== *)
theory Prelude
  imports Main
begin

text \<open>
  Shared vocabulary of the development: results, the list operations that the Rust code
  expresses with \<^verbatim>\<open>Vec\<close> and \<^verbatim>\<open>HashMap\<close> idioms, and the rewriting collections the component
  theories extend.

  A Rust \<^verbatim>\<open>Result<T, E>\<close> is the sum \<open>'e + 'a\<close> (\<open>Inl\<close> the error), \<^verbatim>\<open>Option<T>\<close> is
  \<open>'a option\<close>. The \<^verbatim>\<open>?\<close> operator is \<open>rbind\<close>.
\<close>

named_theorems result_simps \<open>unfolding of results and of the ? operator\<close>
named_theorems store_simps \<open>lookups in the keyed stores\<close>

section \<open>Results\<close>

definition rbind :: "'e + 'a \<Rightarrow> ('a \<Rightarrow> 'e + 'b) \<Rightarrow> 'e + 'b" where
  "rbind r f = (case r of Inl e \<Rightarrow> Inl e | Inr x \<Rightarrow> f x)"

definition map_err :: "('e \<Rightarrow> 'f) \<Rightarrow> 'e + 'a \<Rightarrow> 'f + 'a" where
  "map_err f r = (case r of Inl e \<Rightarrow> Inl (f e) | Inr x \<Rightarrow> Inr x)"

definition ok_or :: "'e \<Rightarrow> 'a option \<Rightarrow> 'e + 'a" where
  "ok_or e x = (case x of None \<Rightarrow> Inl e | Some v \<Rightarrow> Inr v)"

definition is_ok :: "'e + 'a \<Rightarrow> bool" where
  "is_ok r = (case r of Inl _ \<Rightarrow> False | Inr _ \<Rightarrow> True)"

text \<open>\<^verbatim>\<open>iter().map(f).collect::<Result<Vec<_>, _>>()\<close>: the first error wins.\<close>

fun collect_results :: "('a \<Rightarrow> 'e + 'b) \<Rightarrow> 'a list \<Rightarrow> 'e + 'b list" where
  "collect_results f [] = Inr []"
| "collect_results f (x # xs) =
     (case f x of Inl e \<Rightarrow> Inl e
      | Inr y \<Rightarrow> (case collect_results f xs of Inl e \<Rightarrow> Inl e | Inr ys \<Rightarrow> Inr (y # ys)))"

text \<open>A \<^verbatim>\<open>for\<close> loop whose body uses \<^verbatim>\<open>?\<close> on a mutable state.\<close>

fun fold_results :: "('a \<Rightarrow> 's \<Rightarrow> 'e + 's) \<Rightarrow> 'a list \<Rightarrow> 's \<Rightarrow> 'e + 's" where
  "fold_results f [] s = Inr s"
| "fold_results f (x # xs) s = (case f x s of Inl e \<Rightarrow> Inl e | Inr s' \<Rightarrow> fold_results f xs s')"

lemma rbind_simps [simp, result_simps]:
  "rbind (Inl e) f = Inl e" "rbind (Inr x) f = f x"
  by (simp_all add: rbind_def)

lemma map_err_simps [simp, result_simps]:
  "map_err f (Inl e) = Inl (f e)" "map_err f (Inr x) = Inr x"
  by (simp_all add: map_err_def)

lemma ok_or_simps [simp, result_simps]:
  "ok_or e None = Inl e" "ok_or e (Some x) = Inr x"
  by (simp_all add: ok_or_def)

lemma is_ok_simps [simp, result_simps]: "\<not> is_ok (Inl e)" "is_ok (Inr x)"
  by (simp_all add: is_ok_def)

lemma is_okD: "is_ok r \<Longrightarrow> r = Inr (projr r)"
  by (cases r) simp_all

lemma rbind_Inr_iff: "rbind r f = Inr y \<longleftrightarrow> (\<exists>x. r = Inr x \<and> f x = Inr y)"
  by (cases r) auto

lemma map_err_Inr_iff [simp]: "map_err f r = Inr y \<longleftrightarrow> r = Inr y"
  by (cases r) auto

lemma ok_or_Inr_iff [simp]: "ok_or e x = Inr y \<longleftrightarrow> x = Some y"
  by (cases x) auto

lemma collect_results_Inr:
  "collect_results f xs = Inr ys \<Longrightarrow> list_all2 (\<lambda>x y. f x = Inr y) xs ys"
  by (induction xs arbitrary: ys) (auto split: sum.splits)

lemma collect_results_set:
  "collect_results f xs = Inr ys \<Longrightarrow> y \<in> set ys \<Longrightarrow> \<exists>x\<in>set xs. f x = Inr y"
  by (induction xs arbitrary: ys) (auto split: sum.splits)

lemma fold_results_append:
  "fold_results f (xs @ ys) s = rbind (fold_results f xs s) (fold_results f ys)"
  by (induction xs arbitrary: s) (auto split: sum.splits)

text \<open>An invariant of the loop body is an invariant of the loop.\<close>

lemma fold_results_invariant:
  assumes "fold_results f xs s = Inr s'" and "P s"
    and "\<And>x s s'. x \<in> set xs \<Longrightarrow> P s \<Longrightarrow> f x s = Inr s' \<Longrightarrow> P s'"
  shows "P s'"
  using assms
proof (induction xs arbitrary: s)
  case Nil
  then show ?case by simp
next
  case (Cons x xs)
  from Cons.prems(1) obtain t where t: "f x s = Inr t" and rest: "fold_results f xs t = Inr s'"
    by (auto split: sum.splits)
  have "P t" using Cons.prems(2) t by (rule Cons.prems(3)[rotated]) simp
  show ?case
  proof (rule Cons.IH [OF rest \<open>P t\<close>])
    fix y u u' assume "y \<in> set xs" and "P u" and "f y u = Inr u'"
    then show "P u'" using Cons.prems(3) by (meson list.set_intros(2))
  qed
qed

text \<open>The loop fails as soon as one of its bodies cannot succeed.\<close>

lemma fold_results_blocked:
  assumes "x \<in> set xs" and "\<And>s. \<exists>e. f x s = Inl e"
  shows "\<exists>e. fold_results f xs s = Inl e"
  using assms(1)
proof (induction xs arbitrary: s)
  case Nil
  then show ?case by simp
next
  case (Cons y ys)
  show ?case
  proof (cases "y = x")
    case True
    then show ?thesis using assms(2) [of s] by auto
  next
    case False
    then have "x \<in> set ys" using Cons.prems by simp
    then show ?thesis using Cons.IH by (cases "f y s") auto
  qed
qed

section \<open>Vectors without duplicates\<close>

text \<open>\<^verbatim>\<open>if !v.contains(&x) { v.push(x) }\<close>\<close>

definition push_new :: "'a \<Rightarrow> 'a list \<Rightarrow> 'a list" where
  "push_new x xs = (if x \<in> set xs then xs else xs @ [x])"

lemma set_push_new [simp]: "set (push_new x xs) = insert x (set xs)"
  by (auto simp: push_new_def)

lemma distinct_push_new [simp]: "distinct (push_new x xs) = distinct xs"
  by (auto simp: push_new_def)

lemma push_new_idem [simp]: "push_new x (push_new x xs) = push_new x xs"
  by (simp add: push_new_def)

definition push_all_new :: "'a list \<Rightarrow> 'a list \<Rightarrow> 'a list" where
  "push_all_new ys xs = fold push_new ys xs"

lemma set_push_all_new [simp]: "set (push_all_new ys xs) = set xs \<union> set ys"
  by (induction ys arbitrary: xs) (auto simp: push_all_new_def)

lemma distinct_push_all_new [simp]: "distinct (push_all_new ys xs) = distinct xs"
  by (induction ys arbitrary: xs) (auto simp: push_all_new_def)

text \<open>\<^verbatim>\<open>Vec::dedup\<close>: runs of equal neighbours collapse. On a sorted vector it removes
  every duplicate; the library's \<open>remdups_adj\<close> is that function.\<close>

lemma distinct_remdups_adj_sorted:
  "sorted (xs :: 'a::linorder list) \<Longrightarrow> distinct (remdups_adj xs)"
  by (induction xs rule: remdups_adj.induct) auto

lemma sort_dedup_spec:
  fixes xs :: "'a::linorder list"
  shows "sorted (remdups_adj (sort xs))" "distinct (remdups_adj (sort xs))"
    "set (remdups_adj (sort xs)) = set xs"
proof -
  show sorted: "sorted (remdups_adj (sort xs))"
    by (simp add: sorted_remdups_adj)
  show "set (remdups_adj (sort xs)) = set xs" by simp
  show "distinct (remdups_adj (sort xs))"
    by (rule distinct_remdups_adj_sorted) simp
qed

lemma sort_dedup_eq_iff:
  fixes xs ys :: "'a::linorder list"
  shows "remdups_adj (sort xs) = remdups_adj (sort ys) \<longleftrightarrow> set xs = set ys"
  by (metis sort_dedup_spec sorted_distinct_set_unique)

section \<open>Keyed stores\<close>

text \<open>\<^verbatim>\<open>map.entry(k).or_default()\<close> followed by an update of the entry.\<close>

definition entry_update :: "'v \<Rightarrow> 'k \<Rightarrow> ('v \<Rightarrow> 'v) \<Rightarrow> ('k \<Rightarrow> 'v option) \<Rightarrow> ('k \<Rightarrow> 'v option)" where
  "entry_update d k f m = m(k \<mapsto> f (case m k of None \<Rightarrow> d | Some v \<Rightarrow> v))"

lemma entry_update_same [simp, store_simps]:
  "entry_update d k f m k = Some (f (case m k of None \<Rightarrow> d | Some v \<Rightarrow> v))"
  by (simp add: entry_update_def)

lemma entry_update_other [simp, store_simps]:
  "k' \<noteq> k \<Longrightarrow> entry_update d k f m k' = m k'"
  by (simp add: entry_update_def)

lemma dom_entry_update [simp]: "dom (entry_update d k f m) = insert k (dom m)"
  by (auto simp: entry_update_def)

section \<open>Runs\<close>

text \<open>A step relation with its runs: what every step keeps, every run keeps.\<close>

locale run_system =
  fixes step :: "'s \<Rightarrow> 's \<Rightarrow> bool" and run :: "'s \<Rightarrow> 's \<Rightarrow> bool"
  assumes run_refl: "run s s"
    and run_step: "run s s' \<Longrightarrow> step s' s'' \<Longrightarrow> run s s''"
    and run_induct: "run s s' \<Longrightarrow> Q s \<Longrightarrow> (\<And>t t'. run s t \<Longrightarrow> step t t' \<Longrightarrow> Q t \<Longrightarrow> Q t') \<Longrightarrow> Q s'"
begin

lemma invariant:
  assumes "run s s'" and "Q s" and "\<And>t t'. step t t' \<Longrightarrow> Q t \<Longrightarrow> Q t'"
  shows "Q s'"
  using assms(1,2) by (rule run_induct) (rule assms(3))

lemma run_trans:
  assumes "run s s'" and "run s' s''"
  shows "run s s''"
  using assms(2,1) by (rule invariant) (rule run_step)

lemma run_one: "step s s' \<Longrightarrow> run s s'"
  by (rule run_step [OF run_refl])

end

text \<open>A system whose steps, seen through \<open>abs\<close>, are steps of another or change nothing there.\<close>

locale simulation =
  concrete: run_system step run + abstract: run_system abstract_step abstract_run
  for step run :: "'s \<Rightarrow> 's \<Rightarrow> bool" and abstract_step abstract_run :: "'a \<Rightarrow> 'a \<Rightarrow> bool" +
  fixes abs :: "'s \<Rightarrow> 'a"
  assumes simulates: "step s s' \<Longrightarrow> abs s' = abs s \<or> abstract_step (abs s) (abs s')"
begin

lemma run_simulates:
  assumes "run s s'"
  shows "abstract_run (abs s) (abs s')"
  using assms
proof (rule concrete.invariant)
  show "abstract_run (abs s) (abs s)" by (rule abstract.run_refl)
  show "abstract_run (abs s) (abs t')" if "step t t'" and "abstract_run (abs s) (abs t)" for t t'
    using simulates [OF that(1)] that(2) abstract.run_step by auto
qed

lemma abstract_invariant:
  assumes "run s s'" and "Q (abs s)" and "\<And>t t'. abstract_step t t' \<Longrightarrow> Q t \<Longrightarrow> Q t'"
  shows "Q (abs s')"
  using run_simulates [OF assms(1)] assms(2,3) by (rule abstract.invariant)

end

end
