(* ===== verification/Rust_Str.thy ===== *)
theory Rust_Str
  imports Prelude "HOL-Library.Sublist"
begin

text \<open>
  Rust's \<^verbatim>\<open>str\<close> as its UTF-8 bytes: a \<open>string\<close> is a list of \<open>char\<close>, and a HOL \<open>char\<close> is a
  byte. The methods of \<^verbatim>\<open>str\<close> the program calls are defined here, the ones on Unicode
  white space included (\<^verbatim>\<open>trim\<close>, \<^verbatim>\<open>split_whitespace\<close>), whose multi-byte code points are
  written out. All delimiters the program searches for are ASCII, and a byte below 128 never
  occurs inside a multi-byte UTF-8 sequence, so splitting and searching by byte is what the
  code does by code point. \<^verbatim>\<open>s.starts_with(p)\<close> is \<open>prefix p s\<close> and \<^verbatim>\<open>s.ends_with(p)\<close> is
  \<open>suffix p s\<close> of the library theory Sublist.
\<close>

named_theorems str_simps \<open>evaluation of the string methods\<close>

abbreviation code_of :: "char \<Rightarrow> int" where
  "code_of c \<equiv> of_char c"

section \<open>ASCII classes\<close>

definition ascii_alphanumeric :: "char \<Rightarrow> bool" where
  "ascii_alphanumeric c \<longleftrightarrow>
     (48 \<le> code_of c \<and> code_of c \<le> 57) \<or> (65 \<le> code_of c \<and> code_of c \<le> 90)
     \<or> (97 \<le> code_of c \<and> code_of c \<le> 122)"

definition ascii_upper :: "char \<Rightarrow> bool" where
  "ascii_upper c \<longleftrightarrow> 65 \<le> code_of c \<and> code_of c \<le> 90"

definition ascii_lower :: "char \<Rightarrow> bool" where
  "ascii_lower c \<longleftrightarrow> 97 \<le> code_of c \<and> code_of c \<le> 122"

definition lower_char :: "char \<Rightarrow> char" where
  "lower_char c = (if ascii_upper c then char_of (code_of c + 32) else c)"

definition upper_char :: "char \<Rightarrow> char" where
  "upper_char c = (if ascii_lower c then char_of (code_of c - 32) else c)"

definition to_ascii_lowercase :: "string \<Rightarrow> string" where
  "to_ascii_lowercase s = map lower_char s"

definition to_ascii_uppercase :: "string \<Rightarrow> string" where
  "to_ascii_uppercase s = map upper_char s"

lemma lower_char_not_upper [simp]: "\<not> ascii_upper (lower_char c)"
  by (auto simp: lower_char_def ascii_upper_def)

lemma lower_char_idem [simp]: "lower_char (lower_char c) = lower_char c"
  by (simp add: lower_char_def [of "lower_char c"])

lemma lower_char_id: "\<not> ascii_upper c \<Longrightarrow> lower_char c = c"
  by (simp add: lower_char_def)

lemma to_ascii_lowercase_idem [simp]:
  "to_ascii_lowercase (to_ascii_lowercase s) = to_ascii_lowercase s"
  by (simp add: to_ascii_lowercase_def)

lemma to_ascii_lowercase_append [simp]:
  "to_ascii_lowercase (s @ t) = to_ascii_lowercase s @ to_ascii_lowercase t"
  by (simp add: to_ascii_lowercase_def)

lemma to_ascii_lowercase_Nil_iff [simp]: "to_ascii_lowercase s = [] \<longleftrightarrow> s = []"
  by (simp add: to_ascii_lowercase_def)

lemma to_ascii_lowercase_id: "\<forall>c\<in>set s. \<not> ascii_upper c \<Longrightarrow> to_ascii_lowercase s = s"
  by (induction s) (auto simp: to_ascii_lowercase_def lower_char_id)

section \<open>White space\<close>

text \<open>The code points with the Unicode property White_Space: U+0009 to U+000D, U+0020 (one
  byte); U+0085, U+00A0 (two); U+1680, U+2000 to U+200A, U+2028, U+2029, U+202F, U+205F,
  U+3000 (three).\<close>

definition ws1 :: "char \<Rightarrow> bool" where
  "ws1 c \<longleftrightarrow> code_of c = 32 \<or> (9 \<le> code_of c \<and> code_of c \<le> 13)"

definition ws2 :: "char \<Rightarrow> char \<Rightarrow> bool" where
  "ws2 a b \<longleftrightarrow> code_of a = 0xC2 \<and> (code_of b = 0x85 \<or> code_of b = 0xA0)"

definition ws3 :: "char \<Rightarrow> char \<Rightarrow> char \<Rightarrow> bool" where
  "ws3 a b c \<longleftrightarrow>
     (code_of a = 0xE1 \<and> code_of b = 0x9A \<and> code_of c = 0x80)
   \<or> (code_of a = 0xE2 \<and> code_of b = 0x80 \<and>
        (0x80 \<le> code_of c \<and> code_of c \<le> 0x8A \<or> code_of c = 0xA8 \<or> code_of c = 0xA9
         \<or> code_of c = 0xAF))
   \<or> (code_of a = 0xE2 \<and> code_of b = 0x81 \<and> code_of c = 0x9F)
   \<or> (code_of a = 0xE3 \<and> code_of b = 0x80 \<and> code_of c = 0x80)"

text \<open>How many bytes of white space a string starts with: the length of its first code point
  if that is white space, else 0. The second function reads a reversed string.\<close>

fun ws_len :: "string \<Rightarrow> nat" where
  "ws_len (a # b # c # _) = (if ws1 a then 1 else if ws2 a b then 2 else if ws3 a b c then 3 else 0)"
| "ws_len [a, b] = (if ws1 a then 1 else if ws2 a b then 2 else 0)"
| "ws_len [a] = (if ws1 a then 1 else 0)"
| "ws_len [] = 0"

fun ws_len_rev :: "string \<Rightarrow> nat" where
  "ws_len_rev (c # b # a # _) =
     (if ws1 c then 1 else if ws2 b c then 2 else if ws3 a b c then 3 else 0)"
| "ws_len_rev [c, b] = (if ws1 c then 1 else if ws2 b c then 2 else 0)"
| "ws_len_rev [c] = (if ws1 c then 1 else 0)"
| "ws_len_rev [] = 0"

lemma ws_len_le: "ws_len s \<le> length s"
  by (cases s rule: ws_len.cases) auto

lemma ws_len_rev_le: "ws_len_rev s \<le> length s"
  by (cases s rule: ws_len_rev.cases) auto

function trim_start :: "string \<Rightarrow> string" where
  "trim_start s = (if ws_len s = 0 then s else trim_start (drop (ws_len s) s))"
  by pat_completeness auto
termination
proof (relation "measure length")
  fix s :: string assume "ws_len s \<noteq> 0"
  then show "(drop (ws_len s) s, s) \<in> measure length"
    using ws_len_le [of s] by (cases s) auto
qed simp

function trim_start_rev :: "string \<Rightarrow> string" where
  "trim_start_rev s = (if ws_len_rev s = 0 then s else trim_start_rev (drop (ws_len_rev s) s))"
  by pat_completeness auto
termination
proof (relation "measure length")
  fix s :: string assume "ws_len_rev s \<noteq> 0"
  then show "(drop (ws_len_rev s) s, s) \<in> measure length"
    using ws_len_rev_le [of s] by (cases s) auto
qed simp

declare trim_start.simps [simp del] trim_start_rev.simps [simp del]

definition trim_end :: "string \<Rightarrow> string" where
  "trim_end s = rev (trim_start_rev (rev s))"

definition trim :: "string \<Rightarrow> string" where
  "trim s = trim_end (trim_start s)"

text \<open>\<^verbatim>\<open>str::split_whitespace\<close>: the maximal runs of non-white-space.\<close>

definition emit_word :: "string \<Rightarrow> string list" where
  "emit_word w = (if w = [] then [] else [w])"

function split_ws :: "string \<Rightarrow> string \<Rightarrow> string list" where
  "split_ws acc s =
     (if s = [] then emit_word acc
      else if ws_len s = 0 then split_ws (acc @ [hd s]) (tl s)
      else emit_word acc @ split_ws [] (drop (ws_len s) s))"
  by pat_completeness auto
termination
proof (relation "measure (length \<circ> snd)")
  fix acc s :: string assume "s \<noteq> []" and "ws_len s \<noteq> 0"
  then show "(([], drop (ws_len s) s), acc, s) \<in> measure (length \<circ> snd)"
    using ws_len_le [of s] by (cases s) auto
next
  fix acc s :: string assume "s \<noteq> []"
  then show "((acc @ [hd s], tl s), acc, s) \<in> measure (length \<circ> snd)"
    by (cases s) auto
qed simp

declare split_ws.simps [simp del]

definition split_whitespace :: "string \<Rightarrow> string list" where
  "split_whitespace s = split_ws [] s"

text \<open>A byte that can start no white space: every ASCII byte but the six space characters.\<close>

definition plain_char :: "char \<Rightarrow> bool" where
  "plain_char c \<longleftrightarrow> code_of c < 128 \<and> \<not> ws1 c"

lemma ws_len_plain: "plain_char c \<Longrightarrow> ws_len (c # s) = 0"
  by (cases "c # s" rule: ws_len.cases) (auto simp: plain_char_def ws2_def ws3_def)

lemma ws_len_rev_plain: "plain_char c \<Longrightarrow> ws_len_rev (c # s) = 0"
  by (cases "c # s" rule: ws_len_rev.cases) (auto simp: plain_char_def ws2_def ws3_def)

lemma ws_len_0: "(s \<noteq> [] \<Longrightarrow> plain_char (hd s)) \<Longrightarrow> ws_len s = 0"
  by (cases s) (auto simp: ws_len_plain)

lemma ws_len_rev_0: "(s \<noteq> [] \<Longrightarrow> plain_char (hd s)) \<Longrightarrow> ws_len_rev s = 0"
  by (cases s) (auto simp: ws_len_rev_plain)

lemma trim_start_plain: "(s \<noteq> [] \<Longrightarrow> plain_char (hd s)) \<Longrightarrow> trim_start s = s"
  by (subst trim_start.simps) (simp add: ws_len_0)

lemma trim_start_rev_plain: "(s \<noteq> [] \<Longrightarrow> plain_char (hd s)) \<Longrightarrow> trim_start_rev s = s"
  by (subst trim_start_rev.simps) (simp add: ws_len_rev_0)

lemma trim_end_plain: "(s \<noteq> [] \<Longrightarrow> plain_char (last s)) \<Longrightarrow> trim_end s = s"
  by (cases s rule: rev_cases) (auto simp: trim_end_def trim_start_rev_plain)

lemma trim_plain: "\<forall>c\<in>set s. plain_char c \<Longrightarrow> trim s = s"
  by (simp add: trim_def trim_start_plain trim_end_plain)

lemma suffix_trim_start: "suffix (trim_start s) s"
proof (induction s rule: trim_start.induct)
  case (1 s)
  then show ?case
    by (cases "ws_len s = 0")
      (auto simp: trim_start.simps [of s] intro: suffix_drop suffix_order.trans)
qed

lemma suffix_trim_start_rev: "suffix (trim_start_rev s) s"
proof (induction s rule: trim_start_rev.induct)
  case (1 s)
  then show ?case
    by (cases "ws_len_rev s = 0")
      (auto simp: trim_start_rev.simps [of s] intro: suffix_drop suffix_order.trans)
qed

lemma prefix_trim_end: "prefix (trim_end s) s"
  using suffix_trim_start_rev [of "rev s"] by (simp add: trim_end_def suffix_to_prefix)

lemma set_trim_subset: "set (trim s) \<subseteq> set s"
  unfolding trim_def
  by (meson prefix_trim_end set_mono_prefix set_mono_suffix subset_trans suffix_trim_start)

lemma split_ws_plain_word:
  "\<forall>c\<in>set w. plain_char c \<Longrightarrow> split_ws acc (w @ s) = split_ws (acc @ w) s"
  by (induction w arbitrary: acc) (auto simp: split_ws.simps [of _ "_ # _"] ws_len_plain)

section \<open>Prefixes, suffixes, delimiters\<close>

definition strip_prefix :: "string \<Rightarrow> string \<Rightarrow> string option" where
  "strip_prefix p s = (if prefix p s then Some (drop (length p) s) else None)"

definition strip_suffix :: "string \<Rightarrow> string \<Rightarrow> string option" where
  "strip_suffix p s = (if suffix p s then Some (take (length s - length p) s) else None)"

lemma strip_prefix_Some_iff: "strip_prefix p s = Some r \<longleftrightarrow> s = p @ r"
  by (auto simp: strip_prefix_def prefix_def)

lemma strip_suffix_Some_iff: "strip_suffix p s = Some r \<longleftrightarrow> s = r @ p"
  by (auto simp: strip_suffix_def suffix_def)

text \<open>\<^verbatim>\<open>trim_start_matches\<close>, \<^verbatim>\<open>trim_end_matches\<close>, \<^verbatim>\<open>trim_matches\<close> with a character.\<close>

definition trim_start_matches :: "char \<Rightarrow> string \<Rightarrow> string" where
  "trim_start_matches c s = dropWhile (\<lambda>x. x = c) s"

definition trim_end_matches :: "char \<Rightarrow> string \<Rightarrow> string" where
  "trim_end_matches c s = rev (dropWhile (\<lambda>x. x = c) (rev s))"

definition trim_matches :: "char \<Rightarrow> string \<Rightarrow> string" where
  "trim_matches c s = trim_end_matches c (trim_start_matches c s)"

text \<open>The same with a string pattern: the pattern is removed as often as it occurs. For an
  empty pattern Rust returns the string unchanged, as the guard does.\<close>

function trim_start_str :: "string \<Rightarrow> string \<Rightarrow> string" where
  "trim_start_str p s =
     (if p \<noteq> [] \<and> prefix p s then trim_start_str p (drop (length p) s) else s)"
  by pat_completeness auto
termination
proof (relation "measure (length \<circ> snd)")
  fix p s :: string assume "p \<noteq> [] \<and> prefix p s"
  then show "((p, drop (length p) s), p, s) \<in> measure (length \<circ> snd)"
    by (cases p; cases s) auto
qed simp

declare trim_start_str.simps [simp del]

definition trim_end_str :: "string \<Rightarrow> string \<Rightarrow> string" where
  "trim_end_str p s = rev (trim_start_str (rev p) (rev s))"

text \<open>\<^verbatim>\<open>split(c)\<close> yields one piece more than there are delimiters.\<close>

fun split_on :: "char \<Rightarrow> string \<Rightarrow> string list" where
  "split_on d [] = [[]]"
| "split_on d (c # s) =
     (if c = d then [] # split_on d s
      else (case split_on d s of [] \<Rightarrow> [[c]] | w # ws \<Rightarrow> (c # w) # ws))"

fun split_once :: "char \<Rightarrow> string \<Rightarrow> (string \<times> string) option" where
  "split_once d [] = None"
| "split_once d (c # s) =
     (if c = d then Some ([], s) else map_option (\<lambda>(a, b). (c # a, b)) (split_once d s))"

text \<open>\<^verbatim>\<open>s.contains("...")\<close>\<close>

fun contains_str :: "string \<Rightarrow> string \<Rightarrow> bool" where
  "contains_str p [] = (p = [])"
| "contains_str p (c # s) = (prefix p (c # s) \<or> contains_str p s)"

text \<open>\<^verbatim>\<open>str::lines\<close>: pieces ended by a newline, one carriage return before it dropped; a
  final piece without a newline is kept as it is, and a final empty piece is no line.\<close>

definition strip_cr :: "string \<Rightarrow> string" where
  "strip_cr s = (if s \<noteq> [] \<and> last s = CHR 0x0D then butlast s else s)"

fun lines_acc :: "string \<Rightarrow> string \<Rightarrow> string list" where
  "lines_acc acc [] = (if acc = [] then [] else [acc])"
| "lines_acc acc (c # s) =
     (if c = CHR 0x0A then strip_cr acc # lines_acc [] s else lines_acc (acc @ [c]) s)"

definition lines_of :: "string \<Rightarrow> string list" where
  "lines_of s = lines_acc [] s"

fun join_with :: "string \<Rightarrow> string list \<Rightarrow> string" where
  "join_with d [] = []"
| "join_with d [w] = w"
| "join_with d (w # v # ws) = w @ d @ join_with d (v # ws)"

lemma split_on_not_Nil [simp]: "split_on d s \<noteq> []"
  by (induction s) (auto split: list.splits)

lemma split_on_no_delim: "d \<notin> set s \<Longrightarrow> split_on d s = [s]"
  by (induction s) auto

lemma split_on_append_delim:
  "d \<notin> set w \<Longrightarrow> split_on d (w @ d # s) = w # split_on d s"
  by (induction w) auto

lemma split_on_join:
  assumes "\<forall>w\<in>set ws. d \<notin> set w" and "ws \<noteq> []"
  shows "split_on d (join_with [d] ws) = ws"
  using assms
  by (induction "[d]" ws rule: join_with.induct)
    (auto simp: split_on_no_delim split_on_append_delim)

lemma split_once_None_iff: "split_once d s = None \<longleftrightarrow> d \<notin> set s"
  by (induction s) auto

lemma split_once_SomeD: "split_once d s = Some (a, b) \<Longrightarrow> s = a @ d # b \<and> d \<notin> set a"
  by (induction s arbitrary: a) (auto split: if_splits)

lemma split_once_append: "d \<notin> set a \<Longrightarrow> split_once d (a @ d # b) = Some (a, b)"
  by (induction a) auto

lemma last_trim_end_matches: "trim_end_matches c s \<noteq> [] \<Longrightarrow> last (trim_end_matches c s) \<noteq> c"
  by (metis (full_types) hd_dropWhile last_rev rev.simps(1) trim_end_matches_def)

lemma trim_end_matches_id: "(s \<noteq> [] \<Longrightarrow> last s \<noteq> c) \<Longrightarrow> trim_end_matches c s = s"
  by (cases s rule: rev_cases) (auto simp: trim_end_matches_def)

lemma trim_start_matches_id: "(s \<noteq> [] \<Longrightarrow> hd s \<noteq> c) \<Longrightarrow> trim_start_matches c s = s"
  by (cases s) (auto simp: trim_start_matches_def)

lemma trim_matches_id:
  "(s \<noteq> [] \<Longrightarrow> hd s \<noteq> c \<and> last s \<noteq> c) \<Longrightarrow> trim_matches c s = s"
  by (simp add: trim_matches_def trim_end_matches_id trim_start_matches_id)

lemma suffix_trim_start_str: "suffix (trim_start_str p s) s"
proof (induction p s rule: trim_start_str.induct)
  case (1 p s)
  then show ?case
    by (cases "p \<noteq> [] \<and> prefix p s")
      (auto simp: trim_start_str.simps [of p s] intro: suffix_drop suffix_order.trans)
qed

lemma trim_start_str_id: "\<not> prefix p s \<Longrightarrow> trim_start_str p s = s"
  by (simp add: trim_start_str.simps [of p s])

lemma last_suffix: "suffix t s \<Longrightarrow> t \<noteq> [] \<Longrightarrow> last t = last s"
  by (auto simp: suffix_def)

end
