(* ===== verification/Net_Addr.thy ===== *)
theory Net_Addr
  imports Rust_Str "HOL-Library.Word"
begin

text \<open>
  The address types of \<^verbatim>\<open>std::net\<close> as the program uses them: IPv4 and IPv6 addresses as 32
  and 128 bit words, \<^verbatim>\<open>IpAddr\<close> and \<^verbatim>\<open>SocketAddr\<close> with their derived orders, the address
  classes the UDP listener tests, and the number
  printing the address texts are built from.
\<close>

type_synonym ipv4 = "32 word"
type_synonym ipv6 = "128 word"
type_synonym port = "16 word"

datatype ip_addr = V4 ipv4 | V6 ipv6

datatype socket_addr = SockV4 ipv4 port | SockV6 ipv6 port "32 word" "32 word"

fun sock_ip :: "socket_addr \<Rightarrow> ip_addr" where
  "sock_ip (SockV4 a _) = V4 a"
| "sock_ip (SockV6 a _ _ _) = V6 a"

fun sock_port :: "socket_addr \<Rightarrow> port" where
  "sock_port (SockV4 _ p) = p"
| "sock_port (SockV6 _ p _ _) = p"

text \<open>\<^verbatim>\<open>SocketAddr::new\<close>\<close>

fun sock_new :: "ip_addr \<Rightarrow> port \<Rightarrow> socket_addr" where
  "sock_new (V4 a) p = SockV4 a p"
| "sock_new (V6 a) p = SockV6 a p 0 0"

lemma sock_new_simps [simp]: "sock_ip (sock_new a p) = a" "sock_port (sock_new a p) = p"
  by (cases a; simp)+

text \<open>The derived \<^verbatim>\<open>Ord\<close>: the variant first, then the fields from left to right. The order of
  octets is the order of the numbers.\<close>

instantiation ip_addr :: linorder
begin

fun less_eq_ip_addr :: "ip_addr \<Rightarrow> ip_addr \<Rightarrow> bool" where
  "less_eq_ip_addr (V4 a) (V4 b) = (a \<le> b)"
| "less_eq_ip_addr (V4 _) (V6 _) = True"
| "less_eq_ip_addr (V6 _) (V4 _) = False"
| "less_eq_ip_addr (V6 a) (V6 b) = (a \<le> b)"

definition less_ip_addr :: "ip_addr \<Rightarrow> ip_addr \<Rightarrow> bool" where
  "less_ip_addr x y \<longleftrightarrow> x \<le> y \<and> \<not> y \<le> x"

instance
proof
  fix x y z :: ip_addr
  show "(x < y) = (x \<le> y \<and> \<not> y \<le> x)" by (rule less_ip_addr_def)
  show "x \<le> x" by (cases x) auto
  show "x \<le> y \<Longrightarrow> y \<le> z \<Longrightarrow> x \<le> z" by (cases x; cases y; cases z) auto
  show "x \<le> y \<Longrightarrow> y \<le> x \<Longrightarrow> x = y" by (cases x; cases y) auto
  show "x \<le> y \<or> y \<le> x" by (cases x; cases y) auto
qed

end

instantiation socket_addr :: linorder
begin

fun sock_key :: "socket_addr \<Rightarrow> bool \<times> int \<times> int \<times> int \<times> int" where
  "sock_key (SockV4 a p) = (False, uint a, uint p, 0, 0)"
| "sock_key (SockV6 a p f s) = (True, uint a, uint p, uint f, uint s)"

fun key_le :: "bool \<times> int \<times> int \<times> int \<times> int \<Rightarrow> bool \<times> int \<times> int \<times> int \<times> int \<Rightarrow> bool" where
  "key_le (v, a, p, f, s) (v', a', p', f', s') =
     (v < v' \<or> v = v' \<and> (a < a' \<or> a = a' \<and> (p < p' \<or> p = p' \<and> (f < f' \<or> f = f' \<and> s \<le> s'))))"

definition less_eq_socket_addr :: "socket_addr \<Rightarrow> socket_addr \<Rightarrow> bool" where
  "less_eq_socket_addr x y \<longleftrightarrow> key_le (sock_key x) (sock_key y)"

definition less_socket_addr :: "socket_addr \<Rightarrow> socket_addr \<Rightarrow> bool" where
  "less_socket_addr x y \<longleftrightarrow> x \<le> y \<and> \<not> y \<le> x"

instance
proof
  fix x y z :: socket_addr
  show "(x < y) = (x \<le> y \<and> \<not> y \<le> x)" by (rule less_socket_addr_def)
  show "x \<le> x" by (cases x) (auto simp: less_eq_socket_addr_def)
  show "x \<le> y \<Longrightarrow> y \<le> z \<Longrightarrow> x \<le> z"
    by (cases x; cases y; cases z) (auto simp: less_eq_socket_addr_def)
  show "x \<le> y \<Longrightarrow> y \<le> x \<Longrightarrow> x = y"
    by (cases x; cases y) (auto simp: less_eq_socket_addr_def word_uint_eq_iff)
  show "x \<le> y \<or> y \<le> x"
    by (cases x; cases y) (auto simp: less_eq_socket_addr_def)
qed

end

section \<open>Positional notation\<close>

primrec be_digits :: "int \<Rightarrow> nat \<Rightarrow> int \<Rightarrow> int list" where
  "be_digits b 0 n = []"
| "be_digits b (Suc k) n = be_digits b k (n div b) @ [n mod b]"

definition be_val :: "int \<Rightarrow> int list \<Rightarrow> int" where
  "be_val b ds = foldl (\<lambda>a d. a * b + d) 0 ds"

lemma be_val_Nil [simp]: "be_val b [] = 0"
  by (simp add: be_val_def)

lemma be_val_snoc [simp]: "be_val b (ds @ [d]) = be_val b ds * b + d"
  by (simp add: be_val_def)

lemma length_be_digits [simp]: "length (be_digits b k n) = k"
  by (induction k arbitrary: n) auto

lemma be_val_be_digits: "0 < b \<Longrightarrow> be_val b (be_digits b k n) = n mod b ^ k"
  by (induction k arbitrary: n) (auto simp: zmod_zmult2_eq mult.commute)

lemma be_digits_range: "0 < b \<Longrightarrow> d \<in> set (be_digits b k n) \<Longrightarrow> 0 \<le> d \<and> d < b"
  by (induction k arbitrary: n) auto

text \<open>\<^verbatim>\<open>Ipv4Addr::octets\<close>, \<^verbatim>\<open>Ipv6Addr::octets\<close>\<close>

definition v4_octets :: "ipv4 \<Rightarrow> int list" where
  "v4_octets a = be_digits 256 4 (uint a)"

definition v6_octets :: "ipv6 \<Rightarrow> int list" where
  "v6_octets a = be_digits 256 16 (uint a)"

lemma v4_octets_inj: "v4_octets a = v4_octets b \<Longrightarrow> a = b"
proof -
  assume "v4_octets a = v4_octets b"
  then have v: "be_val 256 (v4_octets a) = be_val 256 (v4_octets b)" by simp
  have "uint x mod 256 ^ 4 = uint x" for x :: ipv4
    using uint_bounded [of x] by (intro mod_pos_pos_trivial) simp_all
  with v show "a = b" by (simp only: v4_octets_def be_val_be_digits word_uint_eq_iff)
qed

lemma v6_octets_inj: "v6_octets a = v6_octets b \<Longrightarrow> a = b"
proof -
  assume "v6_octets a = v6_octets b"
  then have v: "be_val 256 (v6_octets a) = be_val 256 (v6_octets b)" by simp
  have "uint x mod 256 ^ 16 = uint x" for x :: ipv6
    using uint_bounded [of x] by (intro mod_pos_pos_trivial) simp_all
  with v show "a = b" by (simp only: v6_octets_def be_val_be_digits word_uint_eq_iff)
qed

section \<open>Address classes\<close>

definition v4_is_unspecified :: "ipv4 \<Rightarrow> bool" where
  "v4_is_unspecified a \<longleftrightarrow> a = 0"

definition v4_is_broadcast :: "ipv4 \<Rightarrow> bool" where
  "v4_is_broadcast a \<longleftrightarrow> a = 0xFFFFFFFF"

definition v4_is_multicast :: "ipv4 \<Rightarrow> bool" where
  "v4_is_multicast a \<longleftrightarrow> 224 \<le> uint a div 2 ^ 24 \<and> uint a div 2 ^ 24 \<le> 239"

definition v6_is_unspecified :: "ipv6 \<Rightarrow> bool" where
  "v6_is_unspecified a \<longleftrightarrow> a = 0"

definition v6_is_multicast :: "ipv6 \<Rightarrow> bool" where
  "v6_is_multicast a \<longleftrightarrow> uint a div 2 ^ 120 = 0xFF"

text \<open>\<^verbatim>\<open>to_ipv4_mapped\<close>: an address in \<^verbatim>\<open>::ffff:0:0/96\<close> maps to its last 32 bits.\<close>

definition to_ipv4_mapped :: "ipv6 \<Rightarrow> ipv4 option" where
  "to_ipv4_mapped a = (if uint a div 2 ^ 32 = 0xFFFF then Some (word_of_int (uint a mod 2 ^ 32)) else None)"

fun is_unspecified :: "ip_addr \<Rightarrow> bool" where
  "is_unspecified (V4 a) = v4_is_unspecified a"
| "is_unspecified (V6 a) = v6_is_unspecified a"

fun is_multicast :: "ip_addr \<Rightarrow> bool" where
  "is_multicast (V4 a) = v4_is_multicast a"
| "is_multicast (V6 a) = v6_is_multicast a"

section \<open>Printing numbers\<close>

definition digit_char :: "int \<Rightarrow> char" where
  "digit_char d = char_of (if d < 10 then 48 + d else 87 + d)"

function dec_str :: "int \<Rightarrow> string" where
  "dec_str n = (if n < 10 then [digit_char n] else dec_str (n div 10) @ [digit_char (n mod 10)])"
  by pat_completeness auto
termination
  by (relation "measure nat") auto

declare dec_str.simps [simp del]

text \<open>\<^verbatim>\<open>char::to_digit\<close>, for radix 10 and 16\<close>

definition to_digit :: "int \<Rightarrow> char \<Rightarrow> int option" where
  "to_digit radix c =
     (let n = code_of c;
          d = (if 48 \<le> n \<and> n \<le> 57 then n - 48
               else if 97 \<le> n \<and> n \<le> 122 then n - 87
               else if 65 \<le> n \<and> n \<le> 90 then n - 55 else 36)
      in if d < radix then Some d else None)"

lemma to_digit_digit_char: "0 \<le> d \<Longrightarrow> d < radix \<Longrightarrow> radix \<le> 16 \<Longrightarrow> to_digit radix (digit_char d) = Some d"
  by (auto simp: to_digit_def digit_char_def Let_def)

lemma digit_char_inj:
  "0 \<le> d \<Longrightarrow> d < 16 \<Longrightarrow> 0 \<le> e \<Longrightarrow> e < 16 \<Longrightarrow> digit_char d = digit_char e \<Longrightarrow> d = e"
  by (metis order_refl option.inject to_digit_digit_char)

lemma digit_char_not_dot: "0 \<le> d \<Longrightarrow> d < 16 \<Longrightarrow> digit_char d \<noteq> CHR ''.''"
proof
  assume "0 \<le> d" and "d < 16" and "digit_char d = CHR ''.''"
  then have "to_digit 16 CHR ''.'' = Some d" by (metis order_refl to_digit_digit_char)
  then show False by (simp add: to_digit_def)
qed

lemma dec_str_no_dot: "0 \<le> n \<Longrightarrow> CHR ''.'' \<notin> set (dec_str n)"
proof (induction n rule: dec_str.induct)
  case (1 n)
  have "n < 10 \<Longrightarrow> CHR ''.'' \<noteq> digit_char n" and "CHR ''.'' \<noteq> digit_char (n mod 10)"
    using 1(2) digit_char_not_dot [of n] digit_char_not_dot [of "n mod 10"]
      order.strict_trans [of "n mod 10" 10 16] by auto
  then show ?case
    using "1.IH" 1(2) by (simp add: dec_str.simps [of n] pos_imp_zdiv_nonneg_iff)
qed

lemma dec_str_not_Nil [simp]: "dec_str n \<noteq> []"
  by (subst dec_str.simps) simp

end
