(* ===== verification/Addr_Text.thy ===== *)
theory Addr_Text
  imports Net_Addr
begin

text \<open>
  Addresses as text. First the program's own \<^verbatim>\<open>reverse_lookup_name\<close> (src/adblock/rules.rs), the
  owner name a reverse (PTR) query asks for. Then the standard library's address parser, which
  the program calls on hosts files, lease files, listen addresses and upstream addresses: a
  recursive descent parser whose functions return what they read and the text that is left, or
  \<open>None\<close> with nothing consumed.
\<close>

section \<open>Reverse lookup names\<close>

definition v4_text :: "ipv4 \<Rightarrow> string" where
  "v4_text a = join_with ''.'' (map dec_str (v4_octets a))"

text \<open>The nibbles of an IPv6 address, least significant first: each octet, from the last to
  the first, gives its low and then its high half.\<close>

definition v6_nibbles :: "ipv6 \<Rightarrow> int list" where
  "v6_nibbles a = concat (map (\<lambda>octet. [octet mod 16, octet div 16]) (rev (v6_octets a)))"

fun reverse_lookup_name :: "ip_addr \<Rightarrow> string" where
  "reverse_lookup_name (V4 a) = join_with ''.'' (map dec_str (rev (v4_octets a))) @ ''.in-addr.arpa''"
| "reverse_lookup_name (V6 a) =
     join_with ''.'' (map (\<lambda>d. [digit_char d]) (v6_nibbles a)) @ ''.ip6.arpa''"

text \<open>The name splits back into its labels.\<close>

lemma split_on_join_suffix:
  assumes "\<forall>w\<in>set ws. d \<notin> set w" and "ws \<noteq> []"
  shows "split_on d (join_with [d] ws @ d # s) = ws @ split_on d s"
  using assms
  by (induction "[d]" ws rule: join_with.induct) (auto simp: split_on_append_delim)

lemma dec_str_Suc_digits:
  "10 \<le> n \<Longrightarrow> dec_str n = dec_str (n div 10) @ [digit_char (n mod 10)]"
  by (subst dec_str.simps) simp

lemma dec_str_inj: "0 \<le> m \<Longrightarrow> 0 \<le> n \<Longrightarrow> dec_str m = dec_str n \<Longrightarrow> m = n"
proof (induction m arbitrary: n rule: dec_str.induct)
  case (1 m)
  have sing: "dec_str k = [digit_char k]" if "k < 10" for k
    using that by (subst dec_str.simps) simp
  have len: "dec_str k \<noteq> [c]" if "\<not> k < 10" for k c
    using that dec_str_Suc_digits [of k] dec_str_not_Nil [of "k div 10"] by auto
  show ?case
  proof (cases "m < 10")
    case True
    then have "n < 10" using "1.prems" sing [OF True] len [of n] by metis
    with True "1.prems" show ?thesis using sing digit_char_inj [of m n] by auto
  next
    case False
    then have "\<not> n < 10" using "1.prems" sing [of n] len [of m] by metis
    with False "1.prems" have "dec_str (m div 10) = dec_str (n div 10)"
      and "digit_char (m mod 10) = digit_char (n mod 10)"
      by (auto simp: dec_str_Suc_digits)
    then have "m div 10 = n div 10"
      using "1.IH" [of "n div 10"] False "1.prems" by (simp add: pos_imp_zdiv_nonneg_iff)
    moreover have "m mod 10 = n mod 10"
      using \<open>digit_char (m mod 10) = _\<close> digit_char_inj [of "m mod 10" "n mod 10"]
        less_trans [of _ 10 16] by auto
    ultimately show ?thesis by (metis div_mult_mod_eq)
  qed
qed

lemma v4_octets_not_Nil [simp]: "v4_octets a \<noteq> []"
  by (metis length_be_digits list.size(3) v4_octets_def zero_neq_numeral)

lemma v4_octets_range: "d \<in> set (v4_octets a) \<Longrightarrow> 0 \<le> d \<and> d < 256"
  using be_digits_range [of 256 d 4 "uint a"] by (simp only: v4_octets_def)

lemma v6_octets_range: "d \<in> set (v6_octets a) \<Longrightarrow> 0 \<le> d \<and> d < 256"
  using be_digits_range [of 256 d 16 "uint a"] by (simp only: v6_octets_def)

lemma v6_nibbles_range:
  assumes "d \<in> set (v6_nibbles a)"
  shows "0 \<le> d \<and> d < 16"
proof -
  from assms obtain oc where oc: "oc \<in> set (v6_octets a)" and "d = oc mod 16 \<or> d = oc div 16"
    by (auto simp: v6_nibbles_def)
  with v6_octets_range [OF oc] show ?thesis by auto
qed

lemma length_nibbles: "length (concat (map (\<lambda>d. [d mod 16, d div 16]) ds)) = 2 * length ds"
  by (induction ds) auto

lemma nibbles_inj:
  "concat (map (\<lambda>d. [d mod 16, d div 16]) ds) = concat (map (\<lambda>d. [d mod 16, d div (16::int)]) es)
   \<Longrightarrow> ds = es"
proof (induction ds arbitrary: es)
  case Nil
  then show ?case by (cases es) auto
next
  case (Cons d ds)
  then obtain e es' where es: "es = e # es'" by (cases es) auto
  with Cons.prems have "d mod 16 = e mod 16" "d div 16 = e div 16" by auto
  then have "d = e" by (metis div_mult_mod_eq)
  with Cons es show ?case by simp
qed

lemma v6_nibbles_inj: "v6_nibbles a = v6_nibbles b \<Longrightarrow> a = b"
proof -
  assume "v6_nibbles a = v6_nibbles b"
  then have "rev (v6_octets a) = rev (v6_octets b)"
    unfolding v6_nibbles_def by (rule nibbles_inj)
  then show "a = b" using v6_octets_inj by simp
qed

lemma v6_nibbles_length [simp]: "length (v6_nibbles a) = 32"
proof -
  have "length (v6_nibbles a) = 2 * length (rev (v6_octets a))"
    unfolding v6_nibbles_def by (rule length_nibbles)
  also have "length (rev (v6_octets a)) = 16" by (simp only: length_rev v6_octets_def length_be_digits)
  finally show ?thesis by simp
qed

lemma v4_suffix_labels: "split_on CHR ''.'' ''in-addr.arpa'' = [''in-addr'', ''arpa'']"
  by simp

lemma v6_suffix_labels: "split_on CHR ''.'' ''ip6.arpa'' = [''ip6'', ''arpa'']"
  by simp

lemma reverse_labels_v4:
  "split_on CHR ''.'' (reverse_lookup_name (V4 a))
   = map dec_str (rev (v4_octets a)) @ [''in-addr'', ''arpa'']"
proof -
  have "\<forall>w\<in>set (map dec_str (rev (v4_octets a))). CHR ''.'' \<notin> set w"
    using dec_str_no_dot v4_octets_range by auto
  moreover have "map dec_str (rev (v4_octets a)) \<noteq> []" by simp
  ultimately show ?thesis
    unfolding reverse_lookup_name.simps v4_suffix_labels [symmetric] by (rule split_on_join_suffix)
qed

lemma reverse_labels_v6:
  "split_on CHR ''.'' (reverse_lookup_name (V6 a))
   = map (\<lambda>d. [digit_char d]) (v6_nibbles a) @ [''ip6'', ''arpa'']"
proof -
  have "\<forall>w\<in>set (map (\<lambda>d. [digit_char d]) (v6_nibbles a)). CHR ''.'' \<notin> set w"
    using v6_nibbles_range digit_char_not_dot by fastforce
  moreover have "map (\<lambda>d. [digit_char d]) (v6_nibbles a) \<noteq> []"
    by (metis length_0_conv length_map v6_nibbles_length zero_neq_numeral)
  ultimately show ?thesis
    unfolding reverse_lookup_name.simps v6_suffix_labels [symmetric] by (rule split_on_join_suffix)
qed

lemma reverse_lookup_name_inj_lemma:
  assumes "reverse_lookup_name x = reverse_lookup_name y"
  shows "x = y"
proof -
  have eq: "split_on CHR ''.'' (reverse_lookup_name x) = split_on CHR ''.'' (reverse_lookup_name y)"
    using assms by simp
  show ?thesis
  proof (cases x; cases y)
    fix a b assume xy: "x = V4 a" "y = V4 b"
    then have "map dec_str (rev (v4_octets a)) = map dec_str (rev (v4_octets b))"
      using eq by (simp only: reverse_labels_v4 append_same_eq)
    moreover have "inj_on dec_str (set (rev (v4_octets a)) \<union> set (rev (v4_octets b)))"
      by (rule inj_onI) (auto dest: v4_octets_range dec_str_inj)
    ultimately have "v4_octets a = v4_octets b" by (metis inj_on_map_eq_map rev_rev_ident)
    then show ?thesis using xy v4_octets_inj by simp
  next
    fix a b assume xy: "x = V6 a" "y = V6 b"
    then have eq': "map (\<lambda>d. [digit_char d]) (v6_nibbles a) = map (\<lambda>d. [digit_char d]) (v6_nibbles b)"
      using eq by (simp only: reverse_labels_v6 append_same_eq)
    have "inj_on (\<lambda>d. [digit_char d]) (set (v6_nibbles a) \<union> set (v6_nibbles b))"
      by (rule inj_onI) (auto dest: v6_nibbles_range digit_char_inj)
    with eq' have "v6_nibbles a = v6_nibbles b" by (simp only: inj_on_map_eq_map)
    then show ?thesis using xy v6_nibbles_inj by simp
  next
    fix a b assume "x = V4 a" "y = V6 b"
    then show ?thesis using arg_cong [OF eq, of "\<lambda>ws. last (butlast ws)"]
      by (simp only: reverse_labels_v4 reverse_labels_v6) (simp add: butlast_append)
  next
    fix a b assume "x = V6 a" "y = V4 b"
    then show ?thesis using arg_cong [OF eq, of "\<lambda>ws. last (butlast ws)"]
      by (simp only: reverse_labels_v4 reverse_labels_v6) (simp add: butlast_append)
  qed
qed

lemma reverse_lookup_name_eq_iff: "reverse_lookup_name x = reverse_lookup_name y \<longleftrightarrow> x = y"
  using reverse_lookup_name_inj_lemma by auto

section \<open>The address parser of the standard library\<close>

type_synonym 'a reader = "string \<Rightarrow> ('a \<times> string) option"

fun read_char :: "char \<Rightarrow> unit reader" where
  "read_char d [] = None"
| "read_char d (c # s) = (if c = d then Some ((), s) else None)"

text \<open>\<^verbatim>\<open>read_separator\<close>: from the second element on, the separator comes first.\<close>

definition read_separated :: "char \<Rightarrow> nat \<Rightarrow> 'a reader \<Rightarrow> 'a reader" where
  "read_separated d i r s =
     (if i = 0 then r s else (case read_char d s of None \<Rightarrow> None | Some (_, s') \<Rightarrow> r s'))"

fun take_digits :: "int \<Rightarrow> string \<Rightarrow> int list \<times> string" where
  "take_digits radix [] = ([], [])"
| "take_digits radix (c # s) =
     (case to_digit radix c of
        None \<Rightarrow> ([], c # s)
      | Some d \<Rightarrow> (let (ds, r) = take_digits radix s in (d # ds, r)))"

text \<open>\<^verbatim>\<open>read_number\<close>: all the digits there are; too many of them, a leading zero where none is
  allowed, or a value above the target type's maximum fail.\<close>

definition read_number :: "int \<Rightarrow> nat option \<Rightarrow> bool \<Rightarrow> int \<Rightarrow> int reader" where
  "read_number radix max_digits allow_zero_prefix bound s =
     (case take_digits radix s of (ds, r) \<Rightarrow>
        if ds = [] \<or> (case max_digits of None \<Rightarrow> False | Some m \<Rightarrow> m < length ds)
           \<or> (\<not> allow_zero_prefix \<and> hd ds = 0 \<and> 1 < length ds) \<or> bound < be_val radix ds
        then None else Some (be_val radix ds, r))"

definition read_octet :: "nat \<Rightarrow> int reader" where
  "read_octet i = read_separated CHR ''.'' i (read_number 10 (Some 3) False 255)"

definition read_ipv4 :: "ipv4 reader" where
  "read_ipv4 s =
     (case read_octet 0 s of None \<Rightarrow> None | Some (a, s1) \<Rightarrow>
      case read_octet 1 s1 of None \<Rightarrow> None | Some (b, s2) \<Rightarrow>
      case read_octet 2 s2 of None \<Rightarrow> None | Some (c, s3) \<Rightarrow>
      case read_octet 3 s3 of None \<Rightarrow> None | Some (d, s4) \<Rightarrow>
        Some (word_of_int (be_val 256 [a, b, c, d]), s4))"

text \<open>\<^verbatim>\<open>read_groups\<close>: up to \<open>limit\<close> groups of an IPv6 address, the last two perhaps written as
  an IPv4 address; the flag says whether they were.\<close>

function read_groups :: "nat \<Rightarrow> nat \<Rightarrow> string \<Rightarrow> int list \<times> bool \<times> string" where
  "read_groups limit i s =
     (if limit \<le> i then ([], False, s)
      else case (if i < limit - 1 then read_separated CHR '':'' i read_ipv4 s else None) of
        Some (v4, r) \<Rightarrow> ([uint v4 div 65536, uint v4 mod 65536], True, r)
      | None \<Rightarrow>
          (case read_separated CHR '':'' i (read_number 16 (Some 4) True 65535) s of
             None \<Rightarrow> ([], False, s)
           | Some (g, r) \<Rightarrow>
               (let (gs, embedded, r') = read_groups limit (Suc i) r in (g # gs, embedded, r'))))"
  by pat_completeness auto
termination
  by (relation "measure (\<lambda>(limit, i, s). limit - i)") auto

declare read_groups.simps [simp del]

definition v6_of_groups :: "int list \<Rightarrow> ipv6" where
  "v6_of_groups gs = word_of_int (be_val 65536 gs)"

definition read_ipv6 :: "ipv6 reader" where
  "read_ipv6 s =
     (case read_groups 8 0 s of (head, embedded, r) \<Rightarrow>
        if length head = 8 then Some (v6_of_groups head, r)
        else if embedded then None
        else case read_char CHR '':'' r of None \<Rightarrow> None | Some (_, r1) \<Rightarrow>
             case read_char CHR '':'' r1 of None \<Rightarrow> None | Some (_, r2) \<Rightarrow>
               (case read_groups (8 - (length head + 1)) 0 r2 of (tail, _, r3) \<Rightarrow>
                  Some (v6_of_groups
                          (head @ replicate (8 - length head - length tail) 0 @ tail), r3)))"

definition read_ip_addr :: "ip_addr reader" where
  "read_ip_addr s =
     (case read_ipv4 s of
        Some (a, r) \<Rightarrow> Some (V4 a, r)
      | None \<Rightarrow> map_option (\<lambda>(a, r). (V6 a, r)) (read_ipv6 s))"

definition read_port :: "port reader" where
  "read_port s =
     (case read_char CHR '':'' s of None \<Rightarrow> None
      | Some (_, r) \<Rightarrow> map_option (\<lambda>(n, r'). (word_of_int n, r')) (read_number 10 None True 65535 r))"

definition read_scope :: "(32 word) reader" where
  "read_scope s =
     (case read_char CHR ''%'' s of None \<Rightarrow> None
      | Some (_, r) \<Rightarrow> map_option (\<lambda>(n, r'). (word_of_int n, r')) (read_number 10 None True 0xFFFFFFFF r))"

definition read_socket_addr :: "socket_addr reader" where
  "read_socket_addr s =
     (case (case read_ipv4 s of None \<Rightarrow> None
            | Some (a, r) \<Rightarrow> map_option (\<lambda>(p, r'). (SockV4 a p, r')) (read_port r)) of
        Some x \<Rightarrow> Some x
      | None \<Rightarrow>
          case read_char CHR ''['' s of None \<Rightarrow> None | Some (_, r1) \<Rightarrow>
          case read_ipv6 r1 of None \<Rightarrow> None | Some (a, r2) \<Rightarrow>
          (case (case read_scope r2 of None \<Rightarrow> (0, r2) | Some x \<Rightarrow> x) of (scope, r3) \<Rightarrow>
             case read_char CHR '']'' r3 of None \<Rightarrow> None | Some (_, r4) \<Rightarrow>
               map_option (\<lambda>(p, r'). (SockV6 a p 0 scope, r')) (read_port r4)))"

text \<open>\<^verbatim>\<open>parse_with\<close>: the whole text must be read.\<close>

definition parse_with :: "'a reader \<Rightarrow> string \<Rightarrow> 'a option" where
  "parse_with r s = (case r s of Some (x, []) \<Rightarrow> Some x | _ \<Rightarrow> None)"

definition parse_ipv4 :: "string \<Rightarrow> ipv4 option" where
  "parse_ipv4 s = (if 15 < length s then None else parse_with read_ipv4 s)"

definition parse_ipv6 :: "string \<Rightarrow> ipv6 option" where
  "parse_ipv6 = parse_with read_ipv6"

definition parse_ip_addr :: "string \<Rightarrow> ip_addr option" where
  "parse_ip_addr = parse_with read_ip_addr"

definition parse_socket_addr :: "string \<Rightarrow> socket_addr option" where
  "parse_socket_addr = parse_with read_socket_addr"

lemmas reader_defs = parse_with_def read_ip_addr_def read_ipv4_def read_ipv6_def read_octet_def
  read_separated_def read_number_def read_port_def read_scope_def read_socket_addr_def
  parse_ipv4_def parse_ipv6_def parse_ip_addr_def parse_socket_addr_def v6_of_groups_def

section \<open>Text of an IPv6 address\<close>

text \<open>\<^verbatim>\<open>Ipv6Addr::to_string\<close>: the longest run of two or more zero groups is written as \<^verbatim>\<open>::\<close>.\<close>

definition v6_groups :: "ipv6 \<Rightarrow> int list" where
  "v6_groups a = be_digits 65536 8 (uint a)"

function hex_str :: "int \<Rightarrow> string" where
  "hex_str n = (if n < 16 then [digit_char n] else hex_str (n div 16) @ [digit_char (n mod 16)])"
  by pat_completeness auto
termination
  by (relation "measure nat") auto

declare hex_str.simps [simp del]

text \<open>Start and length of the longest run so far, and of the current one.\<close>

fun zero_span :: "nat \<Rightarrow> int list \<Rightarrow> nat \<times> nat \<Rightarrow> nat \<times> nat \<Rightarrow> nat \<times> nat" where
  "zero_span i [] longest current = longest"
| "zero_span i (g # gs) longest current =
     (if g = 0
      then (let current = (if snd current = 0 then (i, 1) else (fst current, snd current + 1))
            in zero_span (Suc i) gs (if snd longest < snd current then current else longest) current)
      else zero_span (Suc i) gs longest (0, 0))"

definition groups_text :: "int list \<Rightarrow> string" where
  "groups_text gs = join_with '':'' (map hex_str gs)"

definition v6_text :: "ipv6 \<Rightarrow> string" where
  "v6_text a =
     (case to_ipv4_mapped a of
        Some v4 \<Rightarrow> ''::ffff:'' @ v4_text v4
      | None \<Rightarrow>
          (let gs = v6_groups a
           in case zero_span 0 gs (0, 0) (0, 0) of (start, len) \<Rightarrow>
                if 1 < len then groups_text (take start gs) @ ''::'' @ groups_text (drop (start + len) gs)
                else groups_text gs))"

fun ip_addr_text :: "ip_addr \<Rightarrow> string" where
  "ip_addr_text (V4 a) = v4_text a"
| "ip_addr_text (V6 a) = v6_text a"

end
