(* ===== verification/Rule_Types.thy ===== *)
theory Rule_Types
  imports Addr_Text
begin

text \<open>
  The data of the filtering rules (src/adblock/rules.rs and src/adblock/config.rs): override
  answers, domain patterns, compiled match rules and the rule sets a configuration is compiled
  into, with the operations that fill them. A \<^verbatim>\<open>HashMap\<close> is a map, a \<^verbatim>\<open>HashSet\<close> a set.

  Three third-party libraries appear as parameters: the regular expression engine
  (\<open>regex_new\<close>, \<open>regex_is_match\<close>; a compiled expression is a value of the type parameter \<open>'rx\<close>),
  the DNS library's \<^verbatim>\<open>RecordType::from_str\<close> (\<open>record_type_from_str\<close>) and the network library's
  CIDR type (\<open>ipnet_parse\<close>, \<open>ipnet_contains\<close>; a parsed network is a value of \<open>'net\<close>).
\<close>

section \<open>Third-party interfaces\<close>

text \<open>The record types the program tests for by name; any other type is its number.\<close>

datatype record_type = RT_A | RT_AAAA | RT_ANY | RT_CNAME | RT_PTR | RT_Other "16 word"

record ('rx, 'net) rule_libs =
  regex_new :: "string \<Rightarrow> string + 'rx"
  regex_is_match :: "'rx \<Rightarrow> string \<Rightarrow> bool"
  record_type_from_str :: "string \<Rightarrow> record_type option"
  ipnet_parse :: "string \<Rightarrow> string + 'net"
  ipnet_contains :: "'net \<Rightarrow> ip_addr \<Rightarrow> bool"

section \<open>Rules and rule sets\<close>

record override_rule =
  or_ipv4 :: "ipv4 list"
  or_ipv6 :: "ipv6 list"

definition override_default :: override_rule where
  "override_default = \<lparr>or_ipv4 = [], or_ipv6 = []\<rparr>"

datatype domain_pattern = Exact string | WildcardSuffix string

datatype type_constraint = Include "record_type set" | Exclude "record_type set"

datatype 'rx matcher = Regex 'rx

record 'rx compiled_match_rule =
  raw_text :: string
  matcher :: "'rx matcher"
  important :: bool
  dnstypes :: "type_constraint option"
  denyallow :: "domain_pattern list"

datatype rule_disposition = Block | Allow

datatype rule_origin = RemoteFilter | UserRule

record 'rx rule_sets =
  overrides :: "string \<Rightarrow> override_rule option"
  ptr_overrides :: "string \<Rightarrow> string list option"
  block_exact :: "string set"
  block_subdomains :: "string set"
  allow_exact :: "string set"
  allow_subdomains :: "string set"
  block_rules :: "'rx compiled_match_rule list"
  allow_rules :: "'rx compiled_match_rule list"

definition rule_sets_default :: "'rx rule_sets" where
  "rule_sets_default =
     \<lparr>overrides = Map.empty, ptr_overrides = Map.empty, block_exact = {}, block_subdomains = {},
      allow_exact = {}, allow_subdomains = {}, block_rules = [], allow_rules = []\<rparr>"

record domain_rewrite_rule =
  dr_pattern :: domain_pattern
  dr_answer :: override_rule

record 'net answer_ip_rewrite_rule =
  ar_nets :: "'net list"
  ar_answer :: override_rule

record cname_rewrite_rule =
  cr_patterns :: "domain_pattern list"
  cr_answer :: override_rule

section \<open>Configuration\<close>

record filter_config =
  fc_enabled :: bool
  fc_url :: string
  fc_name :: "string option"
  fc_id :: "(64 word) option"

datatype blocking_mode = BM_Default | BM_Nxdomain

datatype rewrite_answer_config = AnswerEmpty | AnswerSingle string | AnswerMultiple "string list"

fun answer_values :: "rewrite_answer_config \<Rightarrow> string list" where
  "answer_values AnswerEmpty = []"
| "answer_values (AnswerSingle v) = [v]"
| "answer_values (AnswerMultiple vs) = vs"

record rewrite_config =
  rw_domain :: "string option"
  rw_ip :: "string list"
  rw_cname :: "string list"
  rw_answer :: rewrite_answer_config

record filtering_config =
  fg_blocking_ipv4 :: "ipv4 option"
  fg_blocking_ipv6 :: "ipv6 option"
  fg_blocking_mode :: blocking_mode
  fg_rewrites :: "rewrite_config list"

record lan_hosts_config =
  lh_enabled :: bool
  lh_source :: string
  lh_domain :: "string option"
  lh_include_unqualified :: bool
  lh_refresh_interval_secs :: "64 word"

definition lan_hosts_default :: lan_hosts_config where
  "lan_hosts_default =
     \<lparr>lh_enabled = True, lh_source = ''/var/dhcp.leases'', lh_domain = Some ''lan'',
      lh_include_unqualified = True, lh_refresh_interval_secs = 60\<rparr>"

section \<open>Override answers\<close>

fun add_ip :: "ip_addr \<Rightarrow> override_rule \<Rightarrow> override_rule" where
  "add_ip (V4 a) r = r\<lparr>or_ipv4 := push_new a (or_ipv4 r)\<rparr>"
| "add_ip (V6 a) r = r\<lparr>or_ipv6 := push_new a (or_ipv6 r)\<rparr>"

definition add_override_to_map ::
    "ip_addr \<Rightarrow> string \<Rightarrow> (string \<Rightarrow> override_rule option) \<Rightarrow> (string \<Rightarrow> override_rule option)" where
  "add_override_to_map ip domain m = entry_update override_default domain (add_ip ip) m"

definition add_override :: "ip_addr \<Rightarrow> string \<Rightarrow> 'rx rule_sets \<Rightarrow> 'rx rule_sets" where
  "add_override ip domain rules =
     rules\<lparr>overrides := add_override_to_map ip domain (overrides rules)\<rparr>"

definition add_ptr_override_to_map ::
    "ip_addr \<Rightarrow> string \<Rightarrow> (string \<Rightarrow> string list option) \<Rightarrow> (string \<Rightarrow> string list option)" where
  "add_ptr_override_to_map ip domain m =
     entry_update [] (reverse_lookup_name ip) (push_new domain) m"

definition merge_override_rule :: "override_rule \<Rightarrow> override_rule \<Rightarrow> override_rule" where
  "merge_override_rule target source =
     target\<lparr>or_ipv4 := push_all_new (or_ipv4 source) (or_ipv4 target),
            or_ipv6 := push_all_new (or_ipv6 source) (or_ipv6 target)\<rparr>"

text \<open>The addresses of an override answer, and whether it lists each at most once.\<close>

definition answer_ips :: "override_rule \<Rightarrow> ip_addr set" where
  "answer_ips r = V4 ` set (or_ipv4 r) \<union> V6 ` set (or_ipv6 r)"

definition answer_distinct :: "override_rule \<Rightarrow> bool" where
  "answer_distinct r \<longleftrightarrow> distinct (or_ipv4 r) \<and> distinct (or_ipv6 r)"

lemma answer_ips_default [simp]: "answer_ips override_default = {}"
  by (simp add: answer_ips_def override_default_def)

lemma answer_ips_add_ip [simp]: "answer_ips (add_ip ip r) = insert ip (answer_ips r)"
  by (cases ip) (auto simp: answer_ips_def)

lemma answer_ips_merge [simp]:
  "answer_ips (merge_override_rule t s) = answer_ips t \<union> answer_ips s"
  by (auto simp: answer_ips_def merge_override_rule_def)

lemma answer_distinct_simps [simp]:
  "answer_distinct override_default"
  "answer_distinct (add_ip ip r) = answer_distinct r"
  "answer_distinct (merge_override_rule t s) = answer_distinct t"
  by (cases ip; simp add: answer_distinct_def override_default_def merge_override_rule_def)+

text \<open>What a store answers for a name.\<close>

definition stored_ips :: "(string \<Rightarrow> override_rule option) \<Rightarrow> string \<Rightarrow> ip_addr set" where
  "stored_ips m d = (case m d of None \<Rightarrow> {} | Some r \<Rightarrow> answer_ips r)"

definition stored_ptrs :: "(string \<Rightarrow> string list option) \<Rightarrow> string \<Rightarrow> string set" where
  "stored_ptrs m d = (case m d of None \<Rightarrow> {} | Some ts \<Rightarrow> set ts)"

lemma stored_ips_empty [simp]: "stored_ips Map.empty d = {}"
  by (simp add: stored_ips_def)

lemma stored_ptrs_empty [simp]: "stored_ptrs Map.empty d = {}"
  by (simp add: stored_ptrs_def)

lemma stored_ips_add [simp, store_simps]:
  "stored_ips (add_override_to_map ip d m) d' =
     (if d' = d then insert ip (stored_ips m d) else stored_ips m d')"
  by (auto simp: stored_ips_def add_override_to_map_def split: option.splits)

lemma stored_ptrs_add [simp, store_simps]:
  "stored_ptrs (add_ptr_override_to_map ip d m) q =
     (if q = reverse_lookup_name ip then insert d (stored_ptrs m q) else stored_ptrs m q)"
  by (auto simp: stored_ptrs_def add_ptr_override_to_map_def split: option.splits)

section \<open>Suffix and pattern matching\<close>

definition suffix_match :: "string \<Rightarrow> string \<Rightarrow> bool" where
  "suffix_match domain suff \<longleftrightarrow>
     domain = suff \<or> (case strip_suffix suff domain of
                        None \<Rightarrow> False | Some p \<Rightarrow> suffix ''.'' p)"

fun domain_pattern_matches :: "domain_pattern \<Rightarrow> string \<Rightarrow> bool" where
  "domain_pattern_matches (Exact exact) domain = (domain = exact)"
| "domain_pattern_matches (WildcardSuffix suff) domain =
     (domain \<noteq> suff \<and> suffix_match domain suff)"

lemma suffix_match_iff: "suffix_match d s \<longleftrightarrow> d = s \<or> (\<exists>p. d = p @ ''.'' @ s)"
proof -
  have "(case strip_suffix s d of None \<Rightarrow> False | Some p \<Rightarrow> suffix ''.'' p) \<longleftrightarrow> (\<exists>p. d = p @ ''.'' @ s)"
  proof (cases "strip_suffix s d")
    case None
    then have "\<not> (\<exists>p. d = p @ ''.'' @ s)"
      by (metis append_assoc option.distinct(1) strip_suffix_Some_iff)
    with None show ?thesis by simp
  next
    case (Some p)
    then have "d = p @ s" by (simp add: strip_suffix_Some_iff)
    then show ?thesis using Some by (auto simp: suffix_def)
  qed
  then show ?thesis by (simp add: suffix_match_def)
qed

lemma suffix_match_refl [simp]: "suffix_match d d"
  by (simp add: suffix_match_def)

lemma suffix_match_trans: "suffix_match a b \<Longrightarrow> suffix_match b c \<Longrightarrow> suffix_match a c"
  unfolding suffix_match_iff by (metis append_assoc)

end
