(* ===== verification/Domain_Index.thy ===== *)
theory Domain_Index
  imports Rule_Types
begin

text \<open>
  The domain sets (src/adblock/rules.rs): \<^verbatim>\<open>domain_set_matches\<close>, which walks up the labels of a
  name instead of scanning the rules, and \<^verbatim>\<open>add_domain_rule\<close>, \<^verbatim>\<open>remove_domain_rule\<close> and
  \<^verbatim>\<open>is_allowed\<close>, which maintain the block and allow sets while rules are read. The locale
  \<open>suffix_index\<close> states what such an index promises its clients; its interpretation shows that
  the pair of hash sets keeps the promise. The last part shows that the outcome of reading
  simple rules does not depend on their order.
\<close>

section \<open>Lookup\<close>

function dsm_walk :: "string set \<Rightarrow> string \<Rightarrow> bool" where
  "dsm_walk subdomains candidate =
     (if candidate \<in> subdomains then True
      else (case split_once CHR ''.'' candidate of
              None \<Rightarrow> False
            | Some (_, rest) \<Rightarrow> dsm_walk subdomains rest))"
  by pat_completeness auto
termination
  by (relation "measure (length \<circ> snd)") (auto dest!: split_once_SomeD)

declare dsm_walk.simps [simp del]

definition domain_set_matches :: "string set \<Rightarrow> string set \<Rightarrow> string \<Rightarrow> bool" where
  "domain_set_matches exact subdomains domain =
     (if domain \<in> exact then True else dsm_walk subdomains domain)"

text \<open>Cutting a name at its first dot leaves the proper parents to be searched.\<close>

lemma suffix_match_step:
  assumes "split_once CHR ''.'' d = Some (a, r)"
  shows "suffix_match d s \<longleftrightarrow> d = s \<or> suffix_match r s"
proof -
  have d: "d = a @ CHR ''.'' # r" and a: "CHR ''.'' \<notin> set a"
    using split_once_SomeD [OF assms] by auto
  have "(\<exists>p. d = p @ ''.'' @ s) \<longleftrightarrow> r = s \<or> (\<exists>q. r = q @ ''.'' @ s)"
  proof
    assume "\<exists>p. d = p @ ''.'' @ s"
    then obtain p where p: "a @ CHR ''.'' # r = p @ CHR ''.'' # s" using d by auto
    then consider "p = a" "r = s"
      | us where "p = a @ CHR ''.'' # us" "r = us @ CHR ''.'' # s"
      | us where "a = p @ CHR ''.'' # us"
      by (auto simp: append_eq_append_conv2 append_eq_Cons_conv Cons_eq_append_conv)
    then show "r = s \<or> (\<exists>q. r = q @ ''.'' @ s)" using a by cases auto
  next
    assume "r = s \<or> (\<exists>q. r = q @ ''.'' @ s)"
    then show "\<exists>p. d = p @ ''.'' @ s"
      using d by (metis append.assoc append_Cons append_Nil)
  qed
  then show ?thesis by (simp add: suffix_match_iff)
qed

lemma suffix_match_no_dot:
  "split_once CHR ''.'' d = None \<Longrightarrow> suffix_match d s \<longleftrightarrow> d = s"
  by (auto simp: suffix_match_iff split_once_None_iff)

lemma dsm_walk_iff: "dsm_walk subs d \<longleftrightarrow> (\<exists>s\<in>subs. suffix_match d s)"
proof (induction subs d rule: dsm_walk.induct)
  case (1 subs d)
  show ?case
  proof (cases "split_once CHR ''.'' d")
    case None
    then show ?thesis by (subst dsm_walk.simps) (auto simp: suffix_match_no_dot)
  next
    case (Some ar)
    then obtain a r where ar: "split_once CHR ''.'' d = Some (a, r)" by (cases ar) auto
    show ?thesis
    proof (cases "d \<in> subs")
      case True
      then have "dsm_walk subs d" by (subst dsm_walk.simps) simp
      moreover have "\<exists>s\<in>subs. suffix_match d s" using True by (intro bexI [of _ d]) simp_all
      ultimately show ?thesis by simp
    next
      case False
      then have "dsm_walk subs r \<longleftrightarrow> (\<exists>s\<in>subs. suffix_match r s)" using "1.IH" ar by simp
      with False ar show ?thesis
        by (subst dsm_walk.simps) (auto simp: suffix_match_step [OF ar])
    qed
  qed
qed

lemma domain_set_matches_iff:
  "domain_set_matches exact subs d \<longleftrightarrow> d \<in> exact \<or> (\<exists>s\<in>subs. suffix_match d s)"
  by (simp add: domain_set_matches_def dsm_walk_iff)

section \<open>The interface of a suffix index\<close>

text \<open>What one entry covers: its own name, and with \<open>sub\<close> every name below it.\<close>

definition covers :: "string \<times> bool \<Rightarrow> string \<Rightarrow> bool" where
  "covers e d \<longleftrightarrow> d = fst e \<or> (snd e \<and> suffix_match d (fst e))"

lemma covers_imp_suffix: "covers e d \<Longrightarrow> suffix_match d (fst e)"
  by (auto simp: covers_def)

locale suffix_index =
  fixes empty_index :: "'i"
    and add_entry :: "string \<times> bool \<Rightarrow> 'i \<Rightarrow> 'i"
    and matches :: "'i \<Rightarrow> string \<Rightarrow> bool"
  assumes matches_empty: "\<not> matches empty_index d"
    and matches_add: "matches (add_entry e i) d \<longleftrightarrow> covers e d \<or> matches i d"
begin

lemma matches_load:
  "matches (fold add_entry es i) d \<longleftrightarrow> matches i d \<or> (\<exists>e\<in>set es. covers e d)"
  by (induction es arbitrary: i) (auto simp: matches_add)

lemma matches_loaded: "matches (fold add_entry es empty_index) d \<longleftrightarrow> (\<exists>e\<in>set es. covers e d)"
  by (simp add: matches_load matches_empty)

text \<open>The order and the repetition of entries do not matter to a client.\<close>

lemma matches_load_cong:
  "set es = set es' \<Longrightarrow> matches (fold add_entry es empty_index) = matches (fold add_entry es' empty_index)"
  by (rule ext) (simp add: matches_loaded)

end

type_synonym domain_sets = "string set \<times> string set"

definition insert_entry :: "string \<times> bool \<Rightarrow> domain_sets \<Rightarrow> domain_sets" where
  "insert_entry e i =
     (insert (fst e) (fst i), if snd e then insert (fst e) (snd i) else snd i)"

definition sets_match :: "domain_sets \<Rightarrow> string \<Rightarrow> bool" where
  "sets_match i d = domain_set_matches (fst i) (snd i) d"

interpretation dsets: suffix_index "({}, {})" insert_entry sets_match
  by unfold_locales (auto simp: sets_match_def insert_entry_def domain_set_matches_iff covers_def)

section \<open>Maintaining the block and allow sets\<close>

definition is_allowed :: "string \<Rightarrow> 'rx rule_sets \<Rightarrow> bool" where
  "is_allowed domain rules = domain_set_matches (allow_exact rules) (allow_subdomains rules) domain"

fun add_domain_rule :: "rule_disposition \<Rightarrow> string \<Rightarrow> bool \<Rightarrow> 'rx rule_sets \<Rightarrow> 'rx rule_sets" where
  "add_domain_rule Allow domain include_subdomains rules =
     rules\<lparr>block_exact := block_exact rules - {domain},
           block_subdomains := block_subdomains rules - {domain},
           allow_exact := insert domain (allow_exact rules),
           allow_subdomains := (if include_subdomains then insert domain (allow_subdomains rules)
                                else allow_subdomains rules)\<rparr>"
| "add_domain_rule Block domain include_subdomains rules =
     (if is_allowed domain rules then rules
      else rules\<lparr>block_exact := insert domain (block_exact rules),
                 block_subdomains := (if include_subdomains then insert domain (block_subdomains rules)
                                      else block_subdomains rules)\<rparr>)"

fun remove_domain_rule :: "rule_disposition \<Rightarrow> string \<Rightarrow> bool \<Rightarrow> 'rx rule_sets \<Rightarrow> 'rx rule_sets" where
  "remove_domain_rule Allow domain include_subdomains rules =
     rules\<lparr>allow_exact := allow_exact rules - {domain},
           allow_subdomains := (if include_subdomains then allow_subdomains rules - {domain}
                                else allow_subdomains rules)\<rparr>"
| "remove_domain_rule Block domain include_subdomains rules =
     rules\<lparr>block_exact := block_exact rules - {domain},
           block_subdomains := (if include_subdomains then block_subdomains rules - {domain}
                                else block_subdomains rules)\<rparr>"

text \<open>The two indexes of a rule set.\<close>

definition block_index :: "('rx, 'm) rule_sets_scheme \<Rightarrow> domain_sets" where
  "block_index rules = (block_exact rules, block_subdomains rules)"

definition allow_index :: "('rx, 'm) rule_sets_scheme \<Rightarrow> domain_sets" where
  "allow_index rules = (allow_exact rules, allow_subdomains rules)"

lemma is_allowed_index: "is_allowed d rules = sets_match (allow_index rules) d"
  by (simp add: is_allowed_def allow_index_def sets_match_def)

lemma add_allow_index:
  "allow_index (add_domain_rule Allow d sub rules) = insert_entry (d, sub) (allow_index rules)"
  by (simp add: allow_index_def insert_entry_def)

lemma add_block_index:
  "block_index (add_domain_rule Block d sub rules) =
     (if is_allowed d rules then block_index rules else insert_entry (d, sub) (block_index rules))"
  by (simp add: block_index_def insert_entry_def)

lemma add_block_allow_index [simp]:
  "allow_index (add_domain_rule Block d sub rules) = allow_index rules"
  by (simp add: allow_index_def)

lemma add_allow_block_match:
  "\<not> suffix_match d x \<Longrightarrow>
   sets_match (block_index (add_domain_rule Allow x sub rules)) d = sets_match (block_index rules) d"
  by (auto simp: block_index_def sets_match_def domain_set_matches_iff)

section \<open>Order independence of simple rules\<close>

type_synonym domain_op = "rule_disposition \<times> string \<times> bool"

definition apply_domain_ops :: "domain_op list \<Rightarrow> 'rx rule_sets \<Rightarrow> 'rx rule_sets" where
  "apply_domain_ops ops rules = fold (\<lambda>(disp, d, sub). add_domain_rule disp d sub) ops rules"

lemma apply_domain_ops_simps [simp]:
  "apply_domain_ops [] rules = rules"
  "apply_domain_ops (ops @ ops') rules = apply_domain_ops ops' (apply_domain_ops ops rules)"
  "apply_domain_ops [(disp, d, sub)] rules = add_domain_rule disp d sub rules"
  by (simp_all add: apply_domain_ops_def)

text \<open>The declarative meaning: some rule of the disposition covers the name.\<close>

definition some_rule_covers :: "rule_disposition \<Rightarrow> domain_op list \<Rightarrow> string \<Rightarrow> bool" where
  "some_rule_covers disp ops d \<longleftrightarrow> (\<exists>x sub. (disp, x, sub) \<in> set ops \<and> covers (x, sub) d)"

definition index_blocks :: "('rx, 'm) rule_sets_scheme \<Rightarrow> string \<Rightarrow> bool" where
  "index_blocks rules d \<longleftrightarrow>
     sets_match (block_index rules) d \<and> \<not> sets_match (allow_index rules) d"

text \<open>Every exception rule the parser makes covers its subdomains.\<close>

definition allow_whole_trees :: "domain_op list \<Rightarrow> bool" where
  "allow_whole_trees ops \<longleftrightarrow> (\<forall>x sub. (Allow, x, sub) \<in> set ops \<longrightarrow> sub)"

lemma some_rule_covers_snoc:
  "some_rule_covers disp (ops @ [(disp', x, sub)]) d \<longleftrightarrow>
     some_rule_covers disp ops d \<or> (disp' = disp \<and> covers (x, sub) d)"
  by (auto simp: some_rule_covers_def)

lemma allow_covers_tree:
  assumes "allow_whole_trees ops" and "some_rule_covers Allow ops x" and "suffix_match d x"
  shows "some_rule_covers Allow ops d"
proof -
  from assms(2) obtain y sub where y: "(Allow, y, sub) \<in> set ops" "covers (y, sub) x"
    by (auto simp: some_rule_covers_def)
  with assms(1) have "sub" by (auto simp: allow_whole_trees_def)
  moreover have "suffix_match d y"
    using suffix_match_trans [OF assms(3)] covers_imp_suffix [OF y(2)] by simp
  ultimately show ?thesis using y(1) by (auto simp: some_rule_covers_def covers_def)
qed

lemma apply_domain_ops_index:
  "allow_whole_trees ops \<Longrightarrow>
   sets_match (allow_index (apply_domain_ops ops (rule_sets_default :: 'rx rule_sets))) d = some_rule_covers Allow ops d
   \<and> (\<not> some_rule_covers Allow ops d \<longrightarrow>
        sets_match (block_index (apply_domain_ops ops (rule_sets_default :: 'rx rule_sets))) d
          = some_rule_covers Block ops d)"
proof (induction ops arbitrary: d rule: rev_induct)
  case Nil
  show ?case using dsets.matches_empty
    by (simp add: some_rule_covers_def allow_index_def block_index_def rule_sets_default_def)
next
  case (snoc op ops)
  obtain disp x sub where op: "op = (disp, x, sub)" by (cases op) auto
  let ?D = "rule_sets_default :: 'rx rule_sets"
  let ?R = "apply_domain_ops ops ?D"
  have trees: "allow_whole_trees ops" and sub: "disp = Allow \<Longrightarrow> sub"
    using snoc.prems by (auto simp: allow_whole_trees_def op)
  note IH = snoc.IH [OF trees]
  show ?case
  proof (cases disp)
    case Allow
    have allow: "sets_match (allow_index (apply_domain_ops (ops @ [op]) ?D)) d
        = some_rule_covers Allow (ops @ [op]) d"
      using conjunct1 [OF IH [of d]]
      by (auto simp: op Allow some_rule_covers_snoc add_allow_index dsets.matches_add
          simp del: add_domain_rule.simps)
    have "sets_match (block_index (apply_domain_ops (ops @ [op]) ?D)) d
        = some_rule_covers Block (ops @ [op]) d" if "\<not> some_rule_covers Allow (ops @ [op]) d"
    proof -
      have "\<not> suffix_match d x" "\<not> some_rule_covers Allow ops d"
        using that sub [OF Allow] by (auto simp: op Allow some_rule_covers_snoc covers_def)
      then show ?thesis using IH [of d]
        by (simp add: op Allow some_rule_covers_snoc add_allow_block_match del: add_domain_rule.simps)
    qed
    with allow show ?thesis by blast
  next
    case Block
    have allow: "sets_match (allow_index (apply_domain_ops (ops @ [op]) ?D)) d
        = some_rule_covers Allow (ops @ [op]) d"
      using IH [of d] by (simp add: op Block some_rule_covers_snoc del: add_domain_rule.simps)
    have "sets_match (block_index (apply_domain_ops (ops @ [op]) ?D)) d
        = some_rule_covers Block (ops @ [op]) d" if "\<not> some_rule_covers Allow (ops @ [op]) d"
    proof -
      have nd: "\<not> some_rule_covers Allow ops d"
        using that by (simp add: op Block some_rule_covers_snoc)
      have "\<not> covers (x, sub) d" if "is_allowed x ?R"
        using that allow_covers_tree [OF trees _ covers_imp_suffix] nd IH [of x]
        by (auto simp: is_allowed_index)
      then show ?thesis using IH [of d] nd
        by (auto simp: op Block some_rule_covers_snoc add_block_index dsets.matches_add
            simp del: add_domain_rule.simps)
    qed
    with allow show ?thesis by blast
  qed
qed

lemma apply_domain_ops_decision:
  assumes "allow_whole_trees ops"
  shows "index_blocks (apply_domain_ops ops rule_sets_default) d \<longleftrightarrow>
           some_rule_covers Block ops d \<and> \<not> some_rule_covers Allow ops d"
  using apply_domain_ops_index [OF assms] by (auto simp: index_blocks_def)

end
