(* ===== verification/Rule_Parser.thy ===== *)
theory Rule_Parser
  imports Domain_Index "HOL-Library.Multiset"
begin

text \<open>
  The rule language (src/adblock/rules.rs): domain normalisation, the recognisers for simple
  domain rules, hosts lines and complex rules with their modifiers, the translation of wildcard
  patterns to regular expressions, \<^verbatim>\<open>parse_rule_line\<close>, which files a line into the rule sets, and
  the removal of rules a \<^verbatim>\<open>$badfilter\<close> line disables.
\<close>

datatype rule_error =
    InvalidRegexRule string string
  | InvalidGeneratedRegex string string
  | UnterminatedRegex string
  | UnsupportedModifier string
  | MixedDnstype string
  | InvalidDnstype string
  | InvalidDomainPattern string
  | InvalidRewriteNetwork string string
  | InvalidRewriteAnswer string

abbreviation backslash :: char where
  "backslash \<equiv> CHR 0x5C"

section \<open>Domains\<close>

definition domain_char :: "char \<Rightarrow> bool" where
  "domain_char c \<longleftrightarrow> ascii_alphanumeric c \<or> c = CHR ''.'' \<or> c = CHR ''-'' \<or> c = CHR ''_''"

definition normalize_domain :: "string \<Rightarrow> string option" where
  "normalize_domain input =
     (let candidate =
            to_ascii_lowercase (trim_start_str ''*.'' (trim_matches CHR ''.'' (trim input)))
      in if candidate = [] \<or> CHR ''/'' \<in> set candidate \<or> CHR '':'' \<in> set candidate
            \<or> CHR '' '' \<in> set candidate
         then None
         else if \<not> list_all domain_char candidate then None
         else Some candidate)"

text \<open>What every name in the rule sets looks like.\<close>

definition normal_domain :: "string \<Rightarrow> bool" where
  "normal_domain d \<longleftrightarrow> d \<noteq> [] \<and> (\<forall>c\<in>set d. domain_char c \<and> \<not> ascii_upper c) \<and> last d \<noteq> CHR ''.''"

section \<open>Recognisers\<close>

definition strip_comments :: "string \<Rightarrow> string" where
  "strip_comments line =
     (let trimmed = trim_start line
      in if prefix ''#'' trimmed \<or> prefix ''!'' trimmed then [] else line)"

definition parse_simple_adblock_domain_rule ::
    "string \<Rightarrow> (rule_disposition \<times> string \<times> bool) option" where
  "parse_simple_adblock_domain_rule line =
     (case (case strip_prefix ''@@'' line of Some rest \<Rightarrow> (Allow, rest) | None \<Rightarrow> (Block, line)) of
        (disposition, remainder) \<Rightarrow>
          if CHR ''$'' \<in> set remainder \<or> CHR ''*'' \<in> set remainder \<or> prefix ''/'' remainder
          then None
          else (case strip_prefix ''||'' remainder of
                  None \<Rightarrow> None
                | Some remainder \<Rightarrow>
                    let remainder = hd (split_on CHR ''$'' remainder);
                        remainder = trim_end_matches CHR ''^'' remainder;
                        remainder = trim_end_matches CHR ''|'' remainder;
                        remainder = trim remainder
                    in map_option (\<lambda>domain. (disposition, domain, True)) (normalize_domain remainder)))"

definition parse_hosts_rule :: "string \<Rightarrow> (ip_addr \<times> string list) option" where
  "parse_hosts_rule line =
     (case split_whitespace line of
        [] \<Rightarrow> None
      | ip_text # parts \<Rightarrow>
          (case parse_ip_addr ip_text of
             None \<Rightarrow> None
           | Some ip \<Rightarrow>
               let domains = List.map_filter normalize_domain parts
               in if domains = [] then None else Some (ip, domains)))"

text \<open>\<^verbatim>\<open>split_pattern_and_modifiers\<close>: a regex rule ends at the first unescaped slash that is
  followed by a dollar sign or by the end of the line.\<close>

function scan_regex :: "string \<Rightarrow> nat \<Rightarrow> bool \<Rightarrow> rule_error + (string \<times> string option)" where
  "scan_regex line index escaped =
     (if length line \<le> index then Inl (UnterminatedRegex line)
      else if escaped then scan_regex line (index + 1) False
      else if line ! index = backslash then scan_regex line (index + 1) True
      else if line ! index = CHR ''/'' then
        (if index + 1 < length line \<and> line ! (index + 1) = CHR ''$''
         then Inr (take (index + 1) line, Some (drop (index + 2) line))
         else if index + 1 = length line then Inr (line, None)
         else scan_regex line (index + 1) False)
      else scan_regex line (index + 1) False)"
  by pat_completeness auto
termination
  by (relation "measure (\<lambda>(line, index, escaped). length line - index)") auto

declare scan_regex.simps [simp del]

definition split_pattern_and_modifiers :: "string \<Rightarrow> rule_error + (string \<times> string option)" where
  "split_pattern_and_modifiers line =
     (if \<not> prefix ''/'' line
      then Inr (case split_once CHR ''$'' line of
                  Some (pattern, modifiers) \<Rightarrow> (pattern, Some modifiers)
                | None \<Rightarrow> (line, None))
      else scan_regex line 1 False)"

section \<open>Modifiers\<close>

definition parse_domain_pattern :: "string \<Rightarrow> rule_error + domain_pattern" where
  "parse_domain_pattern value =
     rbind (ok_or (InvalidDomainPattern value) (normalize_domain value)) (\<lambda>normalized.
       if prefix ''*.'' (trim value) then Inr (WildcardSuffix normalized) else Inr (Exact normalized))"

definition parse_dnstype_modifier ::
    "('rx, 'net) rule_libs \<Rightarrow> string \<Rightarrow> rule_error + type_constraint" where
  "parse_dnstype_modifier libs value =
     (let vals = filter (\<lambda>v. v \<noteq> []) (split_on CHR ''|'' value);
          exclude = list_all (\<lambda>v. prefix ''~'' v) vals;
          incl = list_all (\<lambda>v. \<not> prefix ''~'' v) vals
      in if \<not> exclude \<and> \<not> incl then Inl (MixedDnstype value)
         else rbind (collect_results
                       (\<lambda>v. let name = to_ascii_uppercase (trim_start_matches CHR ''~'' v)
                             in ok_or (InvalidDnstype name) (record_type_from_str libs name)) vals)
                (\<lambda>types. Inr (if exclude then Exclude (set types) else Include (set types))))"

record parsed_modifiers =
  pm_important :: bool
  pm_dnstypes :: "type_constraint option"
  pm_denyallow :: "domain_pattern list"

definition modifiers_default :: parsed_modifiers where
  "modifiers_default = \<lparr>pm_important = False, pm_dnstypes = None, pm_denyallow = []\<rparr>"

definition parse_modifier ::
    "('rx, 'net) rule_libs \<Rightarrow> string \<Rightarrow> parsed_modifiers \<Rightarrow> rule_error + parsed_modifiers" where
  "parse_modifier libs text parsed =
     (let modifier = trim text
      in if modifier = [] then Inr parsed
         else if modifier = ''important'' \<or> modifier = ''badfilter''
         then Inr (parsed\<lparr>pm_important := (modifier = ''important'')\<rparr>)
         else (case strip_prefix ''dnstype='' modifier of
                 Some value \<Rightarrow>
                   rbind (parse_dnstype_modifier libs value) (\<lambda>types.
                     Inr (parsed\<lparr>pm_dnstypes := Some types\<rparr>))
               | None \<Rightarrow>
                   (case strip_prefix ''denyallow='' modifier of
                      Some value \<Rightarrow>
                        rbind (collect_results parse_domain_pattern (split_on CHR ''|'' value)) (\<lambda>patterns.
                          Inr (parsed\<lparr>pm_denyallow := patterns\<rparr>))
                    | None \<Rightarrow> Inl (UnsupportedModifier modifier))))"

definition parse_modifiers ::
    "('rx, 'net) rule_libs \<Rightarrow> string option \<Rightarrow> rule_error + parsed_modifiers" where
  "parse_modifiers libs modifier_text =
     (case modifier_text of
        None \<Rightarrow> Inr modifiers_default
      | Some text \<Rightarrow> fold_results (parse_modifier libs) (split_on CHR '','' text) modifiers_default)"

section \<open>Wildcard patterns\<close>

fun pattern_char :: "char \<Rightarrow> string" where
  "pattern_char c =
     (if c = CHR ''*'' then ''.*''
      else if c = CHR ''^'' then ''$''
      else if c = CHR ''.'' then [backslash, CHR ''.'']
      else if c \<in> set ''?+()[]{}'' \<or> c = backslash then [backslash, c]
      else if c = CHR ''|'' then [backslash, CHR ''|'']
      else [c])"

fun pattern_body :: "string \<Rightarrow> string" where
  "pattern_body [] = []"
| "pattern_body (c # cs) =
     (if cs = [] \<and> c = CHR ''|'' then ''$'' else pattern_char c) @ pattern_body cs"

definition pattern_start :: "string \<Rightarrow> string \<times> string" where
  "pattern_start pattern =
     (if prefix ''||'' pattern then (''^(?:^|.*'' @ [backslash] @ ''.)'', drop 2 pattern)
      else if prefix ''|'' pattern then (''^'', drop 1 pattern)
      else if prefix ''.'' pattern then (''^(?:.*'' @ [backslash] @ ''.)?'', drop 1 pattern)
      else (''^.*'', pattern))"

definition pattern_regex_text :: "string \<Rightarrow> string" where
  "pattern_regex_text pattern =
     (case pattern_start pattern of (start, rest) \<Rightarrow>
        let regex = start @ pattern_body rest
        in if suffix ''$'' regex then regex else regex @ ''.*$'')"

definition adblock_pattern_to_regex :: "('rx, 'net) rule_libs \<Rightarrow> string \<Rightarrow> rule_error + 'rx" where
  "adblock_pattern_to_regex libs pattern =
     map_err (InvalidGeneratedRegex pattern) (regex_new libs (pattern_regex_text pattern))"

section \<open>Complex rules\<close>

definition parse_matcher :: "('rx, 'net) rule_libs \<Rightarrow> string \<Rightarrow> rule_error + 'rx matcher" where
  "parse_matcher libs pattern =
     rbind (if prefix ''/'' pattern \<and> suffix ''/'' pattern \<and> 2 \<le> length pattern
            then map_err (InvalidRegexRule pattern) (regex_new libs (butlast (tl pattern)))
            else adblock_pattern_to_regex libs pattern)
       (\<lambda>rx. Inr (Regex rx))"

definition parse_complex_rule ::
    "('rx, 'net) rule_libs \<Rightarrow> string \<Rightarrow> rule_error + 'rx compiled_match_rule option" where
  "parse_complex_rule libs raw =
     (let line = (case strip_prefix ''@@'' raw of Some rest \<Rightarrow> rest | None \<Rightarrow> raw)
      in rbind (split_pattern_and_modifiers line) (\<lambda>(pattern, modifier_text).
         rbind (parse_modifiers libs modifier_text) (\<lambda>modifiers.
         rbind (parse_matcher libs pattern) (\<lambda>m.
           Inr (Some \<lparr>raw_text = raw, matcher = m, important = pm_important modifiers,
                      dnstypes = pm_dnstypes modifiers, denyallow = pm_denyallow modifiers\<rparr>)))))"

section \<open>Filing a line\<close>

text \<open>The state the parser threads through: the rule sets and the rules disabled so far.\<close>

type_synonym 'rx parse_state = "'rx rule_sets \<times> string set"

definition badfilter_target :: "string \<Rightarrow> string" where
  "badfilter_target raw = trim_end_matches CHR '','' (trim_end_str ''$badfilter'' raw)"

definition file_complex_rule ::
    "string \<Rightarrow> 'rx compiled_match_rule \<Rightarrow> 'rx parse_state \<Rightarrow> 'rx parse_state" where
  "file_complex_rule line rule st =
     (case st of (rules, disabled_rules) \<Rightarrow>
        if suffix ''$badfilter'' (raw_text rule)
        then (rules, insert (badfilter_target (raw_text rule)) disabled_rules)
        else if prefix ''@@'' line
        then (rules\<lparr>allow_rules := allow_rules rules @ [rule]\<rparr>, disabled_rules)
        else (rules\<lparr>block_rules := block_rules rules @ [rule]\<rparr>, disabled_rules))"

definition file_hosts_rule ::
    "rule_origin \<Rightarrow> ip_addr \<Rightarrow> string list \<Rightarrow> 'rx rule_sets \<Rightarrow> 'rx rule_sets" where
  "file_hosts_rule origin ip domains rules =
     (case origin of
        RemoteFilter \<Rightarrow> fold (\<lambda>domain. add_domain_rule Block domain False) domains rules
      | UserRule \<Rightarrow> fold (\<lambda>domain. add_override ip domain) domains rules)"

definition parse_rule_line ::
    "('rx, 'net) rule_libs \<Rightarrow> rule_origin \<Rightarrow> string \<Rightarrow> 'rx parse_state \<Rightarrow> rule_error + 'rx parse_state" where
  "parse_rule_line libs origin text st =
     (let line = trim (strip_comments text)
      in if line = [] then Inr st
         else (case parse_simple_adblock_domain_rule line of
            Some (disposition, domain, include_subdomains) \<Rightarrow>
              Inr (add_domain_rule disposition domain include_subdomains (fst st), snd st)
          | None \<Rightarrow>
         (case parse_hosts_rule line of
            Some (ip, domains) \<Rightarrow> Inr (file_hosts_rule origin ip domains (fst st), snd st)
          | None \<Rightarrow>
         (case normalize_domain line of
            Some domain \<Rightarrow> Inr (add_domain_rule Block domain False (fst st), snd st)
          | None \<Rightarrow>
              rbind (parse_complex_rule libs line) (\<lambda>parsed.
                case parsed of
                  Some rule \<Rightarrow> Inr (file_complex_rule line rule st)
                | None \<Rightarrow> Inr st)))))"

definition parse_rule_lines ::
    "('rx, 'net) rule_libs \<Rightarrow> rule_origin \<Rightarrow> string \<Rightarrow> 'rx parse_state \<Rightarrow> rule_error + 'rx parse_state" where
  "parse_rule_lines libs origin contents st =
     fold_results (parse_rule_line libs origin) (lines_of contents) st"

section \<open>Disabled rules\<close>

text \<open>One iteration of the loop over \<^verbatim>\<open>disabled_rules\<close>; the list is the order in which the hash
  set is iterated.\<close>

definition disable_rule :: "string \<Rightarrow> 'rx rule_sets \<Rightarrow> 'rx rule_sets" where
  "disable_rule disabled rules =
     (case parse_simple_adblock_domain_rule disabled of
        Some (disposition, domain, include_subdomains) \<Rightarrow>
          remove_domain_rule disposition domain include_subdomains rules
      | None \<Rightarrow>
          (case normalize_domain disabled of
             Some domain \<Rightarrow> rules\<lparr>block_exact := block_exact rules - {domain},
                                  allow_exact := allow_exact rules - {domain}\<rparr>
           | None \<Rightarrow> rules))"

definition apply_badfilters :: "string list \<Rightarrow> 'rx rule_sets \<Rightarrow> 'rx rule_sets" where
  "apply_badfilters disabled_rules rules =
     (let rules = fold disable_rule disabled_rules rules
      in rules\<lparr>block_rules := filter (\<lambda>rule. raw_text rule \<notin> set disabled_rules) (block_rules rules),
               allow_rules := filter (\<lambda>rule. raw_text rule \<notin> set disabled_rules) (allow_rules rules)\<rparr>)"

end
