(* ===== verification/Rule_Facts.thy ===== *)
theory Rule_Facts
  imports Rule_Parser
begin

text \<open>
  Facts about the rule parser: what normalisation yields, that the recognisers only produce
  normalised names, the domain operations a line stands for and that filing lines performs
  exactly those, the reassembly of split rules, and the effect of disabled rules.
\<close>

section \<open>Normalisation\<close>

lemma last_to_ascii_lowercase: "s \<noteq> [] \<Longrightarrow> last (to_ascii_lowercase s) = lower_char (last s)"
  by (simp add: to_ascii_lowercase_def last_map)

lemma lower_char_dot_iff: "lower_char c = CHR ''.'' \<longleftrightarrow> c = CHR ''.''"
proof
  assume dot: "lower_char c = CHR ''.''"
  show "c = CHR ''.''"
  proof (cases "ascii_upper c")
    case True
    then have "code_of (lower_char c) = code_of c + 32" and "65 \<le> code_of c"
      by (auto simp: lower_char_def ascii_upper_def)
    with dot show ?thesis by simp
  qed (use dot in \<open>simp add: lower_char_def\<close>)
qed (simp add: lower_char_def ascii_upper_def)

lemma normalize_domain_normal:
  assumes "normalize_domain s = Some d"
  shows "normal_domain d"
proof -
  define c where "c = trim_start_str ''*.'' (trim_matches CHR ''.'' (trim s))"
  have d: "d = to_ascii_lowercase c" and ne: "d \<noteq> []" and chars: "list_all domain_char d"
    using assms by (auto simp: normalize_domain_def Let_def c_def split: if_splits)
  have "c \<noteq> []" using d ne by simp
  have suff: "suffix c (trim_matches CHR ''.'' (trim s))"
    unfolding c_def by (rule suffix_trim_start_str)
  then have "trim_matches CHR ''.'' (trim s) \<noteq> []" using \<open>c \<noteq> []\<close> by auto
  then have "last c \<noteq> CHR ''.''"
    using last_suffix [OF suff \<open>c \<noteq> []\<close>] last_trim_end_matches
    by (simp add: trim_matches_def)
  then have "last d \<noteq> CHR ''.''"
    using \<open>c \<noteq> []\<close> by (simp add: d last_to_ascii_lowercase lower_char_dot_iff)
  moreover have "\<not> ascii_upper x" if "x \<in> set d" for x
    using that by (auto simp: d to_ascii_lowercase_def)
  ultimately show ?thesis using ne chars by (auto simp: normal_domain_def list_all_iff)
qed

lemma domain_char_plain: "domain_char c \<Longrightarrow> plain_char c"
  by (auto simp: domain_char_def ascii_alphanumeric_def plain_char_def ws1_def)

lemma domain_char_simps [simp]:
  "\<not> domain_char CHR ''*''" "\<not> domain_char CHR ''/''" "\<not> domain_char CHR '':''"
  "\<not> domain_char CHR '' ''" "\<not> domain_char CHR ''$''" "\<not> domain_char CHR ''|''"
  "\<not> domain_char CHR ''^''" "\<not> domain_char CHR ''@''" "\<not> domain_char CHR ''#''"
  "\<not> domain_char CHR ''!''" "domain_char CHR ''.''"
  by (simp_all add: domain_char_def ascii_alphanumeric_def)

lemma normal_domain_not_in:
  "normal_domain d \<Longrightarrow> \<not> domain_char c \<Longrightarrow> c \<notin> set d"
  by (auto simp: normal_domain_def)

lemma normal_domainD:
  assumes "normal_domain d"
  shows "d \<noteq> []" "\<And>c. c \<in> set d \<Longrightarrow> domain_char c" "\<And>c. c \<in> set d \<Longrightarrow> plain_char c"
    "to_ascii_lowercase d = d" "last d \<noteq> CHR ''.''"
  using assms domain_char_plain by (auto simp: normal_domain_def to_ascii_lowercase_id)

lemma normalize_domain_id:
  assumes "normal_domain d" and "hd d \<noteq> CHR ''.''"
  shows "normalize_domain d = Some d"
proof -
  note nd = normal_domainD [OF assms(1)]
  have "trim d = d" using nd(3) by (simp add: trim_plain)
  moreover have "trim_matches CHR ''.'' d = d" using assms(2) nd(5) by (simp add: trim_matches_id)
  moreover have "\<not> prefix ''*.'' d"
    using nd(2) [of "hd d"] nd(1) by (cases d) auto
  ultimately show ?thesis
    using nd(1,2,4) normal_domain_not_in [OF assms(1)]
    by (simp add: normalize_domain_def Let_def trim_start_str_id list_all_iff)
qed

section \<open>The recognisers\<close>

lemma parse_simple_normal:
  "parse_simple_adblock_domain_rule line = Some (disp, d, sub) \<Longrightarrow> normal_domain d \<and> sub"
  by (auto simp: parse_simple_adblock_domain_rule_def Let_def normalize_domain_normal
      split: option.splits prod.splits if_splits)

lemma parse_hosts_normal:
  "parse_hosts_rule line = Some (ip, ds) \<Longrightarrow> d \<in> set ds \<Longrightarrow> normal_domain d"
  by (auto simp: parse_hosts_rule_def Let_def map_filter_def normalize_domain_normal
      split: option.splits list.splits if_splits)

text \<open>A line in the \<^verbatim>\<open>||name^\<close> form is recognised, with or without the exception mark.\<close>

lemma parse_simple_canonical:
  assumes "normal_domain d" and "hd d \<noteq> CHR ''.''"
  shows "parse_simple_adblock_domain_rule (''||'' @ d @ ''^'') = Some (Block, d, True)"
    and "parse_simple_adblock_domain_rule (''@@||'' @ d @ ''^'') = Some (Allow, d, True)"
proof -
  note nd = normal_domainD [OF assms(1)]
  have dollar: "CHR ''$'' \<notin> set d" "CHR ''*'' \<notin> set d"
    by (rule normal_domain_not_in [OF assms(1)]; simp)+
  have last_d: "domain_char (last d)" using nd(1,2) by simp
  have "last d \<noteq> CHR ''^''" using last_d by auto
  then have hat: "trim_end_matches CHR ''^'' (d @ ''^'') = d"
    using trim_end_matches_id [of d "CHR ''^''"] nd(1) by (simp add: trim_end_matches_def)
  have "last d \<noteq> CHR ''|''" using last_d by auto
  then have bar: "trim_end_matches CHR ''|'' d = d" by (intro trim_end_matches_id)
  have tr: "trim d = d" using nd(3) by (simp add: trim_plain)
  have sp: "split_on CHR ''$'' (d @ ''^'') = [d @ ''^'']"
    using dollar by (intro split_on_no_delim) simp
  show "parse_simple_adblock_domain_rule (''||'' @ d @ ''^'') = Some (Block, d, True)"
    "parse_simple_adblock_domain_rule (''@@||'' @ d @ ''^'') = Some (Allow, d, True)"
    using dollar hat bar tr sp normalize_domain_id [OF assms]
    by (auto simp: parse_simple_adblock_domain_rule_def strip_prefix_def Let_def)
qed

section \<open>Lines as domain operations\<close>

definition line_domain_ops :: "rule_origin \<Rightarrow> string \<Rightarrow> domain_op list" where
  "line_domain_ops origin text =
     (let line = trim (strip_comments text)
      in if line = [] then []
         else (case parse_simple_adblock_domain_rule line of
            Some op \<Rightarrow> [op]
          | None \<Rightarrow>
         (case parse_hosts_rule line of
            Some (ip, domains) \<Rightarrow>
              (case origin of RemoteFilter \<Rightarrow> map (\<lambda>d. (Block, d, False)) domains | UserRule \<Rightarrow> [])
          | None \<Rightarrow>
         (case normalize_domain line of
            Some domain \<Rightarrow> [(Block, domain, False)]
          | None \<Rightarrow> []))))"

text \<open>The four domain sets of a rule set.\<close>

definition domain_part :: "('rx, 'm) rule_sets_scheme \<Rightarrow> domain_sets \<times> domain_sets" where
  "domain_part rules = (block_index rules, allow_index rules)"

lemma domain_part_cong:
  "domain_part r = domain_part r' \<Longrightarrow>
   domain_part (add_domain_rule disp d sub r) = domain_part (add_domain_rule disp d sub r')"
  by (cases disp) (auto simp: domain_part_def block_index_def allow_index_def is_allowed_def)

lemma domain_part_ops_cong:
  "domain_part r = domain_part r' \<Longrightarrow>
   domain_part (apply_domain_ops ops r) = domain_part (apply_domain_ops ops r')"
  by (induction ops arbitrary: r r')
    (auto simp: apply_domain_ops_def intro: domain_part_cong)

lemma domain_part_add_override [simp]: "domain_part (add_override ip d r) = domain_part r"
  by (simp add: add_override_def domain_part_def block_index_def allow_index_def)

lemma domain_part_file_complex [simp]:
  "domain_part (fst (file_complex_rule line rule st)) = domain_part (fst st)"
  by (cases st) (simp add: file_complex_rule_def domain_part_def block_index_def allow_index_def)

lemma domain_part_overrides_fold:
  "domain_part (fold (add_override ip) ds r) = domain_part r"
  by (induction ds arbitrary: r) auto

lemma file_hosts_remote:
  "fold (\<lambda>domain. add_domain_rule Block domain False) ds r
     = apply_domain_ops (map (\<lambda>d. (Block, d, False)) ds) r"
  by (induction ds arbitrary: r) (auto simp: apply_domain_ops_def)

lemma parse_rule_line_ops:
  assumes "parse_rule_line libs origin text st = Inr st'"
  shows "domain_part (fst st') = domain_part (apply_domain_ops (line_domain_ops origin text) (fst st))"
  using assms
  by (auto simp: parse_rule_line_def line_domain_ops_def Let_def file_hosts_rule_def
      file_hosts_remote domain_part_overrides_fold rbind_Inr_iff
      split: if_splits option.splits rule_origin.splits)

text \<open>A whole input is a list of lines with their origins.\<close>

definition parse_inputs ::
    "('rx, 'net) rule_libs \<Rightarrow> (rule_origin \<times> string) list \<Rightarrow> 'rx parse_state \<Rightarrow> rule_error + 'rx parse_state" where
  "parse_inputs libs = fold_results (\<lambda>(origin, text). parse_rule_line libs origin text)"

definition input_ops :: "(rule_origin \<times> string) list \<Rightarrow> domain_op list" where
  "input_ops ins = concat (map (\<lambda>(origin, text). line_domain_ops origin text) ins)"

lemma parse_inputs_ops:
  assumes "parse_inputs libs ins st = Inr st'"
  shows "domain_part (fst st') = domain_part (apply_domain_ops (input_ops ins) (fst st))"
  using assms
proof (induction ins arbitrary: st)
  case Nil
  then show ?case by (simp add: parse_inputs_def input_ops_def)
next
  case (Cons x xs)
  obtain origin line where x: "x = (origin, line)" by (cases x)
  from Cons.prems obtain st1 where
    st1: "parse_rule_line libs origin line st = Inr st1" and rest: "parse_inputs libs xs st1 = Inr st'"
    by (auto simp: parse_inputs_def x split: sum.splits)
  have "domain_part (fst st') = domain_part (apply_domain_ops (input_ops xs) (fst st1))"
    by (rule Cons.IH [OF rest])
  also have "\<dots> = domain_part (apply_domain_ops (input_ops xs)
      (apply_domain_ops (line_domain_ops origin line) (fst st)))"
    by (rule domain_part_ops_cong) (rule parse_rule_line_ops [OF st1])
  finally show ?case by (simp add: input_ops_def x)
qed

lemma line_ops_trees: "allow_whole_trees (line_domain_ops origin text)"
  using parse_simple_normal
  by (auto simp: allow_whole_trees_def line_domain_ops_def Let_def
      split: if_splits option.splits rule_origin.splits)

lemma input_ops_trees: "allow_whole_trees (input_ops ins)"
  using line_ops_trees by (fastforce simp: allow_whole_trees_def input_ops_def)

lemma line_ops_normal: "(disp, d, sub) \<in> set (line_domain_ops origin text) \<Longrightarrow> normal_domain d"
  using parse_simple_normal parse_hosts_normal normalize_domain_normal
  by (fastforce simp: line_domain_ops_def Let_def split: if_splits option.splits rule_origin.splits)

lemma index_blocks_domain_part:
  "domain_part r = domain_part r' \<Longrightarrow> index_blocks r d = index_blocks r' d"
  by (simp add: domain_part_def index_blocks_def)

section \<open>Well-formed rule sets\<close>

definition rule_sets_wf :: "('rx, 'm) rule_sets_scheme \<Rightarrow> bool" where
  "rule_sets_wf rules \<longleftrightarrow>
     (\<forall>d \<in> block_exact rules \<union> allow_exact rules. normal_domain d)
     \<and> block_subdomains rules \<subseteq> block_exact rules
     \<and> allow_subdomains rules = allow_exact rules
     \<and> block_exact rules \<inter> allow_exact rules = {}"

lemma rule_sets_wf_default [simp]: "rule_sets_wf rule_sets_default"
  by (simp add: rule_sets_wf_def rule_sets_default_def)

lemma rule_sets_wf_domain_part:
  "domain_part r = domain_part r' \<Longrightarrow> rule_sets_wf r = rule_sets_wf r'"
  by (simp add: rule_sets_wf_def domain_part_def block_index_def allow_index_def)

lemma add_domain_rule_wf:
  assumes "rule_sets_wf r" and "normal_domain d" and "disp = Allow \<Longrightarrow> sub"
  shows "rule_sets_wf (add_domain_rule disp d sub r)"
  using assms
  by (cases disp) (auto simp: rule_sets_wf_def is_allowed_def domain_set_matches_iff)

lemma apply_domain_ops_wf:
  assumes "rule_sets_wf r" and "\<And>disp d sub. (disp, d, sub) \<in> set ops \<Longrightarrow> normal_domain d"
    and "allow_whole_trees ops"
  shows "rule_sets_wf (apply_domain_ops ops r)"
  using assms
proof (induction ops arbitrary: r)
  case Nil
  then show ?case by simp
next
  case (Cons op ops)
  obtain disp d sub where op: "op = (disp, d, sub)" by (cases op) auto
  have "rule_sets_wf (add_domain_rule disp d sub r)"
    using Cons.prems by (intro add_domain_rule_wf) (auto simp: op allow_whole_trees_def)
  moreover have "allow_whole_trees ops" using Cons.prems(3) by (auto simp: allow_whole_trees_def)
  ultimately have "rule_sets_wf (apply_domain_ops ops (add_domain_rule disp d sub r))"
    using Cons.prems(2) by (intro Cons.IH) (auto simp: op)
  then show ?case by (simp add: op apply_domain_ops_def)
qed

lemma parse_rule_line_wf_lemma:
  assumes "rule_sets_wf (fst st)" and "parse_rule_line libs origin line st = Inr st'"
  shows "rule_sets_wf (fst st')"
proof -
  have "rule_sets_wf (apply_domain_ops (line_domain_ops origin line) (fst st))"
    using assms(1) line_ops_normal line_ops_trees by (intro apply_domain_ops_wf) auto
  then show ?thesis
    using rule_sets_wf_domain_part [OF parse_rule_line_ops [OF assms(2)]] by simp
qed

section \<open>Splitting off the modifiers\<close>

definition rejoin :: "string \<times> string option \<Rightarrow> string" where
  "rejoin pm = fst pm @ (case snd pm of None \<Rightarrow> [] | Some m \<Rightarrow> CHR ''$'' # m)"

lemma scan_regex_steps:
  "length line \<le> i \<Longrightarrow> scan_regex line i e = Inl (UnterminatedRegex line)"
  "i < length line \<Longrightarrow> scan_regex line i True = scan_regex line (i + 1) False"
  "i < length line \<Longrightarrow> line ! i = backslash \<Longrightarrow> scan_regex line i False = scan_regex line (i + 1) True"
  "i + 1 < length line \<Longrightarrow> line ! i = CHR ''/'' \<Longrightarrow> line ! (i + 1) = CHR ''$''
     \<Longrightarrow> scan_regex line i False = Inr (take (i + 1) line, Some (drop (i + 2) line))"
  "i + 1 = length line \<Longrightarrow> line ! i = CHR ''/'' \<Longrightarrow> scan_regex line i False = Inr (line, None)"
  "i + 1 < length line \<Longrightarrow> line ! i = CHR ''/'' \<Longrightarrow> line ! (i + 1) \<noteq> CHR ''$''
     \<Longrightarrow> scan_regex line i False = scan_regex line (i + 1) False"
  "i < length line \<Longrightarrow> line ! i \<noteq> CHR ''/'' \<Longrightarrow> line ! i \<noteq> backslash
     \<Longrightarrow> scan_regex line i False = scan_regex line (i + 1) False"
  by (simp_all add: scan_regex.simps [of line i])

lemma scan_regex_result:
  assumes "scan_regex line i escaped = Inr (p, m)" and "1 \<le> i"
  shows "rejoin (p, m) = line \<and> i < length p \<and> last p = CHR ''/'' \<and> prefix p line"
  using assms
proof (induction "length line - i" arbitrary: i escaped rule: less_induct)
  case less
  have lt: "i < length line" using less.prems(1) by (rule contrapos_pp) (simp add: scan_regex_steps(1))
  have rec: ?case if "scan_regex line (Suc i) e = Inr (p, m)" for e
  proof -
    have "length line - (i + 1) < length line - i" using lt by simp
    then show ?thesis using less.hyps [of "i + 1" e] that by simp
  qed
  have last: "last (take (i + 1) line) = line ! i"
    using lt by (simp add: take_Suc_conv_app_nth)
  consider "escaped" | (bs) "\<not> escaped" "line ! i = backslash"
    | (dollar) "\<not> escaped" "line ! i = CHR ''/''" "i + 1 < length line" "line ! (i + 1) = CHR ''$''"
    | (eol) "\<not> escaped" "line ! i = CHR ''/''" "i + 1 = length line"
    | (more) "\<not> escaped" "line ! i = CHR ''/''" "i + 1 < length line" "line ! (i + 1) \<noteq> CHR ''$''"
    | (other) "\<not> escaped" "line ! i \<noteq> CHR ''/''" "line ! i \<noteq> backslash"
    using lt by linarith
  then show ?case
  proof cases
    case dollar
    then have pm: "p = take (i + 1) line" "m = Some (drop (i + 2) line)"
      using less.prems(1) by (simp_all add: scan_regex_steps(4))
    have "drop (i + 1) line = CHR ''$'' # drop (i + 2) line"
      using Cons_nth_drop_Suc [of "i + 1" line] dollar by simp
    then have "rejoin (p, m) = line"
      by (metis append_take_drop_id fst_conv option.simps(5) pm rejoin_def snd_conv)
    then show ?thesis using last pm dollar by (simp add: take_is_prefix)
  next
    case eol
    then have "p = line" "m = None"
      using less.prems(1) by (simp_all add: scan_regex_steps(5))
    then show ?thesis using last eol by (simp add: rejoin_def)
  qed (use less.prems(1) lt in \<open>auto simp: scan_regex_steps(2,3,6,7) dest!: rec\<close>)
qed

lemma split_pattern_rejoin:
  assumes "split_pattern_and_modifiers line = Inr (p, m)"
  shows "rejoin (p, m) = line"
proof (cases "prefix ''/'' line")
  case True
  then show ?thesis using assms scan_regex_result by (auto simp: split_pattern_and_modifiers_def)
next
  case False
  then show ?thesis using assms
    by (auto simp: split_pattern_and_modifiers_def rejoin_def dest: split_once_SomeD
        split: option.splits)
qed

lemma split_pattern_regex:
  assumes "split_pattern_and_modifiers line = Inr (p, m)" and "prefix ''/'' line"
  shows "prefix ''/'' p \<and> suffix ''/'' p \<and> 2 \<le> length p"
proof -
  have r: "1 < length p" "last p = CHR ''/''" "prefix p line"
    using assms scan_regex_result [of line 1 False p m]
    by (auto simp: split_pattern_and_modifiers_def)
  then have "p \<noteq> []" by auto
  then have "suffix ''/'' p" using r(2) by (metis append_butlast_last_id suffixI)
  moreover have "prefix ''/'' p"
    using r(1,3) assms(2) by (cases p) (auto simp: prefix_def)
  ultimately show ?thesis using r(1) by simp
qed

section \<open>Disabled rules\<close>

lemma disable_rule_commute: "disable_rule a (disable_rule b r) = disable_rule b (disable_rule a r)"
proof -
  have "remove_domain_rule x d s (remove_domain_rule y e t r')
      = remove_domain_rule y e t (remove_domain_rule x d s r')"
    for x y d e s t and r' :: "'a rule_sets"
    by (cases x; cases y) (auto simp: Diff_insert2 [symmetric] insert_commute)
  moreover have "remove_domain_rule x d s
        (r'\<lparr>block_exact := block_exact r' - {e}, allow_exact := allow_exact r' - {e}\<rparr>)
      = (let q = remove_domain_rule x d s r'
         in q\<lparr>block_exact := block_exact q - {e}, allow_exact := allow_exact q - {e}\<rparr>)"
    for x d s e and r' :: "'a rule_sets"
    by (cases x) (auto simp: Let_def Diff_insert2 [symmetric] insert_commute)
  ultimately show ?thesis
    by (auto simp: disable_rule_def Let_def Diff_insert2 [symmetric] insert_commute split: option.splits)
qed

lemma apply_badfilters_order:
  assumes "mset ds = mset ds'"
  shows "apply_badfilters ds r = apply_badfilters ds' r"
proof -
  have "fold disable_rule ds = (fold disable_rule ds' :: 'a rule_sets \<Rightarrow> 'a rule_sets)"
    by (rule fold_permuted_eq [where P = "\<lambda>_. True", THEN ext])
      (use assms in \<open>auto simp: disable_rule_commute\<close>)
  moreover have "set ds = set ds'" using assms by (metis set_mset_mset)
  ultimately show ?thesis by (simp add: apply_badfilters_def)
qed

end
