(* ===== verification/Lan_Hosts.thy ===== *)
theory Lan_Hosts
  imports Rule_Facts
begin

text \<open>
  Names of the local network (src/adblock/rules.rs, \<^verbatim>\<open>load_lan_host_overrides\<close>): each line of
  the DHCP server's lease file gives a host's address and name; the name, with and without the
  local domain, is answered with the address, and the address's reverse name with the host's
  name. Reading the file is a parameter: \<open>read_to_string\<close> is what the operating system
  answers for a path.
\<close>

datatype io_error = NotFound | OtherIo string

record dhcp_lease_rule =
  lease_ip :: ip_addr
  lease_domains :: "string list"
  lease_ptr_domain :: string

record lan_host_overrides =
  lo_overrides :: "string \<Rightarrow> override_rule option"
  lo_ptr_overrides :: "string \<Rightarrow> string list option"

definition lan_host_overrides_default :: lan_host_overrides where
  "lan_host_overrides_default = \<lparr>lo_overrides = Map.empty, lo_ptr_overrides = Map.empty\<rparr>"

text \<open>The name under the local domain; a name already below it is kept.\<close>

definition lease_fqdn :: "string \<Rightarrow> string \<Rightarrow> string" where
  "lease_fqdn hostname domain =
     (if hostname = domain \<or> suffix (''.'' @ domain) hostname then hostname
      else hostname @ ''.'' @ domain)"

text \<open>The names of a host and the one its reverse lookup gives.\<close>

definition lease_names :: "lan_hosts_config \<Rightarrow> string \<Rightarrow> string list \<times> string" where
  "lease_names config hostname =
     (let domains = (if lh_include_unqualified config then [hostname] else [])
      in case Option.bind (lh_domain config) normalize_domain of
           Some domain \<Rightarrow>
             (let domains = push_new (lease_fqdn hostname domain) domains
              in (domains, last domains))
         | None \<Rightarrow> (domains, hostname))"

definition host_lease :: "lan_hosts_config \<Rightarrow> ip_addr \<Rightarrow> string \<Rightarrow> dhcp_lease_rule option" where
  "host_lease config ip hostname =
     (case lease_names config hostname of (domains, ptr_domain) \<Rightarrow>
        if domains = [] then None
        else Some \<lparr>lease_ip = ip, lease_domains = domains, lease_ptr_domain = ptr_domain\<rparr>)"

definition parse_dhcp_lease_line :: "string \<Rightarrow> lan_hosts_config \<Rightarrow> dhcp_lease_rule option" where
  "parse_dhcp_lease_line line config =
     (case split_whitespace line of
        expires # mac # ip_text # hostname # _ \<Rightarrow>
          Option.bind (parse_ip_addr ip_text) (\<lambda>ip.
          if hostname = ''*'' then None
          else Option.bind (normalize_domain hostname) (host_lease config ip))
      | _ \<Rightarrow> None)"

definition add_lease :: "dhcp_lease_rule \<Rightarrow> lan_host_overrides \<Rightarrow> lan_host_overrides" where
  "add_lease lease leases =
     \<lparr>lo_overrides =
        fold (\<lambda>domain. add_override_to_map (lease_ip lease) domain) (lease_domains lease)
          (lo_overrides leases),
      lo_ptr_overrides =
        add_ptr_override_to_map (lease_ip lease) (lease_ptr_domain lease) (lo_ptr_overrides leases)\<rparr>"

definition add_lease_line :: "lan_hosts_config \<Rightarrow> string \<Rightarrow> lan_host_overrides \<Rightarrow> lan_host_overrides" where
  "add_lease_line config line leases =
     (case parse_dhcp_lease_line line config of
        None \<Rightarrow> leases
      | Some lease \<Rightarrow> add_lease lease leases)"

definition load_lan_host_overrides ::
    "(string \<Rightarrow> io_error + string) \<Rightarrow> lan_hosts_config \<Rightarrow> lan_host_overrides" where
  "load_lan_host_overrides read_to_string config =
     (if \<not> lh_enabled config then lan_host_overrides_default
      else (case read_to_string (lh_source config) of
              Inl NotFound \<Rightarrow> lan_host_overrides_default
            | Inl (OtherIo _) \<Rightarrow> lan_host_overrides_default
            | Inr contents \<Rightarrow>
                fold (add_lease_line config) (lines_of contents) lan_host_overrides_default))"

section \<open>One lease\<close>

text \<open>The names of a lease: at least one, without repetition, all in the form the rule sets
  use, and the name given for the reverse lookup is one of them.\<close>

definition lease_wf :: "dhcp_lease_rule \<Rightarrow> bool" where
  "lease_wf lease \<longleftrightarrow>
     lease_domains lease \<noteq> [] \<and> distinct (lease_domains lease)
     \<and> lease_ptr_domain lease = last (lease_domains lease)
     \<and> (\<forall>d\<in>set (lease_domains lease). normal_domain d)"

lemma normal_domain_append:
  "normal_domain a \<Longrightarrow> normal_domain b \<Longrightarrow> normal_domain (a @ ''.'' @ b)"
  by (auto simp: normal_domain_def domain_char_def ascii_upper_def)

lemma lease_fqdn_normal:
  "normal_domain hostname \<Longrightarrow> normal_domain domain \<Longrightarrow> normal_domain (lease_fqdn hostname domain)"
  by (auto simp: lease_fqdn_def normal_domain_append simp del: append.simps)

lemma lease_fqdn_below: "suffix_match (lease_fqdn hostname domain) domain"
  by (auto simp: lease_fqdn_def suffix_match_iff suffix_def)

lemma lease_names_wf:
  assumes "normal_domain hostname" and "lease_names config hostname = (domains, ptr)"
    and "domains \<noteq> []"
  shows "distinct domains" "ptr = last domains" "\<forall>d\<in>set domains. normal_domain d"
proof -
  have "distinct domains \<and> ptr = last domains \<and> (\<forall>d\<in>set domains. normal_domain d)"
  proof (cases "Option.bind (lh_domain config) normalize_domain")
    case None
    then show ?thesis using assms by (auto simp: lease_names_def split: if_splits)
  next
    case (Some domain)
    then have "normal_domain domain" by (auto simp: bind_eq_Some_conv dest: normalize_domain_normal)
    then have "normal_domain (lease_fqdn hostname domain)" using assms(1) by (simp add: lease_fqdn_normal)
    then show ?thesis using assms
      by (auto simp: Some lease_names_def Let_def push_new_def split: if_splits)
  qed
  then show "distinct domains" "ptr = last domains" "\<forall>d\<in>set domains. normal_domain d" by auto
qed

lemma lease_line_wf:
  assumes "parse_dhcp_lease_line line config = Some lease"
  shows "lease_wf lease"
proof -
  obtain hostname ip where h: "normal_domain hostname" "host_lease config ip hostname = Some lease"
    using assms unfolding parse_dhcp_lease_line_def
    by (auto simp: bind_eq_Some_conv dest: normalize_domain_normal split: list.splits if_splits)
  then have "lease_domains lease \<noteq> []"
    and "lease_names config hostname = (lease_domains lease, lease_ptr_domain lease)"
    by (auto simp: host_lease_def split: prod.splits if_splits)
  then show ?thesis using lease_names_wf [OF h(1)] by (simp add: lease_wf_def)
qed

section \<open>The whole file\<close>

definition file_leases :: "lan_hosts_config \<Rightarrow> string \<Rightarrow> dhcp_lease_rule list" where
  "file_leases config contents =
     List.map_filter (\<lambda>line. parse_dhcp_lease_line line config) (lines_of contents)"

lemma fold_add_lease_line:
  "fold (add_lease_line config) lines st =
   fold add_lease (List.map_filter (\<lambda>line. parse_dhcp_lease_line line config) lines) st"
  by (induction lines arbitrary: st)
     (simp_all add: add_lease_line_def map_filter_simps split: option.splits)

lemma stored_ips_fold:
  "stored_ips (fold (\<lambda>domain. add_override_to_map ip domain) ds m) d =
     (if d \<in> set ds then insert ip (stored_ips m d) else stored_ips m d)"
  by (induction ds arbitrary: m) auto

lemma stored_ips_add_lease:
  "stored_ips (lo_overrides (add_lease lease st)) d =
     {ip. ip = lease_ip lease \<and> d \<in> set (lease_domains lease)} \<union> stored_ips (lo_overrides st) d"
  by (auto simp: add_lease_def stored_ips_fold)

lemma stored_ptrs_add_lease:
  "stored_ptrs (lo_ptr_overrides (add_lease lease st)) q =
     {t. q = reverse_lookup_name (lease_ip lease) \<and> t = lease_ptr_domain lease}
     \<union> stored_ptrs (lo_ptr_overrides st) q"
  by (auto simp: add_lease_def)

lemma stored_ips_leases:
  "stored_ips (lo_overrides (fold add_lease ls st)) d =
     {lease_ip l | l. l \<in> set ls \<and> d \<in> set (lease_domains l)} \<union> stored_ips (lo_overrides st) d"
  by (induction ls arbitrary: st) (auto simp: stored_ips_add_lease)

lemma stored_ptrs_leases:
  "stored_ptrs (lo_ptr_overrides (fold add_lease ls st)) q =
     {lease_ptr_domain l | l. l \<in> set ls \<and> q = reverse_lookup_name (lease_ip l)}
     \<union> stored_ptrs (lo_ptr_overrides st) q"
  by (induction ls arbitrary: st) (auto simp: stored_ptrs_add_lease)

lemma load_lan_host_overrides_eq:
  "load_lan_host_overrides read_to_string config =
     fold add_lease
       (if lh_enabled config
        then (case read_to_string (lh_source config) of
                Inl _ \<Rightarrow> [] | Inr contents \<Rightarrow> file_leases config contents)
        else [])
       lan_host_overrides_default"
  by (simp add: load_lan_host_overrides_def fold_add_lease_line file_leases_def
      split: sum.splits io_error.splits)

lemma lease_of_file: "l \<in> set (file_leases config contents) \<Longrightarrow> lease_wf l"
  by (auto simp: file_leases_def List.map_filter_def intro: lease_line_wf)

text \<open>Claim C38. The forward and the reverse answers of the local network agree: a name given as
  the reverse of an address is itself answered with that address, and every address answered for
  a local name has a reverse name.\<close>

theorem lan_hosts_forward_reverse:
  "stored_ptrs (lo_ptr_overrides (load_lan_host_overrides read_to_string config))
       (reverse_lookup_name ip)
     \<subseteq> {name. ip \<in> stored_ips (lo_overrides (load_lan_host_overrides read_to_string config)) name}
   \<and> (\<Union>name. stored_ips (lo_overrides (load_lan_host_overrides read_to_string config)) name)
     \<subseteq> {ip. stored_ptrs (lo_ptr_overrides (load_lan_host_overrides read_to_string config))
              (reverse_lookup_name ip) \<noteq> {}}"
proof -
  define ls where "ls = (if lh_enabled config
     then (case read_to_string (lh_source config) of
             Inl _ \<Rightarrow> [] | Inr contents \<Rightarrow> file_leases config contents)
     else [])"
  have lan: "load_lan_host_overrides read_to_string config = fold add_lease ls lan_host_overrides_default"
    unfolding load_lan_host_overrides_eq ls_def ..
  have wf: "\<forall>l\<in>set ls. lease_wf l"
    unfolding ls_def by (cases "lh_enabled config"; cases "read_to_string (lh_source config)")
      (simp_all add: lease_of_file)
  have ptr_in: "lease_ptr_domain l \<in> set (lease_domains l)" if "l \<in> set ls" for l
    using wf that by (auto simp: lease_wf_def)
  have default: "stored_ips (lo_overrides lan_host_overrides_default) d = {}"
    "stored_ptrs (lo_ptr_overrides lan_host_overrides_default) d = {}" for d
    by (simp_all add: lan_host_overrides_default_def)
  show ?thesis
    unfolding lan stored_ips_leases stored_ptrs_leases default reverse_lookup_name_eq_iff
    using ptr_in by auto
qed

end
