(* ===== verification/Filter_Fetch.thy ===== *)
theory Filter_Fetch
  imports Lan_Hosts
begin

text \<open>
  Remote filter lists and their cache (src/adblock/fetch.rs). A list is downloaded into a file of
  the cache directory whose name is the filter's number or a hash of its address; at startup only
  the cache is read, a refresh downloads and falls back to the cache.

  The disk is a state: \<open>read_file\<close> is what reading a path gives. The outcomes of the operating
  system and of the HTTP library are parameters (\<open>fetch_env\<close>), and so is the hash: the standard
  library leaves the algorithm of its \<^verbatim>\<open>DefaultHasher\<close> unspecified.
\<close>

section \<open>Decoding the body\<close>

text \<open>\<^verbatim>\<open>String::from_utf8_lossy\<close>: every maximal prefix of a byte sequence that cannot be
  completed is replaced by U+FFFD. \<open>utf8_second\<close> is the range of a second byte, \<open>utf8_width\<close> the
  length of a sequence by its first byte.\<close>

definition utf8_width :: "char \<Rightarrow> nat" where
  "utf8_width c =
     (let n = code_of c
      in if n < 0x80 then 1 else if n < 0xC2 then 0 else if n < 0xE0 then 2
         else if n < 0xF0 then 3 else if n < 0xF5 then 4 else 0)"

definition utf8_second :: "char \<Rightarrow> char \<Rightarrow> bool" where
  "utf8_second c d =
     (let n = code_of c; m = code_of d
      in (if n = 0xE0 then 0xA0 else if n = 0xF0 then 0x90 else 0x80) \<le> m
         \<and> m < (if n = 0xED then 0xA0 else if n = 0xF4 then 0x90 else 0xC0))"

definition utf8_tail :: "char \<Rightarrow> bool" where
  "utf8_tail d \<longleftrightarrow> 0x80 \<le> code_of d \<and> code_of d < 0xC0"

text \<open>Whether the sequence is complete, and how many of its bytes belong together.\<close>

fun utf8_sequence :: "string \<Rightarrow> bool \<times> nat" where
  "utf8_sequence [] = (True, 0)"
| "utf8_sequence (c # s) =
     (let w = utf8_width c
      in if w = 0 then (False, 1)
         else if w = 1 then (True, 1)
         else (case s of
                 [] \<Rightarrow> (False, 1)
               | d # s' \<Rightarrow>
                   if \<not> utf8_second c d then (False, 1)
                   else (let k = length (takeWhile utf8_tail (take (w - 2) s'))
                         in (k = w - 2, 2 + k))))"

definition replacement :: string where
  "replacement = [CHR 0xEF, CHR 0xBF, CHR 0xBD]"

fun lossy :: "nat \<Rightarrow> string \<Rightarrow> string" where
  "lossy 0 s = []"
| "lossy (Suc n) s =
     (if s = [] then []
      else (case utf8_sequence s of (complete, k) \<Rightarrow>
              (if complete then take k s else replacement) @ lossy n (drop k s)))"

definition from_utf8_lossy :: "string \<Rightarrow> string" where
  "from_utf8_lossy bytes = lossy (length bytes) bytes"

lemma utf8_sequence_pos: "s \<noteq> [] \<Longrightarrow> 1 \<le> snd (utf8_sequence s)"
  by (cases s) (auto simp: Let_def split: list.splits)

text \<open>A step consumes at least a byte, so as many steps as there are bytes suffice; further ones
  change nothing.\<close>

lemma lossy_enough: "length s \<le> n \<Longrightarrow> lossy (n + k) s = lossy n s"
proof (induction n arbitrary: s)
  case 0
  then show ?case by (cases k) auto
next
  case (Suc n)
  show ?case
  proof (cases "s = []")
    case False
    obtain c m where seq: "utf8_sequence s = (c, m)" by (cases "utf8_sequence s")
    with False have "1 \<le> m" using utf8_sequence_pos [of s] by simp
    then have "length (drop m s) \<le> n" using Suc.prems False by (cases s) auto
    then show ?thesis using Suc.IH by (simp add: seq)
  qed simp
qed

text \<open>Text that is ASCII is decoded as it is.\<close>

lemma from_utf8_lossy_ascii:
  assumes "\<forall>c\<in>set s. code_of c < 128"
  shows "from_utf8_lossy s = s"
  unfolding from_utf8_lossy_def using assms
  by (induction s) (simp_all add: utf8_width_def Let_def)

section \<open>Configuration and environment\<close>

datatype filter_fetch_mode = CacheOnly | Refresh

record filter_fetch_options =
  fo_cache_dir :: string
  fo_connect_timeout :: nat
  fo_read_timeout :: nat

definition filter_fetch_options_new :: "string \<Rightarrow> filter_fetch_options" where
  "filter_fetch_options_new cache_dir =
     \<lparr>fo_cache_dir = cache_dir, fo_connect_timeout = 10, fo_read_timeout = 30\<rparr>"

record disk =
  read_file :: "string \<Rightarrow> io_error + string"

text \<open>\<open>write_fails\<close> gives, for a write that fails, the error and what a reader of the path finds
  afterwards: the file may have been truncated before the error.\<close>

record ('client, 'response) fetch_env =
  url_hash :: "string \<Rightarrow> 64 word"
  client_build :: "nat \<Rightarrow> nat \<Rightarrow> string + 'client"
  http_get :: "'client \<Rightarrow> string \<Rightarrow> string + 'response"
  error_for_status :: "'response \<Rightarrow> string + 'response"
  response_bytes :: "'response \<Rightarrow> string + string"
  mkdir_fails :: "string \<Rightarrow> io_error option"
  write_fails :: "string \<Rightarrow> string \<Rightarrow> (io_error \<times> (io_error + string)) option"

datatype fetch_error =
    NoReadableCache string
  | CacheDirFailed string io_error
  | CacheWriteFailed string io_error
  | DownloadFailed string string

section \<open>The cache file\<close>

text \<open>\<^verbatim>\<open>PathBuf::join\<close> with a relative name, and \<^verbatim>\<open>Path::parent\<close> of the result.\<close>

definition path_join :: "string \<Rightarrow> string \<Rightarrow> string" where
  "path_join dir name =
     (if dir = [] \<or> suffix ''/'' dir then dir @ name else dir @ ''/'' @ name)"

definition path_parent :: "string \<Rightarrow> string" where
  "path_parent path =
     (let dir = rev (dropWhile (\<lambda>c. c \<noteq> CHR ''/'') (rev path));
          trimmed = trim_end_matches CHR ''/'' dir
      in if trimmed = [] \<and> dir \<noteq> [] then ''/'' else trimmed)"

definition cache_key :: "('c, 'r) fetch_env \<Rightarrow> filter_config \<Rightarrow> string" where
  "cache_key env filt =
     (case fc_id filt of
        Some ident \<Rightarrow> dec_str (uint ident)
      | None \<Rightarrow> map digit_char (be_digits 16 16 (uint (url_hash env (fc_url filt)))))"

definition cache_path_for :: "('c, 'r) fetch_env \<Rightarrow> filter_fetch_options \<Rightarrow> filter_config \<Rightarrow> string" where
  "cache_path_for env options filt = path_join (fo_cache_dir options) (cache_key env filt @ ''.txt'')"

definition is_cached ::
    "('c, 'r) fetch_env \<Rightarrow> filter_fetch_options \<Rightarrow> disk \<Rightarrow> filter_config \<Rightarrow> bool" where
  "is_cached env options d filt = is_ok (read_file d (cache_path_for env options filt))"

definition write_file ::
    "('c, 'r) fetch_env \<Rightarrow> string \<Rightarrow> string \<Rightarrow> disk \<Rightarrow> (io_error + unit) \<times> disk" where
  "write_file env path contents d =
     (case write_fails env path contents of
        None \<Rightarrow> (Inr (), d\<lparr>read_file := (read_file d)(path := Inr contents)\<rparr>)
      | Some (e, left) \<Rightarrow> (Inl e, d\<lparr>read_file := (read_file d)(path := left)\<rparr>))"

definition persist_cached_filter ::
    "('c, 'r) fetch_env \<Rightarrow> string \<Rightarrow> string \<Rightarrow> disk \<Rightarrow> (fetch_error + unit) \<times> disk" where
  "persist_cached_filter env cache_path contents d =
     (if read_file d cache_path = Inr contents then (Inr (), d)
      else (case mkdir_fails env (path_parent cache_path) of
              Some e \<Rightarrow> (Inl (CacheDirFailed (path_parent cache_path) e), d)
            | None \<Rightarrow>
                (case write_file env cache_path contents d of
                   (r, d') \<Rightarrow> (map_err (CacheWriteFailed cache_path) r, d'))))"

definition download_filter_body ::
    "('c, 'r) fetch_env \<Rightarrow> filter_config \<Rightarrow> nat \<Rightarrow> nat \<Rightarrow> string + string" where
  "download_filter_body env filt connect_timeout read_timeout =
     rbind (client_build env connect_timeout read_timeout) (\<lambda>client.
     rbind (http_get env client (fc_url filt)) (\<lambda>response.
     rbind (error_for_status env response) (\<lambda>response.
     rbind (response_bytes env response) (\<lambda>bytes.
       Inr (from_utf8_lossy bytes)))))"

definition fetch_filter ::
    "('c, 'r) fetch_env \<Rightarrow> filter_fetch_options \<Rightarrow> filter_fetch_mode \<Rightarrow> filter_config \<Rightarrow> disk
     \<Rightarrow> (fetch_error + string) \<times> disk" where
  "fetch_filter env options mode filt d =
     (let cache_path = cache_path_for env options filt
      in case mode of
           CacheOnly \<Rightarrow>
             (case read_file d cache_path of
                Inr contents \<Rightarrow> (Inr contents, d)
              | Inl _ \<Rightarrow> (Inl (NoReadableCache (fc_url filt)), d))
         | Refresh \<Rightarrow>
             (case download_filter_body env filt (fo_connect_timeout options) (fo_read_timeout options) of
                Inr contents \<Rightarrow>
                  (case persist_cached_filter env cache_path contents d of
                     (Inl e, d') \<Rightarrow> (Inl e, d')
                   | (Inr _, d') \<Rightarrow> (Inr contents, d'))
              | Inl err \<Rightarrow>
                  (case read_file d cache_path of
                     Inr contents \<Rightarrow> (Inr contents, d)
                   | Inl _ \<Rightarrow> (Inl (DownloadFailed (fc_url filt) err), d))))"

section \<open>The contract of a filter store\<close>

text \<open>Fetching a list of filters in turn, up to the first failure.\<close>

fun fetch_each :: "('f \<Rightarrow> 'd \<Rightarrow> ('e + 'c) \<times> 'd) \<Rightarrow> 'f list \<Rightarrow> 'd \<Rightarrow> ('e + 'c list) \<times> 'd" where
  "fetch_each fetch [] d = (Inr [], d)"
| "fetch_each fetch (f # fs) d =
     (case fetch f d of
        (Inl e, d') \<Rightarrow> (Inl e, d')
      | (Inr c, d') \<Rightarrow>
          (case fetch_each fetch fs d' of
             (Inl e, d'') \<Rightarrow> (Inl e, d'')
           | (Inr cs, d'') \<Rightarrow> (Inr (c # cs), d'')))"

text \<open>What the rule builder relies on: \<open>fetch\<close> by mode, \<open>cached\<close>, and the cache slot of a
  filter.\<close>

locale filter_store =
  fixes fetch :: "filter_fetch_mode \<Rightarrow> 'f \<Rightarrow> 'd \<Rightarrow> ('e + string) \<times> 'd"
    and cached :: "'d \<Rightarrow> 'f \<Rightarrow> bool"
    and slot :: "'f \<Rightarrow> 'k"
    and peek :: "'d \<Rightarrow> 'k \<Rightarrow> string option"
  assumes cache_only_reads: "snd (fetch CacheOnly f d) = d"
    and cache_only_peeks: "fst (fetch CacheOnly f d) = Inr c \<longleftrightarrow> peek d (slot f) = Some c"
    and cached_iff: "cached d f \<longleftrightarrow> peek d (slot f) \<noteq> None"
    and refresh_stores: "fetch Refresh f d = (Inr c, d') \<Longrightarrow> peek d' (slot f) = Some c"
    and refresh_keeps: "fetch mode f d = (r, d') \<Longrightarrow> k \<noteq> slot f \<Longrightarrow> peek d' k = peek d k"
begin

lemma refresh_then_cache: "fetch Refresh f d = (Inr c, d') \<Longrightarrow> fetch CacheOnly f d' = (Inr c, d')"
  by (metis cache_only_peeks cache_only_reads prod.collapse refresh_stores)

lemma cache_only_ok_iff: "is_ok (fst (fetch CacheOnly f d)) \<longleftrightarrow> cached d f"
  by (metis cache_only_peeks cached_iff is_ok_def not_None_eq old.sum.simps(5) old.sum.simps(6) sum.exhaust)

lemma refresh_all_keeps: "fetch_each (fetch Refresh) fs d = (r, d') \<Longrightarrow> k \<notin> slot ` set fs \<Longrightarrow> peek d' k = peek d k"
  by (induction fs arbitrary: d r d')
     (auto split: prod.splits sum.splits dest: refresh_keeps)

lemma refresh_all_cached:
  assumes "fetch_each (fetch Refresh) fs d = (Inr cs, d')" and "distinct (map slot fs)"
  shows "list_all2 (\<lambda>f c. fetch CacheOnly f d' = (Inr c, d')) fs cs"
  using assms
proof (induction fs arbitrary: d cs)
  case (Cons f fs)
  obtain c d1 cs' where f: "fetch Refresh f d = (Inr c, d1)" and fs: "fetch_each (fetch Refresh) fs d1 = (Inr cs', d')"
    and cs: "cs = c # cs'"
    using Cons.prems(1) by (auto split: prod.splits sum.splits)
  have "peek d' (slot f) = Some c"
    using refresh_all_keeps [OF fs, of "slot f"] refresh_stores [OF f] Cons.prems(2) by auto
  then have "fetch CacheOnly f d' = (Inr c, d')"
    by (metis cache_only_peeks cache_only_reads prod.collapse)
  then show ?case using Cons.IH [OF fs] Cons.prems(2) cs by simp
qed simp

end

definition peek_file :: "disk \<Rightarrow> string \<Rightarrow> string option" where
  "peek_file d p = (case read_file d p of Inl _ \<Rightarrow> None | Inr c \<Rightarrow> Some c)"

lemma peek_file_Some [simp]: "peek_file d p = Some c \<longleftrightarrow> read_file d p = Inr c"
  by (simp add: peek_file_def split: sum.splits)

lemma persist_cached_filter_keeps:
  "persist_cached_filter env p c d = (r, d') \<Longrightarrow> q \<noteq> p \<Longrightarrow> read_file d' q = read_file d q"
  by (auto simp: persist_cached_filter_def write_file_def split: if_splits option.splits)

lemma persist_cached_filter_stores:
  "persist_cached_filter env p c d = (Inr u, d') \<Longrightarrow> read_file d' p = Inr c"
  by (auto simp: persist_cached_filter_def write_file_def split: if_splits option.splits)

interpretation store: filter_store "fetch_filter env options" "is_cached env options"
    "cache_path_for env options" peek_file
proof (unfold_locales, goal_cases)
  case (1 f d)
  then show ?case by (simp add: fetch_filter_def Let_def split: sum.splits)
next
  case (2 f d c)
  then show ?case by (simp add: fetch_filter_def Let_def split: sum.splits)
next
  case (3 d f)
  then show ?case by (simp add: is_cached_def peek_file_def is_ok_def split: sum.splits)
next
  case (4 f d c d')
  then show ?case
    by (auto simp: fetch_filter_def Let_def split: sum.splits prod.splits
        dest: persist_cached_filter_stores)
next
  case (5 mode f d r d' k)
  then show ?case
    by (cases mode) (auto simp: fetch_filter_def Let_def peek_file_def split: sum.splits prod.splits
        dest: persist_cached_filter_keeps)
qed

end
