(* ===== verification/Pattern_Regex.thy ===== *)
theory Pattern_Regex
  imports Rule_Facts
begin

text \<open>
  What the wildcard patterns match. \<^verbatim>\<open>adblock_pattern_to_regex\<close> emits a small fragment of the
  regular expression syntax; here the fragment is a datatype with its concrete syntax
  (\<open>render\<close>), a reader for it, and its documented meaning (\<open>rx_sem\<close>: anchors, literal
  characters, \<^verbatim>\<open>.*\<close> that stops at newlines, the two optional-subdomain groups). The engine itself
  is third-party: \<open>engine_documented\<close> states that it gives this meaning to the fragment. Under
  it, a pattern matches exactly the names that the wildcard notation describes.
\<close>

section \<open>The fragment\<close>

datatype rx_item = Bol | Eol | Chr char | AnyStar | SubAlt | SubOpt

definition meta_chars :: "char list" where
  "meta_chars = ''.?+()[]{}|*^$'' @ [backslash]"

fun render_item :: "rx_item \<Rightarrow> string" where
  "render_item Bol = ''^''"
| "render_item Eol = ''$''"
| "render_item (Chr c) = (if c \<in> set meta_chars then [backslash, c] else [c])"
| "render_item AnyStar = ''.*''"
| "render_item SubAlt = ''(?:^|.*'' @ [backslash] @ ''.)''"
| "render_item SubOpt = ''(?:.*'' @ [backslash] @ ''.)?''"

definition render :: "rx_item list \<Rightarrow> string" where
  "render items = concat (map render_item items)"

lemma render_simps [simp]:
  "render [] = []" "render (i # is) = render_item i @ render is" "render (is @ js) = render is @ render js"
  by (simp_all add: render_def)

text \<open>Reading the fragment back.\<close>

definition read_item :: "string \<Rightarrow> (rx_item \<times> string) option" where
  "read_item s =
     (if prefix ''^'' s then Some (Bol, drop 1 s)
      else if prefix ''$'' s then Some (Eol, drop 1 s)
      else if prefix ''.*'' s then Some (AnyStar, drop 2 s)
      else if prefix (render_item SubAlt) s then Some (SubAlt, drop 10 s)
      else if prefix (render_item SubOpt) s then Some (SubOpt, drop 9 s)
      else (case s of
              [] \<Rightarrow> None
            | c # r \<Rightarrow>
                if c = backslash
                then (case r of [] \<Rightarrow> None | e # r' \<Rightarrow> if e \<in> set meta_chars then Some (Chr e, r') else None)
                else if c \<in> set meta_chars then None else Some (Chr c, r)))"

fun read_items :: "nat \<Rightarrow> string \<Rightarrow> rx_item list option" where
  "read_items 0 s = (if s = [] then Some [] else None)"
| "read_items (Suc n) s =
     (if s = [] then Some []
      else (case read_item s of
              None \<Rightarrow> None
            | Some (i, r) \<Rightarrow> map_option ((#) i) (read_items n r)))"

definition read_rx :: "string \<Rightarrow> rx_item list option" where
  "read_rx s = read_items (length s) s"

lemma render_item_not_Nil: "render_item i \<noteq> []"
  by (cases i) auto

lemma read_item_render: "read_item (render_item i @ s) = Some (i, s)"
proof (cases i)
  case (Chr c)
  show ?thesis
  proof (cases "c \<in> set meta_chars")
    case True
    then show ?thesis by (simp add: Chr read_item_def)
  next
    case False
    then have "c \<noteq> CHR ''^''" "c \<noteq> CHR ''$''" "c \<noteq> CHR ''.''" "c \<noteq> CHR ''(''" "c \<noteq> backslash"
      by (auto simp: meta_chars_def)
    with False show ?thesis by (simp add: Chr read_item_def)
  qed
qed (simp_all add: read_item_def)

lemma read_items_render: "length (render items) \<le> n \<Longrightarrow> read_items n (render items) = Some items"
proof (induction items arbitrary: n)
  case Nil
  then show ?case by (cases n) simp_all
next
  case (Cons i items)
  obtain m where "n = Suc m" "length (render items) \<le> m"
    using Cons.prems render_item_not_Nil [of i] by (cases n; cases "render_item i") auto
  then show ?case using Cons.IH render_item_not_Nil [of i] by (simp add: read_item_render)
qed

lemma read_rx_render: "read_rx (render items) = Some items"
  by (simp add: read_rx_def read_items_render)

section \<open>Documented meaning\<close>

abbreviation newline :: char where
  "newline \<equiv> CHR 0x0A"

text \<open>A continuation says whether the rest of the text, entered at the start of the subject or
  not, can be matched by the rest of the expression.\<close>

fun star_then :: "(bool \<Rightarrow> string \<Rightarrow> bool) \<Rightarrow> bool \<Rightarrow> string \<Rightarrow> bool" where
  "star_then k st [] = k st []"
| "star_then k st (c # s) = (k st (c # s) \<or> (c \<noteq> newline \<and> star_then k False s))"

fun dot_then :: "(bool \<Rightarrow> string \<Rightarrow> bool) \<Rightarrow> string \<Rightarrow> bool" where
  "dot_then k [] = False"
| "dot_then k (c # s) = ((c = CHR ''.'' \<and> k False s) \<or> (c \<noteq> newline \<and> dot_then k s))"

fun rx_sem :: "rx_item list \<Rightarrow> bool \<Rightarrow> string \<Rightarrow> bool" where
  "rx_sem [] st s = True"
| "rx_sem (Bol # is) st s = (st \<and> rx_sem is st s)"
| "rx_sem (Eol # is) st s = (s = [] \<and> rx_sem is st s)"
| "rx_sem (Chr c # is) st s = (case s of [] \<Rightarrow> False | x # r \<Rightarrow> x = c \<and> rx_sem is False r)"
| "rx_sem (AnyStar # is) st s = star_then (rx_sem is) st s"
| "rx_sem (SubAlt # is) st s = ((st \<and> rx_sem is st s) \<or> dot_then (rx_sem is) s)"
| "rx_sem (SubOpt # is) st s = (rx_sem is st s \<or> dot_then (rx_sem is) s)"

text \<open>\<^verbatim>\<open>is_match\<close> looks for a match anywhere in the subject.\<close>

fun rx_search :: "rx_item list \<Rightarrow> bool \<Rightarrow> string \<Rightarrow> bool" where
  "rx_search items st [] = rx_sem items st []"
| "rx_search items st (c # s) = (rx_sem items st (c # s) \<or> rx_search items False s)"

definition ascii_line :: "string \<Rightarrow> bool" where
  "ascii_line s \<longleftrightarrow> (\<forall>c\<in>set s. code_of c < 128 \<and> c \<noteq> newline)"

text \<open>The documented behaviour of the engine on the fragment. It may still refuse an
  expression (a size limit), so the claim is about the ones it compiles; and it is about ASCII
  subjects, where a byte is a character.\<close>

definition engine_documented :: "('rx, 'net) rule_libs \<Rightarrow> bool" where
  "engine_documented libs \<longleftrightarrow>
     (\<forall>items rx s. regex_new libs (render items) = Inr rx \<longrightarrow> ascii_line s \<longrightarrow>
        regex_is_match libs rx s = rx_search items True s)"

lemma ex_split_Cons:
  "(\<exists>u r. c # s = u @ r \<and> P u r) \<longleftrightarrow> P [] (c # s) \<or> (\<exists>u r. s = u @ r \<and> P (c # u) r)"
proof
  assume "\<exists>u r. c # s = u @ r \<and> P u r"
  then obtain u r where ur: "c # s = u @ r" "P u r" by blast
  then show "P [] (c # s) \<or> (\<exists>u r. s = u @ r \<and> P (c # u) r)" by (cases u) auto
next
  assume "P [] (c # s) \<or> (\<exists>u r. s = u @ r \<and> P (c # u) r)"
  then show "\<exists>u r. c # s = u @ r \<and> P u r" by (metis append_Cons append_Nil)
qed

lemma ex_split_at_Cons:
  "(\<exists>u r. c # s = u @ x # r \<and> P u r) \<longleftrightarrow>
   (c = x \<and> P [] s) \<or> (\<exists>u r. s = u @ x # r \<and> P (c # u) r)"
proof
  assume "\<exists>u r. c # s = u @ x # r \<and> P u r"
  then obtain u r where ur: "c # s = u @ x # r" "P u r" by blast
  then show "(c = x \<and> P [] s) \<or> (\<exists>u r. s = u @ x # r \<and> P (c # u) r)" by (cases u) auto
next
  assume "(c = x \<and> P [] s) \<or> (\<exists>u r. s = u @ x # r \<and> P (c # u) r)"
  then show "\<exists>u r. c # s = u @ x # r \<and> P u r" by (metis append_Cons append_Nil)
qed

lemma ex_suffix_drop: "(\<exists>u r. t = u @ r \<and> P r) \<longleftrightarrow> (\<exists>k\<le>length t. P (drop k t))"
proof
  assume "\<exists>u r. t = u @ r \<and> P r"
  then obtain u r where "t = u @ r" "P r" by blast
  then show "\<exists>k\<le>length t. P (drop k t)" by (intro exI [of _ "length u"]) simp
next
  assume "\<exists>k\<le>length t. P (drop k t)"
  then obtain k where "P (drop k t)" by blast
  then show "\<exists>u r. t = u @ r \<and> P r"
    by (intro exI [of _ "take k t"] exI [of _ "drop k t"]) simp
qed

lemma star_then_iff:
  "star_then k st s \<longleftrightarrow> (\<exists>u r. s = u @ r \<and> (newline \<notin> set u \<and> k (st \<and> u = []) r))"
proof (induction s arbitrary: st)
  case (Cons c s)
  show ?case unfolding ex_split_Cons using Cons.IH [of False] by auto
qed simp

lemma dot_then_iff:
  "dot_then k s \<longleftrightarrow> (\<exists>u r. s = u @ CHR ''.'' # r \<and> (newline \<notin> set u \<and> k False r))"
proof (induction s)
  case (Cons c s)
  show ?case unfolding ex_split_at_Cons using Cons.IH by auto
qed simp

section \<open>The items of a pattern\<close>

fun char_item :: "char \<Rightarrow> rx_item" where
  "char_item c =
     (if c = CHR ''*'' then AnyStar else if c = CHR ''^'' \<or> c = CHR ''$'' then Eol else Chr c)"

fun body_items :: "string \<Rightarrow> rx_item list" where
  "body_items [] = []"
| "body_items (c # cs) = (if cs = [] \<and> c = CHR ''|'' then Eol else char_item c) # body_items cs"

definition start_items :: "string \<Rightarrow> rx_item list \<times> string" where
  "start_items p =
     (if prefix ''||'' p then ([Bol, SubAlt], drop 2 p)
      else if prefix ''|'' p then ([Bol], drop 1 p)
      else if prefix ''.'' p then ([Bol, SubOpt], drop 1 p)
      else ([Bol, AnyStar], p))"

definition close_items :: "rx_item list \<Rightarrow> rx_item list" where
  "close_items items = (if last items = Eol then items else items @ [AnyStar, Eol])"

definition pattern_items :: "string \<Rightarrow> rx_item list" where
  "pattern_items p = (case start_items p of (start, rest) \<Rightarrow> close_items (start @ body_items rest))"

lemma render_char_item: "render_item (char_item c) = pattern_char c"
  by (auto simp: meta_chars_def)

lemma render_body: "render (body_items p) = pattern_body p"
  by (induction p) (auto simp: render_char_item simp del: char_item.simps pattern_char.simps)

lemma suffix_single: "suffix [c] s \<longleftrightarrow> s \<noteq> [] \<and> last s = c"
  by (cases s rule: rev_cases) (auto simp: suffix_def)

lemma ends_with_dollar:
  assumes "items \<noteq> []" and "Chr CHR ''$'' \<notin> set items"
  shows "suffix ''$'' (render items) \<longleftrightarrow> last items = Eol"
proof -
  obtain js i where items: "items = js @ [i]" using assms(1) by (cases items rule: rev_cases) auto
  have "suffix ''$'' (render items) \<longleftrightarrow> last (render_item i) = CHR ''$''"
    using render_item_not_Nil [of i] by (simp add: items suffix_single)
  also have "\<dots> \<longleftrightarrow> i = Eol"
    using assms(2) by (cases i) (auto simp: items split: if_splits)
  finally show ?thesis by (simp add: items)
qed

lemma body_items_no_dollar: "Chr CHR ''$'' \<notin> set (body_items p)"
  by (induction p) auto

lemma pattern_regex_text_render: "pattern_regex_text p = render (pattern_items p)"
proof -
  obtain start rest where sr: "start_items p = (start, rest)" by (cases "start_items p")
  have start: "pattern_start p = (render start, rest)" and ne: "start \<noteq> []"
    and nd: "Chr CHR ''$'' \<notin> set start"
    using sr by (auto simp: start_items_def pattern_start_def split: if_splits)
  let ?items = "start @ body_items rest"
  have "suffix ''$'' (render ?items) \<longleftrightarrow> last ?items = Eol"
    using ne nd body_items_no_dollar by (intro ends_with_dollar) auto
  then show ?thesis
    by (simp add: pattern_regex_text_def pattern_items_def start sr close_items_def Let_def
        render_body [symmetric])
qed

text \<open>Every expression starts at the beginning of the name, so a search is a match there.\<close>

lemma pattern_items_Bol: "\<exists>is. pattern_items p = Bol # is"
  by (auto simp: pattern_items_def start_items_def close_items_def)

lemma rx_search_Bol: "rx_search (Bol # is) st s = rx_sem (Bol # is) st s"
proof -
  have "\<not> rx_search (Bol # is) False t" for t by (induction t) auto
  then show ?thesis by (cases s) auto
qed

lemma pattern_match:
  assumes "engine_documented libs" and "adblock_pattern_to_regex libs p = Inr rx" and "ascii_line s"
  shows "regex_is_match libs rx s = rx_sem (pattern_items p) True s"
proof -
  have "regex_new libs (render (pattern_items p)) = Inr rx"
    using assms(2) by (simp add: adblock_pattern_to_regex_def pattern_regex_text_render)
  then have "regex_is_match libs rx s = rx_search (pattern_items p) True s"
    using assms(1,3) by (auto simp: engine_documented_def)
  then show ?thesis using pattern_items_Bol [of p] rx_search_Bol by metis
qed

section \<open>Wildcard notation\<close>

text \<open>The textbook reading of a pattern: a star stands for any characters, every other
  character for itself.\<close>

fun glob :: "string \<Rightarrow> string \<Rightarrow> bool" where
  "glob [] t = (t = [])"
| "glob (c # g) t =
     (if c = CHR ''*'' then (\<exists>k\<in>set [0..<Suc (length t)]. glob g (drop k t))
      else t \<noteq> [] \<and> hd t = c \<and> glob g (tl t))"

text \<open>The name itself or what is left of it after one of its dots.\<close>

definition at_label :: "string \<Rightarrow> string \<Rightarrow> bool" where
  "at_label s t \<longleftrightarrow> t = s \<or> (\<exists>u. s = u @ CHR ''.'' # t)"

definition glob_char :: "char \<Rightarrow> bool" where
  "glob_char c \<longleftrightarrow> domain_char c \<or> c = CHR ''*''"

lemma body_items_glob:
  assumes "\<forall>c\<in>set g. glob_char c"
  shows "body_items (g @ ''^'') = map char_item g @ [Eol]" and "body_items g = map char_item g"
proof -
  have bar: "c \<noteq> CHR ''|''" if "c \<in> set g" for c using assms that by (auto simp: glob_char_def)
  then show "body_items (g @ ''^'') = map char_item g @ [Eol]"
    by (induction g) auto
  show "body_items g = map char_item g" using bar by (induction g) auto
qed

lemma rx_sem_glob:
  assumes "\<forall>c\<in>set g. glob_char c" and "newline \<notin> set t"
  shows "rx_sem (map char_item g @ [Eol]) st t = glob g t"
  using assms
proof (induction g arbitrary: st t)
  case Nil
  then show ?case by simp
next
  case (Cons c g)
  have gc: "c \<noteq> CHR ''^''" "c \<noteq> CHR ''$''" using Cons.prems(1) by (auto simp: glob_char_def)
  show ?case
  proof (cases "c = CHR ''*''")
    case True
    have "rx_sem (map char_item (c # g) @ [Eol]) st t
        \<longleftrightarrow> (\<exists>u r. t = u @ r \<and> newline \<notin> set u \<and> rx_sem (map char_item g @ [Eol]) (st \<and> u = []) r)"
      by (simp add: True star_then_iff)
    also have "\<dots> \<longleftrightarrow> (\<exists>u r. t = u @ r \<and> glob g r)"
      using Cons.IH Cons.prems by (intro ex_cong1) (auto simp del: char_item.simps)
    also have "\<dots> \<longleftrightarrow> (\<exists>k\<le>length t. glob g (drop k t))"
      by (rule ex_suffix_drop)
    also have "\<dots> \<longleftrightarrow> glob (c # g) t"
      by (auto simp: True less_Suc_eq_le simp del: upt_Suc)
    finally show ?thesis .
  next
    case False
    then show ?thesis using Cons.IH Cons.prems gc by (cases t) auto
  qed
qed

lemma glob_literal: "\<forall>c\<in>set g. domain_char c \<Longrightarrow> glob g t \<longleftrightarrow> t = g"
proof (induction g arbitrary: t)
  case (Cons c g)
  then have "c \<noteq> CHR ''*''" by auto
  with Cons show ?case by (cases t) auto
qed simp

lemma anchored_pattern_items:
  assumes "\<forall>c\<in>set g. glob_char c"
  shows "pattern_items (''||'' @ g @ ''^'') = Bol # SubAlt # map char_item g @ [Eol]"
  using body_items_glob(1) [OF assms]
  by (simp add: pattern_items_def start_items_def close_items_def)

lemma anchored_pattern_sem:
  assumes "\<forall>c\<in>set g. glob_char c" and "newline \<notin> set s"
  shows "rx_sem (pattern_items (''||'' @ g @ ''^'')) True s \<longleftrightarrow> (\<exists>t. at_label s t \<and> glob g t)"
proof -
  have "rx_sem (pattern_items (''||'' @ g @ ''^'')) True s \<longleftrightarrow>
      glob g s \<or> (\<exists>u r. s = u @ CHR ''.'' # r
        \<and> (newline \<notin> set u \<and> rx_sem (map char_item g @ [Eol]) False r))"
    unfolding anchored_pattern_items [OF assms(1)]
    using rx_sem_glob [OF assms] by (simp add: dot_then_iff del: char_item.simps)
  also have "\<dots> \<longleftrightarrow> glob g s \<or> (\<exists>u r. s = u @ CHR ''.'' # r \<and> glob g r)"
    using assms(2) rx_sem_glob [OF assms(1)] by (intro disj_cong refl ex_cong1) auto
  finally have "rx_sem (pattern_items (''||'' @ g @ ''^'')) True s \<longleftrightarrow>
      glob g s \<or> (\<exists>u r. s = u @ CHR ''.'' # r \<and> glob g r)" .
  then show ?thesis by (auto simp: at_label_def)
qed

lemma at_label_suffix_match: "at_label s t \<longleftrightarrow> suffix_match s t"
  by (auto simp: at_label_def suffix_match_iff)

lemma literal_pattern_sem:
  assumes "normal_domain d" and "newline \<notin> set s"
  shows "rx_sem (pattern_items (''||'' @ d @ ''^'')) True s \<longleftrightarrow> suffix_match s d"
proof -
  have "\<forall>c\<in>set d. glob_char c" "\<forall>c\<in>set d. domain_char c"
    using assms(1) by (auto simp: normal_domain_def glob_char_def)
  then show ?thesis
    using anchored_pattern_sem [OF _ assms(2)] glob_literal by (simp add: at_label_suffix_match)
qed

end
