(* ===== verification/Rule_Build.thy ===== *)
theory Rule_Build
  imports Filter_Fetch Pattern_Regex
begin

text \<open>
  Compiling a configuration (src/adblock/rules.rs, \<^verbatim>\<open>CompiledRuleSets\<close>): the enabled filter
  lists are fetched and read, then the user's rules, then the disabled rules are removed and the
  rewrites are compiled. Two hash containers are iterated: their orders are the parameters
  \<open>disabled_order\<close> and \<open>rewrite_order\<close>, any enumeration without repetition
  (\<open>hash_orders_ok\<close>).
\<close>

record adblock_runtime_config =
  ac_filters :: "filter_config list"
  ac_user_rules :: "string list"
  ac_filtering :: filtering_config
  ac_filter_cache_dir :: string
  ac_lan_hosts :: lan_hosts_config

record ('rx, 'net) compiled_rule_sets = "'rx rule_sets" +
  domain_rewrites :: "domain_rewrite_rule list"
  answer_ip_rewrites :: "'net answer_ip_rewrite_rule list"
  cname_rewrites :: "cname_rewrite_rule list"
  blocking_mode :: blocking_mode
  blocking_ipv4 :: "ipv4 option"
  blocking_ipv6 :: "ipv6 option"
  block_ttl :: "32 word"
  lan_hosts :: lan_hosts_config

datatype build_error = FetchError fetch_error | RuleError rule_error

record hash_orders =
  disabled_order :: "string set \<Rightarrow> string list"
  rewrite_order :: "domain_pattern list \<Rightarrow> domain_pattern list"

definition hash_orders_ok :: "hash_orders \<Rightarrow> bool" where
  "hash_orders_ok orders \<longleftrightarrow>
     (\<forall>s. finite s \<longrightarrow> set (disabled_order orders s) = s \<and> distinct (disabled_order orders s))
     \<and> (\<forall>ks. mset (rewrite_order orders ks) = mset ks)"

section \<open>Rewrites\<close>

definition parse_override_answer :: "string \<Rightarrow> override_rule \<Rightarrow> rule_error + override_rule" where
  "parse_override_answer v rule =
     rbind (ok_or (InvalidRewriteAnswer v) (parse_ip_addr v)) (\<lambda>ip. Inr (add_ip ip rule))"

definition parse_override_answers :: "rewrite_answer_config \<Rightarrow> rule_error + override_rule" where
  "parse_override_answers answer =
     fold_results parse_override_answer (answer_values answer) override_default"

text \<open>The hash map under construction: its keys in order of insertion, and its entries.\<close>

type_synonym rewrite_map = "domain_pattern list \<times> (domain_pattern \<Rightarrow> override_rule option)"

definition add_domain_rewrite :: "rewrite_config \<Rightarrow> rewrite_map \<Rightarrow> rule_error + rewrite_map" where
  "add_domain_rewrite rewrite compiled =
     (case rw_domain rewrite of
        None \<Rightarrow> Inr compiled
      | Some domain \<Rightarrow>
          rbind (parse_override_answers (rw_answer rewrite)) (\<lambda>answer.
          rbind (parse_domain_pattern domain) (\<lambda>pattern.
            Inr (push_new pattern (fst compiled),
                 entry_update override_default pattern (\<lambda>entry. merge_override_rule entry answer)
                   (snd compiled)))))"

definition rewrite_of :: "(domain_pattern \<Rightarrow> override_rule option) \<Rightarrow> domain_pattern \<Rightarrow> domain_rewrite_rule" where
  "rewrite_of m pattern =
     \<lparr>dr_pattern = pattern,
      dr_answer = (case m pattern of None \<Rightarrow> override_default | Some answer \<Rightarrow> answer)\<rparr>"

definition compile_domain_rewrites ::
    "hash_orders \<Rightarrow> rewrite_config list \<Rightarrow> rule_error + domain_rewrite_rule list" where
  "compile_domain_rewrites orders rws =
     rbind (fold_results add_domain_rewrite rws ([], Map.empty)) (\<lambda>(keys, m).
       Inr (map (rewrite_of m) (rewrite_order orders keys)))"

definition add_answer_ip_rewrite ::
    "('rx, 'net) rule_libs \<Rightarrow> rewrite_config \<Rightarrow> 'net answer_ip_rewrite_rule list
     \<Rightarrow> rule_error + 'net answer_ip_rewrite_rule list" where
  "add_answer_ip_rewrite libs rewrite compiled =
     (if rw_ip rewrite = [] then Inr compiled
      else rbind (parse_override_answers (rw_answer rewrite)) (\<lambda>answer.
           rbind (collect_results
                    (\<lambda>net. map_err (InvalidRewriteNetwork net) (ipnet_parse libs net)) (rw_ip rewrite)) (\<lambda>nets.
             Inr (compiled @ [\<lparr>ar_nets = nets, ar_answer = answer\<rparr>]))))"

definition compile_answer_ip_rewrites ::
    "('rx, 'net) rule_libs \<Rightarrow> rewrite_config list \<Rightarrow> rule_error + 'net answer_ip_rewrite_rule list" where
  "compile_answer_ip_rewrites libs rws = fold_results (add_answer_ip_rewrite libs) rws []"

definition strip_domain_tag :: "string \<Rightarrow> string" where
  "strip_domain_tag item = (case strip_prefix ''domain:'' item of Some raw \<Rightarrow> raw | None \<Rightarrow> item)"

definition add_cname_rewrite ::
    "rewrite_config \<Rightarrow> cname_rewrite_rule list \<Rightarrow> rule_error + cname_rewrite_rule list" where
  "add_cname_rewrite rewrite compiled =
     (if rw_cname rewrite = [] then Inr compiled
      else rbind (parse_override_answers (rw_answer rewrite)) (\<lambda>answer.
           rbind (collect_results (\<lambda>item. parse_domain_pattern (strip_domain_tag item)) (rw_cname rewrite))
             (\<lambda>patterns. Inr (compiled @ [\<lparr>cr_patterns = patterns, cr_answer = answer\<rparr>]))))"

definition compile_cname_rewrites :: "rewrite_config list \<Rightarrow> rule_error + cname_rewrite_rule list" where
  "compile_cname_rewrites rws = fold_results add_cname_rewrite rws []"

section \<open>Building\<close>

definition finish_build ::
    "('rx, 'net) rule_libs \<Rightarrow> hash_orders \<Rightarrow> adblock_runtime_config \<Rightarrow> 'rx parse_state
     \<Rightarrow> rule_error + ('rx, 'net) compiled_rule_sets" where
  "finish_build libs orders config st =
     (case st of (rules, disabled_rules) \<Rightarrow>
        let rules = apply_badfilters (disabled_order orders disabled_rules) rules;
            filtering = ac_filtering config
        in rbind (compile_domain_rewrites orders (fg_rewrites filtering)) (\<lambda>domains.
           rbind (compile_answer_ip_rewrites libs (fg_rewrites filtering)) (\<lambda>ips.
           rbind (compile_cname_rewrites (fg_rewrites filtering)) (\<lambda>cnames.
             Inr \<lparr>overrides = overrides rules, ptr_overrides = ptr_overrides rules,
                  block_exact = block_exact rules, block_subdomains = block_subdomains rules,
                  allow_exact = allow_exact rules, allow_subdomains = allow_subdomains rules,
                  block_rules = block_rules rules, allow_rules = allow_rules rules,
                  domain_rewrites = domains, answer_ip_rewrites = ips, cname_rewrites = cnames,
                  blocking_mode = fg_blocking_mode filtering,
                  blocking_ipv4 = fg_blocking_ipv4 filtering,
                  blocking_ipv6 = fg_blocking_ipv6 filtering,
                  block_ttl = 60, lan_hosts = ac_lan_hosts config\<rparr>))))"

definition parse_user_rules ::
    "('rx, 'net) rule_libs \<Rightarrow> string list \<Rightarrow> 'rx parse_state \<Rightarrow> rule_error + 'rx parse_state" where
  "parse_user_rules libs lines st = fold_results (parse_rule_line libs UserRule) lines st"

fun load_filters ::
    "('rx, 'net) rule_libs \<Rightarrow> ('c, 'r) fetch_env \<Rightarrow> filter_fetch_options \<Rightarrow> filter_fetch_mode
     \<Rightarrow> filter_config list \<Rightarrow> disk \<Rightarrow> 'rx parse_state \<Rightarrow> (build_error + 'rx parse_state) \<times> disk" where
  "load_filters libs env options fetch_mode [] d st = (Inr st, d)"
| "load_filters libs env options fetch_mode (filt # filters) d st =
     (case fetch_filter env options fetch_mode filt d of
        (Inl err, d') \<Rightarrow>
          if fetch_mode = Refresh then (Inl (FetchError err), d')
          else load_filters libs env options fetch_mode filters d' st
      | (Inr contents, d') \<Rightarrow>
          (case parse_rule_lines libs RemoteFilter contents st of
             Inl e \<Rightarrow> (Inl (RuleError e), d')
           | Inr st' \<Rightarrow> load_filters libs env options fetch_mode filters d' st'))"

definition enabled_filters :: "adblock_runtime_config \<Rightarrow> filter_config list" where
  "enabled_filters config = filter fc_enabled (ac_filters config)"

definition build_with_fetch_mode ::
    "('rx, 'net) rule_libs \<Rightarrow> hash_orders \<Rightarrow> ('c, 'r) fetch_env \<Rightarrow> adblock_runtime_config
     \<Rightarrow> filter_fetch_mode \<Rightarrow> disk \<Rightarrow> (build_error + ('rx, 'net) compiled_rule_sets) \<times> disk" where
  "build_with_fetch_mode libs orders env config fetch_mode d =
     (let fetch_options = filter_fetch_options_new (ac_filter_cache_dir config)
      in case load_filters libs env fetch_options fetch_mode (enabled_filters config) d
                (rule_sets_default, {}) of
           (Inl e, d') \<Rightarrow> (Inl e, d')
         | (Inr st, d') \<Rightarrow>
             (map_err RuleError
                (rbind (parse_user_rules libs (ac_user_rules config) st) (finish_build libs orders config)), d'))"

definition build_without_remote_fetch ::
    "('rx, 'net) rule_libs \<Rightarrow> hash_orders \<Rightarrow> adblock_runtime_config
     \<Rightarrow> build_error + ('rx, 'net) compiled_rule_sets" where
  "build_without_remote_fetch libs orders config =
     map_err RuleError
       (rbind (parse_user_rules libs (ac_user_rules config) (rule_sets_default, {}))
          (finish_build libs orders config))"

text \<open>The public entry points.\<close>

definition compiled_build where
  "compiled_build libs orders env config d = build_with_fetch_mode libs orders env config CacheOnly d"

definition compiled_refresh where
  "compiled_refresh libs orders env config d = build_with_fetch_mode libs orders env config Refresh d"

definition compiled_validate where
  "compiled_validate libs orders config = build_without_remote_fetch libs orders config"

definition has_uncached_filters :: "('c, 'r) fetch_env \<Rightarrow> adblock_runtime_config \<Rightarrow> disk \<Rightarrow> bool" where
  "has_uncached_filters env config d =
     (let options = filter_fetch_options_new (ac_filter_cache_dir config)
      in list_ex (\<lambda>filt. fc_enabled filt \<and> \<not> is_cached env options d filt) (ac_filters config))"

section \<open>Rewrites: what they compile to\<close>

lemma parse_override_answers_fold:
  assumes "fold_results parse_override_answer vs rule = Inr rule'"
  shows "answer_ips rule' = answer_ips rule \<union> {ip. \<exists>v\<in>set vs. parse_ip_addr v = Some ip}
       \<and> (answer_distinct rule' \<longleftrightarrow> answer_distinct rule)
       \<and> (\<forall>v\<in>set vs. parse_ip_addr v \<noteq> None)"
  using assms
proof (induction vs arbitrary: rule)
  case (Cons v vs)
  show ?case
  proof (cases "parse_ip_addr v")
    case None
    then show ?thesis using Cons.prems by (simp add: parse_override_answer_def)
  next
    case (Some ip)
    then have "parse_override_answer v rule = Inr (add_ip ip rule)"
      by (simp add: parse_override_answer_def)
    then show ?thesis using Cons.IH [of "add_ip ip rule"] Cons.prems Some by auto
  qed
qed simp

lemma parse_override_answers_ips:
  assumes "parse_override_answers answer = Inr rule"
  shows "answer_ips rule = {ip. \<exists>v\<in>set (answer_values answer). parse_ip_addr v = Some ip}"
    and "answer_distinct rule"
  using parse_override_answers_fold [OF assms [unfolded parse_override_answers_def]] by simp_all

text \<open>The addresses the configuration gives a pattern, over all its rewrites.\<close>

definition rewrite_ips :: "rewrite_config list \<Rightarrow> domain_pattern \<Rightarrow> ip_addr set" where
  "rewrite_ips rws p =
     {ip. \<exists>rw\<in>set rws. \<exists>d. rw_domain rw = Some d \<and> parse_domain_pattern d = Inr p
        \<and> (\<exists>v\<in>set (answer_values (rw_answer rw)). parse_ip_addr v = Some ip)}"

definition rewrite_patterns :: "rewrite_config list \<Rightarrow> domain_pattern set" where
  "rewrite_patterns rws = {p. \<exists>rw\<in>set rws. \<exists>d. rw_domain rw = Some d \<and> parse_domain_pattern d = Inr p}"

definition entry_ips :: "(domain_pattern \<Rightarrow> override_rule option) \<Rightarrow> domain_pattern \<Rightarrow> ip_addr set" where
  "entry_ips m p = (case m p of None \<Rightarrow> {} | Some r \<Rightarrow> answer_ips r)"

lemma rewrite_ips_skip:
  assumes "rw_domain rw = None"
  shows "rewrite_ips (rw # rws) p = rewrite_ips rws p"
    and "rewrite_patterns (rw # rws) = rewrite_patterns rws"
    and "add_domain_rewrite rw st = Inr st"
  using assms by (simp_all add: rewrite_ips_def rewrite_patterns_def add_domain_rewrite_def)

lemma add_domain_rewrite_Inr:
  assumes "rw_domain rw = Some d" and "add_domain_rewrite rw (keys, m) = Inr st"
  obtains a p where "parse_override_answers (rw_answer rw) = Inr a" and "parse_domain_pattern d = Inr p"
    and "st = (push_new p keys, entry_update override_default p (\<lambda>entry. merge_override_rule entry a) m)"
  using assms by (auto simp: add_domain_rewrite_def rbind_Inr_iff)

lemma add_domain_rewrite_fold:
  assumes "fold_results add_domain_rewrite rws (keys, m) = Inr (keys', m')"
    and "distinct keys" and "set keys = dom m" and "\<forall>r\<in>ran m. answer_distinct r"
  shows "distinct keys' \<and> set keys' = dom m' \<and> (\<forall>r\<in>ran m'. answer_distinct r)
       \<and> set keys' = set keys \<union> rewrite_patterns rws
       \<and> (\<forall>p. entry_ips m' p = entry_ips m p \<union> rewrite_ips rws p)"
  using assms
proof (induction rws arbitrary: keys m)
  case Nil
  then show ?case by (simp add: rewrite_patterns_def rewrite_ips_def)
next
  case (Cons rw rws)
  show ?case
  proof (cases "rw_domain rw")
    case None
    then have "fold_results add_domain_rewrite rws (keys, m) = Inr (keys', m')"
      using Cons.prems(1) by (simp add: rewrite_ips_skip)
    from Cons.IH [OF this Cons.prems(2-4)] show ?thesis
      unfolding rewrite_ips_skip [OF None] .
  next
    case (Some d)
    obtain a p where a: "parse_override_answers (rw_answer rw) = Inr a"
      and p: "parse_domain_pattern d = Inr p"
      and rest: "fold_results add_domain_rewrite rws
        (push_new p keys, entry_update override_default p (\<lambda>entry. merge_override_rule entry a) m)
        = Inr (keys', m')"
      using Cons.prems(1) add_domain_rewrite_Inr [OF Some]
      by (cases "add_domain_rewrite rw (keys, m)") (auto, metis)
    let ?m = "entry_update override_default p (\<lambda>entry. merge_override_rule entry a) m"
    have d1: "distinct (push_new p keys)" "set (push_new p keys) = dom ?m"
      using Cons.prems by simp_all
    have d2: "\<forall>r\<in>ran ?m. answer_distinct r"
      using Cons.prems(4) by (auto simp: entry_update_def ran_def split: option.splits if_splits)
    have e: "entry_ips ?m q = entry_ips m q \<union> (if q = p then answer_ips a else {})" for q
      by (auto simp: entry_ips_def entry_update_def split: option.splits)
    have r: "rewrite_ips (rw # rws) q = (if q = p then answer_ips a else {}) \<union> rewrite_ips rws q" for q
      using parse_override_answers_ips(1) [OF a] p Some by (auto simp: rewrite_ips_def)
    have k: "rewrite_patterns (rw # rws) = insert p (rewrite_patterns rws)"
      using p Some by (auto simp: rewrite_patterns_def)
    show ?thesis using Cons.IH [OF rest d1 d2] by (auto simp: e r k)
  qed
qed

lemma compile_domain_rewrites_spec:
  assumes "compile_domain_rewrites orders rws = Inr compiled" and "hash_orders_ok orders"
  shows "distinct (map dr_pattern compiled)"
    and "set (map dr_pattern compiled) = rewrite_patterns rws"
    and "r \<in> set compiled \<Longrightarrow> answer_distinct (dr_answer r)"
    and "r \<in> set compiled \<Longrightarrow> answer_ips (dr_answer r) = rewrite_ips rws (dr_pattern r)"
proof -
  obtain keys m where fold: "fold_results add_domain_rewrite rws ([], Map.empty) = Inr (keys, m)"
    and compiled: "compiled = map (rewrite_of m) (rewrite_order orders keys)"
    using assms(1) by (auto simp: compile_domain_rewrites_def rbind_Inr_iff)
  have perm: "mset (rewrite_order orders keys) = mset keys"
    using assms(2) by (simp add: hash_orders_ok_def)
  note inv = add_domain_rewrite_fold [OF fold, simplified]
  have patterns: "map dr_pattern compiled = rewrite_order orders keys"
    by (simp add: compiled rewrite_of_def comp_def)
  show "distinct (map dr_pattern compiled)"
    using inv perm unfolding patterns by (metis mset_eq_imp_distinct_iff)
  show "set (map dr_pattern compiled) = rewrite_patterns rws"
    using inv perm unfolding patterns by (metis mset_eq_setD)
  show "answer_distinct (dr_answer r)" if r: "r \<in> set compiled"
  proof -
    obtain p where "r = rewrite_of m p" using r by (auto simp: compiled)
    moreover have "answer_distinct a" if "m p = Some a" for a using inv that by (auto intro: ranI)
    ultimately show ?thesis by (cases "m p") (simp_all add: rewrite_of_def)
  qed
  show "answer_ips (dr_answer r) = rewrite_ips rws (dr_pattern r)" if r: "r \<in> set compiled"
  proof -
    obtain p where p: "r = rewrite_of m p" using r by (auto simp: compiled)
    have "entry_ips m p = rewrite_ips rws p" using inv by (simp add: entry_ips_def)
    then show ?thesis by (cases "m p") (simp_all add: p rewrite_of_def entry_ips_def)
  qed
qed

section \<open>Building: the cache and the user's rules\<close>

lemma load_filters_cache_only_disk:
  "snd (load_filters libs env options CacheOnly filters d st) = d"
proof (induction filters arbitrary: st)
  case (Cons f fs)
  have "snd (fetch_filter env options CacheOnly f d) = d" by (rule store.cache_only_reads)
  then show ?case using Cons.IH
    by (cases "fetch_filter env options CacheOnly f d") (simp split: sum.split)
qed simp

text \<open>A refresh that succeeds has read the lists it fetched.\<close>

lemma load_filters_refresh_Inr:
  assumes "load_filters libs env options Refresh filters d st = (Inr st', d')"
  obtains cs where "fetch_each (fetch_filter env options Refresh) filters d = (Inr cs, d')"
    and "fold_results (parse_rule_lines libs RemoteFilter) cs st = Inr st'"
proof -
  have "\<exists>cs. fetch_each (fetch_filter env options Refresh) filters d = (Inr cs, d')
      \<and> fold_results (parse_rule_lines libs RemoteFilter) cs st = Inr st'"
    using assms
  proof (induction filters arbitrary: d st)
    case Nil
    then show ?case by (auto intro: exI [of _ "[]"])
  next
    case (Cons f fs)
    obtain c d1 st1 where f: "fetch_filter env options Refresh f d = (Inr c, d1)"
      and p: "parse_rule_lines libs RemoteFilter c st = Inr st1"
      and rest: "load_filters libs env options Refresh fs d1 st1 = (Inr st', d')"
      using Cons.prems by (auto split: prod.splits sum.splits)
    from Cons.IH [OF rest] obtain cs where
      "fetch_each (fetch_filter env options Refresh) fs d1 = (Inr cs, d')"
      "fold_results (parse_rule_lines libs RemoteFilter) cs st1 = Inr st'" by blast
    with f p show ?case by (intro exI [of _ "c # cs"]) simp
  qed
  then show thesis using that by blast
qed

lemma load_filters_cached:
  assumes "list_all2 (\<lambda>f c. fetch_filter env options CacheOnly f d = (Inr c, d)) filters cs"
    and "fold_results (parse_rule_lines libs RemoteFilter) cs st = Inr st'"
  shows "load_filters libs env options CacheOnly filters d st = (Inr st', d)"
  using assms by (induction filters cs arbitrary: st rule: list_all2_induct) (auto split: sum.splits)

lemma load_filters_restart:
  assumes "load_filters libs env options Refresh filters d st = (Inr st', d')"
    and "distinct (map (cache_path_for env options) filters)"
  shows "load_filters libs env options CacheOnly filters d' st = (Inr st', d')"
proof -
  obtain cs where all: "fetch_each (fetch_filter env options Refresh) filters d = (Inr cs, d')"
    and parsed: "fold_results (parse_rule_lines libs RemoteFilter) cs st = Inr st'"
    using load_filters_refresh_Inr [OF assms(1)] .
  show ?thesis
    by (rule load_filters_cached [OF store.refresh_all_cached [OF all assms(2)] parsed])
qed

lemma build_without_filters:
  assumes "enabled_filters config = []"
  shows "build_with_fetch_mode libs orders env config mode d =
         (build_without_remote_fetch libs orders config, d)"
  using assms by (simp add: build_with_fetch_mode_def build_without_remote_fetch_def)

text \<open>Nothing cached and nothing downloaded: at startup only the user's rules are compiled.\<close>

lemma load_filters_uncached:
  assumes "\<forall>f\<in>set filters. \<not> is_cached env options d f"
  shows "load_filters libs env options CacheOnly filters d st = (Inr st, d)"
  using assms
proof (induction filters)
  case (Cons f fs)
  then have "\<not> is_ok (fst (fetch_filter env options CacheOnly f d))"
    by (simp add: store.cache_only_ok_iff)
  moreover have "snd (fetch_filter env options CacheOnly f d) = d" by (rule store.cache_only_reads)
  ultimately show ?case using Cons
    by (cases "fetch_filter env options CacheOnly f d") (auto simp: is_ok_def split: sum.splits)
qed simp

end
