(* ===== verification/Dns_Types.thy ===== *)
theory Dns_Types
  imports Rule_Types
begin

text \<open>
  The vocabulary of the DNS server library as the program uses it: names, record data, record
  sets, lookups, response codes, and the result of a zone handler. The library is third-party:
  its name type and the conversions between names and text are parameters (\<open>name_libs\<close>), a
  lookup that another handler produced is a value of the parameter \<open>'l\<close>, and the records it
  iterates over are given by \<open>lookup_iter\<close>. A record set the program builds is the sequence of
  its \<^verbatim>\<open>add_rdata\<close> calls.
\<close>

datatype response_code = RC_NoError | RC_NXDomain | RC_ServFail | RC_Other "16 word"

datatype 'e lookup_error =
    LE_NameExists
  | LE_ResponseCode response_code
  | LE_NoRecordsFound response_code 'e
  | LE_Io string
  | LE_Other 'e

datatype 'n rdata = RD_A ipv4 | RD_AAAA ipv6 | RD_CNAME 'n | RD_PTR 'n | RD_Other string

record 'n dns_record =
  rec_name :: 'n
  rec_ttl :: "32 word"
  rec_data :: "'n rdata"

record 'n record_set =
  rs_name :: 'n
  rs_type :: record_type
  rs_ttl :: "32 word"
  rs_rdatas :: "'n rdata list"

datatype ('n, 'o, 'l) auth_lookup =
    LookupEmpty
  | LookupMany 'o "'n record_set list"
  | LookupFrom 'l

datatype ('e, 'a) control_flow =
    Break "'e lookup_error + 'a"
  | Continue "'e lookup_error + 'a"
  | Skip

type_synonym ('n, 'o, 'l, 'e) lookup_result = "('e, ('n, 'o, 'l) auth_lookup) control_flow"

text \<open>\<open>'m\<close> is the case-folded name type, \<^verbatim>\<open>LowerName\<close>.\<close>

record ('n, 'm) name_libs =
  name_from_ascii :: "string \<Rightarrow> string + 'n"
  name_set_fqdn :: "'n \<Rightarrow> 'n"
  name_to_ascii :: "'n \<Rightarrow> string"
  lower_of_name :: "'n \<Rightarrow> 'm"
  name_of_lower :: "'m \<Rightarrow> 'n"

text \<open>\<^verbatim>\<open>Name::from_ascii\<close> followed by \<^verbatim>\<open>set_fqdn(true)\<close>\<close>

definition fqdn_of :: "('n, 'm) name_libs \<Rightarrow> string \<Rightarrow> string + 'n" where
  "fqdn_of names s = rbind (name_from_ascii names s) (\<lambda>n. Inr (name_set_fqdn names n))"

definition normalized_query_name :: "('n, 'm) name_libs \<Rightarrow> 'm \<Rightarrow> string" where
  "normalized_query_name names name =
     to_ascii_lowercase (trim_end_matches CHR ''.'' (name_to_ascii names (name_of_lower names name)))"

text \<open>\<^verbatim>\<open>search\<close> of every zone handler of the program: a malformed request is an answer, any other
  goes to \<^verbatim>\<open>lookup\<close>.\<close>

definition zone_search ::
    "('m \<Rightarrow> record_type \<Rightarrow> 'o \<Rightarrow> ('e, 'a) control_flow) \<Rightarrow> 'e lookup_error + ('m \<times> record_type) \<Rightarrow> 'o
     \<Rightarrow> ('e, 'a) control_flow" where
  "zone_search lookup request_info options =
     (case request_info of
        Inl err \<Rightarrow> Break (Inl err)
      | Inr (name, rtype) \<Rightarrow> lookup name rtype options)"

definition nsec_unimplemented :: "string \<Rightarrow> ('e, 'a) control_flow" where
  "nsec_unimplemented what =
     Continue (Inl (LE_Io (''Getting NSEC records is unimplemented for '' @ what)))"

text \<open>A record set that answers a question: owned by the name asked for, of the type asked for,
  and holding data of that type.\<close>

fun rdata_type :: "'n rdata \<Rightarrow> record_type \<Rightarrow> bool" where
  "rdata_type (RD_A _) t = (t = RT_A)"
| "rdata_type (RD_AAAA _) t = (t = RT_AAAA)"
| "rdata_type (RD_CNAME _) t = (t = RT_CNAME)"
| "rdata_type (RD_PTR _) t = (t = RT_PTR)"
| "rdata_type (RD_Other _) t = False"

definition set_answers :: "'n \<Rightarrow> record_type \<Rightarrow> 'n record_set \<Rightarrow> bool" where
  "set_answers owner rtype rs \<longleftrightarrow>
     rs_name rs = owner \<and> (rtype = RT_ANY \<or> rs_type rs = rtype)
     \<and> (\<forall>d\<in>set (rs_rdatas rs). rdata_type d (rs_type rs))"

fun lookup_answers :: "'n \<Rightarrow> record_type \<Rightarrow> ('n, 'o, 'l) auth_lookup \<Rightarrow> bool" where
  "lookup_answers owner rtype LookupEmpty = True"
| "lookup_answers owner rtype (LookupMany _ sets) = list_all (set_answers owner rtype) sets"
| "lookup_answers owner rtype (LookupFrom _) = False"

text \<open>The addresses of a locally built lookup.\<close>

fun rdata_ips :: "'n rdata \<Rightarrow> ip_addr set" where
  "rdata_ips (RD_A a) = {V4 a}"
| "rdata_ips (RD_AAAA a) = {V6 a}"
| "rdata_ips _ = {}"

fun lookup_ips :: "('n, 'o, 'l) auth_lookup \<Rightarrow> ip_addr set" where
  "lookup_ips (LookupMany _ sets) = (\<Union>s\<in>set sets. \<Union>d\<in>set (rs_rdatas s). rdata_ips d)"
| "lookup_ips _ = {}"

text \<open>The family a question asks for.\<close>

definition wants :: "record_type \<Rightarrow> ip_addr \<Rightarrow> bool" where
  "wants rtype ip \<longleftrightarrow> rtype = RT_ANY \<or> rtype = (case ip of V4 _ \<Rightarrow> RT_A | V6 _ \<Rightarrow> RT_AAAA)"

end
