(* ===== verification/Authorities.thy ===== *)
theory Authorities
  imports Rule_Build Dns_Types
begin

text \<open>
  The zone handlers that answer before the forwarder does (src/adblock/authority.rs,
  src/adblock/mod.rs): overrides and local hosts, rewrites, blocking. Each is a record of its
  fields with its \<^verbatim>\<open>lookup\<close>; \<open>build_authorities\<close> puts them in front of the forwarder.
\<close>

section \<open>Record sets\<close>

definition override_lookup_records ::
    "('n, 'm) name_libs \<Rightarrow> 'm \<Rightarrow> override_rule \<Rightarrow> record_type \<Rightarrow> 'o \<Rightarrow> ('n, 'o, 'l) auth_lookup" where
  "override_lookup_records names name rule rtype options =
     (let fqdn_name = name_of_lower names name;
          v4 = (if (rtype = RT_A \<or> rtype = RT_ANY) \<and> or_ipv4 rule \<noteq> []
                then [\<lparr>rs_name = fqdn_name, rs_type = RT_A, rs_ttl = 60,
                       rs_rdatas = map RD_A (or_ipv4 rule)\<rparr>] else []);
          v6 = (if (rtype = RT_AAAA \<or> rtype = RT_ANY) \<and> or_ipv6 rule \<noteq> []
                then [\<lparr>rs_name = fqdn_name, rs_type = RT_AAAA, rs_ttl = 60,
                       rs_rdatas = map RD_AAAA (or_ipv6 rule)\<rparr>] else []);
          record_sets = v4 @ v6
      in if record_sets = [] then LookupEmpty else LookupMany options record_sets)"

definition ptr_lookup_records ::
    "('n, 'm) name_libs \<Rightarrow> 'm \<Rightarrow> 'n list \<Rightarrow> record_type \<Rightarrow> 'o \<Rightarrow> ('n, 'o, 'l) auth_lookup" where
  "ptr_lookup_records names name targets rtype options =
     (if \<not> (rtype = RT_PTR \<or> rtype = RT_ANY) then LookupEmpty
      else LookupMany options
             [\<lparr>rs_name = name_of_lower names name, rs_type = RT_PTR, rs_ttl = 60,
               rs_rdatas = map RD_PTR targets\<rparr>])"

definition block_lookup_records ::
    "('n, 'm) name_libs \<Rightarrow> 'm \<Rightarrow> record_type \<Rightarrow> 'o \<Rightarrow> ipv4 \<Rightarrow> ipv6 \<Rightarrow> 32 word
     \<Rightarrow> ('n, 'o, 'l) auth_lookup" where
  "block_lookup_records names name rtype options v4 v6 ttl =
     (let fqdn_name = name_of_lower names name;
          a = (if rtype = RT_A \<or> rtype = RT_ANY
               then [\<lparr>rs_name = fqdn_name, rs_type = RT_A, rs_ttl = ttl, rs_rdatas = [RD_A v4]\<rparr>] else []);
          aaaa = (if rtype = RT_AAAA \<or> rtype = RT_ANY
               then [\<lparr>rs_name = fqdn_name, rs_type = RT_AAAA, rs_ttl = ttl, rs_rdatas = [RD_AAAA v6]\<rparr>]
               else []);
          record_sets = a @ aaaa
      in if record_sets = [] then LookupEmpty else LookupMany options record_sets)"

section \<open>Overrides and local hosts\<close>

text \<open>\<open>oa_lan_hosts\<close> is the content of the shared cache of local hosts at the moment of the
  lookup, \<open>oa_lan_config\<close> what its refresh task works with.\<close>

record ('n, 'm) override_authority =
  oa_origin :: 'm
  oa_overrides :: "'m \<Rightarrow> override_rule option"
  oa_ptr_overrides :: "'m \<Rightarrow> 'n list option"
  oa_lan_hosts :: "lan_host_overrides option"
  oa_lan_config :: lan_hosts_config

datatype authority_error =
    InvalidOverrideDomain string string
  | InvalidPtrOverrideName string string
  | InvalidPtrOverrideTarget string string

definition lan_source_new :: "(string \<Rightarrow> io_error + string) \<Rightarrow> lan_hosts_config \<Rightarrow> lan_host_overrides option" where
  "lan_source_new read_to_string config =
     (if \<not> lh_enabled config then None else Some (load_lan_host_overrides read_to_string config))"

text \<open>\<^verbatim>\<open>refresh_lan_host_cache_loop\<close>, tick by tick: whether the handler still exists when the
  interval has passed, and what the file system answers then.\<close>

fun refresh_lan_host_cache_loop ::
    "lan_hosts_config \<Rightarrow> (bool \<times> (string \<Rightarrow> io_error + string)) list \<Rightarrow> lan_host_overrides
     \<Rightarrow> lan_host_overrides" where
  "refresh_lan_host_cache_loop config [] cache = cache"
| "refresh_lan_host_cache_loop config ((alive, read_to_string) # ticks) cache =
     (if \<not> alive then cache
      else refresh_lan_host_cache_loop config ticks (load_lan_host_overrides read_to_string config))"

text \<open>The loop is started only inside the asynchronous runtime and with a refresh interval;
  \<open>lan_source_after\<close> is the shared cache as the handler sees it after some ticks.\<close>

definition spawn_lan_host_refresh ::
    "bool \<Rightarrow> lan_hosts_config \<Rightarrow> (bool \<times> (string \<Rightarrow> io_error + string)) list \<Rightarrow> lan_host_overrides
     \<Rightarrow> lan_host_overrides" where
  "spawn_lan_host_refresh in_runtime config ticks cache =
     (if in_runtime then refresh_lan_host_cache_loop config ticks cache else cache)"

definition lan_source_after ::
    "bool \<Rightarrow> (string \<Rightarrow> io_error + string) \<Rightarrow> (bool \<times> (string \<Rightarrow> io_error + string)) list
     \<Rightarrow> lan_hosts_config \<Rightarrow> lan_host_overrides option" where
  "lan_source_after in_runtime read_to_string ticks config =
     map_option
       (\<lambda>cache. if 0 < lh_refresh_interval_secs config
                then spawn_lan_host_refresh in_runtime config ticks cache else cache)
       (lan_source_new read_to_string config)"

definition insert_override ::
    "('n, 'm) name_libs \<Rightarrow> string \<times> override_rule \<Rightarrow> ('m \<Rightarrow> override_rule option)
     \<Rightarrow> authority_error + ('m \<Rightarrow> override_rule option)" where
  "insert_override names entry m =
     rbind (map_err (InvalidOverrideDomain (fst entry)) (fqdn_of names (fst entry))) (\<lambda>name.
       Inr (m(lower_of_name names name \<mapsto> snd entry)))"

definition insert_ptr_override ::
    "('n, 'm) name_libs \<Rightarrow> string \<times> string list \<Rightarrow> ('m \<Rightarrow> 'n list option)
     \<Rightarrow> authority_error + ('m \<Rightarrow> 'n list option)" where
  "insert_ptr_override names entry m =
     rbind (map_err (InvalidPtrOverrideName (fst entry)) (fqdn_of names (fst entry))) (\<lambda>name.
     rbind (collect_results (\<lambda>target. map_err (InvalidPtrOverrideTarget target) (fqdn_of names target))
              (snd entry)) (\<lambda>targets.
       Inr (m(lower_of_name names name \<mapsto> targets))))"

text \<open>The lists are the entries of the two hash maps in the order of their iteration.\<close>

definition override_authority_new ::
    "('n, 'm) name_libs \<Rightarrow> (string \<Rightarrow> io_error + string) \<Rightarrow> 'n \<Rightarrow> (string \<times> override_rule) list
     \<Rightarrow> (string \<times> string list) list \<Rightarrow> lan_hosts_config
     \<Rightarrow> authority_error + ('n, 'm) override_authority" where
  "override_authority_new names read_to_string origin entries ptrs lan_config =
     rbind (fold_results (insert_override names) entries Map.empty) (\<lambda>normalized.
     rbind (fold_results (insert_ptr_override names) ptrs Map.empty) (\<lambda>normalized_ptr.
       Inr \<lparr>oa_origin = lower_of_name names origin, oa_overrides = normalized,
            oa_ptr_overrides = normalized_ptr,
            oa_lan_hosts = lan_source_new read_to_string lan_config, oa_lan_config = lan_config\<rparr>))"

text \<open>One tick of the refresh task of a handler. The cache is shared between the task and the handler;
  \<open>oa_lan_hosts\<close> is what it holds at one time.\<close>

definition refreshed_override ::
    "(string \<Rightarrow> io_error + string) \<Rightarrow> ('n, 'm) override_authority \<Rightarrow> ('n, 'm) override_authority" where
  "refreshed_override read_to_string self =
     self\<lparr>oa_lan_hosts := map_option
       (\<lambda>cache. if 0 < lh_refresh_interval_secs (oa_lan_config self)
                then spawn_lan_host_refresh True (oa_lan_config self) [(True, read_to_string)] cache else cache)
       (oa_lan_hosts self)\<rparr>"

definition lan_override_of :: "lan_host_overrides option \<Rightarrow> string \<Rightarrow> override_rule option" where
  "lan_override_of lan domain = Option.bind lan (\<lambda>cache. lo_overrides cache domain)"

text \<open>Targets that are no domain names are left out.\<close>

definition lan_ptr_targets_of ::
    "('n, 'm) name_libs \<Rightarrow> lan_host_overrides option \<Rightarrow> string \<Rightarrow> 'n list option" where
  "lan_ptr_targets_of names lan domain =
     Option.bind lan (\<lambda>cache.
       map_option (List.map_filter (\<lambda>target. case fqdn_of names target of Inl _ \<Rightarrow> None | Inr n \<Rightarrow> Some n))
         (lo_ptr_overrides cache domain))"

definition override_lookup ::
    "('n, 'm) name_libs \<Rightarrow> ('n, 'm) override_authority \<Rightarrow> 'm \<Rightarrow> record_type \<Rightarrow> 'o
     \<Rightarrow> ('n, 'o, 'l, 'e) lookup_result" where
  "override_lookup names self name rtype options =
     (case oa_overrides self name of
        Some rule \<Rightarrow> Break (Inr (override_lookup_records names name rule rtype options))
      | None \<Rightarrow>
          let domain = normalized_query_name names name
          in (case lan_override_of (oa_lan_hosts self) domain of
                Some rule \<Rightarrow> Break (Inr (override_lookup_records names name rule rtype options))
              | None \<Rightarrow>
                  (case oa_ptr_overrides self name of
                     Some targets \<Rightarrow> Break (Inr (ptr_lookup_records names name targets rtype options))
                   | None \<Rightarrow>
                       (case lan_ptr_targets_of names (oa_lan_hosts self) domain of
                          Some targets \<Rightarrow> Break (Inr (ptr_lookup_records names name targets rtype options))
                        | None \<Rightarrow> Skip))))"

section \<open>Rewrites\<close>

record ('m, 'net) rewrite_authority =
  ra_origin :: 'm
  ra_domain_rewrites :: "domain_rewrite_rule list"
  ra_answer_ip_rewrites :: "'net answer_ip_rewrite_rule list"
  ra_cname_rewrites :: "cname_rewrite_rule list"

definition rewrite_lookup ::
    "('n, 'm) name_libs \<Rightarrow> ('m, 'net) rewrite_authority \<Rightarrow> 'm \<Rightarrow> record_type \<Rightarrow> 'o
     \<Rightarrow> ('n, 'o, 'l, 'e) lookup_result" where
  "rewrite_lookup names self name rtype options =
     (let domain = normalized_query_name names name
      in case find (\<lambda>rule. domain_pattern_matches (dr_pattern rule) domain) (ra_domain_rewrites self) of
           None \<Rightarrow> Skip
         | Some rule \<Rightarrow> Break (Inr (override_lookup_records names name (dr_answer rule) rtype options)))"

fun record_ip :: "'n dns_record \<Rightarrow> ip_addr option" where
  "record_ip r = (case rec_data r of RD_A a \<Rightarrow> Some (V4 a) | RD_AAAA a \<Rightarrow> Some (V6 a) | _ \<Rightarrow> None)"

fun record_cname :: "('n, 'm) name_libs \<Rightarrow> 'n dns_record \<Rightarrow> string option" where
  "record_cname names r =
     (case rec_data r of
        RD_CNAME target \<Rightarrow>
          Some (to_ascii_lowercase (trim_end_matches CHR ''.'' (name_to_ascii names target)))
      | _ \<Rightarrow> None)"

definition ip_rewrite_applies ::
    "('rx, 'net) rule_libs \<Rightarrow> 'n dns_record list \<Rightarrow> 'net answer_ip_rewrite_rule \<Rightarrow> bool" where
  "ip_rewrite_applies libs records rule =
     list_ex (\<lambda>r. case record_ip r of
                    None \<Rightarrow> False
                  | Some ip \<Rightarrow> list_ex (\<lambda>net. ipnet_contains libs net ip) (ar_nets rule)) records"

definition cname_rewrite_applies ::
    "('n, 'm) name_libs \<Rightarrow> 'n dns_record list \<Rightarrow> cname_rewrite_rule \<Rightarrow> bool" where
  "cname_rewrite_applies names records rule =
     list_ex (\<lambda>r. case record_cname names r of
                    None \<Rightarrow> False
                  | Some target \<Rightarrow> list_ex (\<lambda>p. domain_pattern_matches p target) (cr_patterns rule)) records"

definition rewrite_consult ::
    "('rx, 'net) rule_libs \<Rightarrow> ('n, 'm) name_libs \<Rightarrow> (('n, 'o, 'l) auth_lookup \<Rightarrow> 'n dns_record list)
     \<Rightarrow> ('m, 'net) rewrite_authority \<Rightarrow> 'm \<Rightarrow> record_type \<Rightarrow> 'o
     \<Rightarrow> ('n, 'o, 'l, 'e) lookup_result \<Rightarrow> ('n, 'o, 'l, 'e) lookup_result" where
  "rewrite_consult libs names lookup_iter self name rtype options last_result =
     (let rewritten = (\<lambda>lookup.
            let records = lookup_iter lookup
            in case find (ip_rewrite_applies libs records) (ra_answer_ip_rewrites self) of
                 Some rule \<Rightarrow> Break (Inr (override_lookup_records names name (ar_answer rule) rtype options))
               | None \<Rightarrow>
                   (case find (cname_rewrite_applies names records) (ra_cname_rewrites self) of
                      Some rule \<Rightarrow>
                        Break (Inr (override_lookup_records names name (cr_answer rule) rtype options))
                    | None \<Rightarrow> Continue (Inr lookup)))
      in case last_result of
           Break (Inr lookup) \<Rightarrow> rewritten lookup
         | Continue (Inr lookup) \<Rightarrow> rewritten lookup
         | Break (Inl err) \<Rightarrow> Break (Inl err)
         | Continue (Inl err) \<Rightarrow> Continue (Inl err)
         | Skip \<Rightarrow> Skip)"

section \<open>Blocking\<close>

record ('m, 'rx) block_authority =
  ba_origin :: 'm
  ba_block_exact :: "string set"
  ba_block_subdomains :: "string set"
  ba_allow_exact :: "string set"
  ba_allow_subdomains :: "string set"
  ba_block_rules :: "'rx compiled_match_rule list"
  ba_allow_rules :: "'rx compiled_match_rule list"
  ba_blocking_mode :: blocking_mode
  ba_blocking_ipv4 :: ipv4
  ba_blocking_ipv6 :: ipv6
  ba_ttl :: "32 word"

fun rule_allows_type :: "'rx compiled_match_rule \<Rightarrow> record_type \<Rightarrow> bool" where
  "rule_allows_type rule rtype =
     (case dnstypes rule of
        None \<Rightarrow> True
      | Some (Include types) \<Rightarrow> rtype \<in> types
      | Some (Exclude types) \<Rightarrow> rtype \<notin> types)"

definition complex_rule_matches ::
    "('rx, 'net) rule_libs \<Rightarrow> 'rx compiled_match_rule \<Rightarrow> string \<Rightarrow> record_type \<Rightarrow> bool" where
  "complex_rule_matches libs rule domain rtype =
     (if \<not> rule_allows_type rule rtype then False
      else if list_ex (\<lambda>p. domain_pattern_matches p domain) (denyallow rule) then False
      else (case matcher rule of Regex rx \<Rightarrow> regex_is_match libs rx domain))"

text \<open>\<^verbatim>\<open>matches_rule_list\<close> has the body of \<open>complex_rule_matches\<close> inlined.\<close>

definition matches_rule_list ::
    "('rx, 'net) rule_libs \<Rightarrow> 'rx compiled_match_rule list \<Rightarrow> string \<Rightarrow> record_type \<Rightarrow> bool" where
  "matches_rule_list libs rules domain rtype =
     list_ex (\<lambda>rule.
       if \<not> rule_allows_type rule rtype then False
       else if list_ex (\<lambda>p. domain_pattern_matches p domain) (denyallow rule) then False
       else (case matcher rule of Regex rx \<Rightarrow> regex_is_match libs rx domain)) rules"

definition matches_allowlist where
  "matches_allowlist self domain =
     domain_set_matches (ba_allow_exact self) (ba_allow_subdomains self) domain"

definition matches_blocklist where
  "matches_blocklist self domain =
     domain_set_matches (ba_block_exact self) (ba_block_subdomains self) domain"

definition matches_allowlist_important where
  "matches_allowlist_important libs self domain rtype =
     list_ex (\<lambda>rule. complex_rule_matches libs rule domain rtype) (filter important (ba_allow_rules self))"

definition matches_blocklist_important where
  "matches_blocklist_important libs self domain rtype =
     list_ex (\<lambda>rule. complex_rule_matches libs rule domain rtype) (filter important (ba_block_rules self))"

definition block_response ::
    "('n, 'm) name_libs \<Rightarrow> ('m, 'rx) block_authority \<Rightarrow> 'm \<Rightarrow> record_type \<Rightarrow> 'o
     \<Rightarrow> ('n, 'o, 'l, 'e) lookup_result" where
  "block_response names self name rtype options =
     (case ba_blocking_mode self of
        BM_Default \<Rightarrow>
          Break (Inr (block_lookup_records names name rtype options (ba_blocking_ipv4 self)
                        (ba_blocking_ipv6 self) (ba_ttl self)))
      | BM_Nxdomain \<Rightarrow> Break (Inl (LE_ResponseCode RC_NXDomain)))"

definition block_lookup ::
    "('rx, 'net) rule_libs \<Rightarrow> ('n, 'm) name_libs \<Rightarrow> ('m, 'rx) block_authority \<Rightarrow> 'm \<Rightarrow> record_type \<Rightarrow> 'o
     \<Rightarrow> ('n, 'o, 'l, 'e) lookup_result" where
  "block_lookup libs names self name rtype options =
     (let domain = normalized_query_name names name
      in if matches_allowlist_important libs self domain rtype then Skip
         else if matches_blocklist_important libs self domain rtype
         then block_response names self name rtype options
         else let allowed_normal = (matches_allowlist self domain
                                    \<or> matches_rule_list libs (ba_allow_rules self) domain rtype);
                  blocked_normal = (matches_blocklist self domain
                                    \<or> matches_rule_list libs (ba_block_rules self) domain rtype)
              in if allowed_normal \<or> \<not> blocked_normal then Skip
                 else block_response names self name rtype options)"

section \<open>Searches\<close>

text \<open>The \<^verbatim>\<open>search\<close> and \<^verbatim>\<open>nsec_records\<close> of the three handlers. A request that cannot be read is
  answered with its error before the handler looks at anything.\<close>

definition override_search ::
    "('n, 'm) name_libs \<Rightarrow> ('n, 'm) override_authority \<Rightarrow> 'e lookup_error + ('m \<times> record_type) \<Rightarrow> 'o
     \<Rightarrow> ('n, 'o, 'l, 'e) lookup_result" where
  "override_search names self request_info options =
     zone_search (override_lookup names self) request_info options"

definition rewrite_search ::
    "('n, 'm) name_libs \<Rightarrow> ('m, 'net) rewrite_authority \<Rightarrow> 'e lookup_error + ('m \<times> record_type) \<Rightarrow> 'o
     \<Rightarrow> ('n, 'o, 'l, 'e) lookup_result" where
  "rewrite_search names self request_info options =
     zone_search (rewrite_lookup names self) request_info options"

definition block_search ::
    "('rx, 'net) rule_libs \<Rightarrow> ('n, 'm) name_libs \<Rightarrow> ('m, 'rx) block_authority
     \<Rightarrow> 'e lookup_error + ('m \<times> record_type) \<Rightarrow> 'o \<Rightarrow> ('n, 'o, 'l, 'e) lookup_result" where
  "block_search libs names self request_info options =
     zone_search (block_lookup libs names self) request_info options"

definition override_nsec_records :: "('n, 'o, 'l, 'e) lookup_result" where
  "override_nsec_records = nsec_unimplemented ''overrides''"

definition rewrite_nsec_records :: "('n, 'o, 'l, 'e) lookup_result" where
  "rewrite_nsec_records = nsec_unimplemented ''rewrites''"

definition block_nsec_records :: "('n, 'o, 'l, 'e) lookup_result" where
  "block_nsec_records = nsec_unimplemented ''the blocklist''"

section \<open>The chain\<close>

datatype ('n, 'm, 'rx, 'net, 'f) handler =
    H_Override "('n, 'm) override_authority"
  | H_Rewrite "('m, 'net) rewrite_authority"
  | H_Block "('m, 'rx) block_authority"
  | H_Forwarder 'f

text \<open>The refresh task of an override handler is the only thing that changes a handler.\<close>

fun refreshed_handler ::
    "(string \<Rightarrow> io_error + string) \<Rightarrow> ('n, 'm, 'rx, 'net, 'f) handler \<Rightarrow> ('n, 'm, 'rx, 'net, 'f) handler" where
  "refreshed_handler read_to_string (H_Override self) = H_Override (refreshed_override read_to_string self)"
| "refreshed_handler read_to_string h = h"

text \<open>The iteration orders of the hash maps of overrides.\<close>

record map_orders =
  override_entries :: "(string \<Rightarrow> override_rule option) \<Rightarrow> (string \<times> override_rule) list"
  ptr_entries :: "(string \<Rightarrow> string list option) \<Rightarrow> (string \<times> string list) list"

definition override_authority_of ::
    "('n, 'm) name_libs \<Rightarrow> map_orders \<Rightarrow> (string \<Rightarrow> io_error + string) \<Rightarrow> 'n
     \<Rightarrow> ('rx, 'net) compiled_rule_sets \<Rightarrow> authority_error + ('n, 'm) override_authority option" where
  "override_authority_of names orders read_to_string origin compiled =
     (if override_entries orders (overrides compiled) = []
         \<and> ptr_entries orders (ptr_overrides compiled) = []
         \<and> \<not> lh_enabled (lan_hosts compiled)
      then Inr None
      else rbind (override_authority_new names read_to_string origin
                    (override_entries orders (overrides compiled))
                    (ptr_entries orders (ptr_overrides compiled)) (lan_hosts compiled))
             (\<lambda>authority. Inr (Some authority)))"

definition block_authority_of ::
    "('n, 'm) name_libs \<Rightarrow> 'n \<Rightarrow> ('rx, 'net) compiled_rule_sets \<Rightarrow> ('m, 'rx) block_authority option" where
  "block_authority_of names origin compiled =
     (if block_exact compiled = {} \<and> block_subdomains compiled = {}
         \<and> block_rules compiled = [] \<and> allow_rules compiled = []
      then None
      else Some \<lparr>ba_origin = lower_of_name names origin,
                 ba_block_exact = block_exact compiled, ba_block_subdomains = block_subdomains compiled,
                 ba_allow_exact = allow_exact compiled, ba_allow_subdomains = allow_subdomains compiled,
                 ba_block_rules = block_rules compiled, ba_allow_rules = allow_rules compiled,
                 ba_blocking_mode = blocking_mode compiled,
                 ba_blocking_ipv4 = (case blocking_ipv4 compiled of Some a \<Rightarrow> a | None \<Rightarrow> 0),
                 ba_blocking_ipv6 = (case blocking_ipv6 compiled of Some a \<Rightarrow> a | None \<Rightarrow> 0),
                 ba_ttl = block_ttl compiled\<rparr>)"

definition rewrite_authority_of ::
    "('n, 'm) name_libs \<Rightarrow> 'n \<Rightarrow> ('rx, 'net) compiled_rule_sets \<Rightarrow> ('m, 'net) rewrite_authority option" where
  "rewrite_authority_of names origin compiled =
     (if domain_rewrites compiled = [] \<and> answer_ip_rewrites compiled = [] \<and> cname_rewrites compiled = []
      then None
      else Some \<lparr>ra_origin = lower_of_name names origin,
                 ra_domain_rewrites = domain_rewrites compiled,
                 ra_answer_ip_rewrites = answer_ip_rewrites compiled,
                 ra_cname_rewrites = cname_rewrites compiled\<rparr>)"

definition opt_handler :: "('a \<Rightarrow> 'h) \<Rightarrow> 'a option \<Rightarrow> 'h list" where
  "opt_handler f x = (case x of None \<Rightarrow> [] | Some a \<Rightarrow> [f a])"

definition build_authorities ::
    "('n, 'm) name_libs \<Rightarrow> map_orders \<Rightarrow> (string \<Rightarrow> io_error + string) \<Rightarrow> 'n \<Rightarrow> 'f
     \<Rightarrow> ('rx, 'net) compiled_rule_sets \<Rightarrow> authority_error + ('n, 'm, 'rx, 'net, 'f) handler list" where
  "build_authorities names orders read_to_string origin forwarder compiled =
     rbind (override_authority_of names orders read_to_string origin compiled) (\<lambda>oa.
       Inr (opt_handler H_Override oa
            @ opt_handler H_Rewrite (rewrite_authority_of names origin compiled)
            @ opt_handler H_Block (block_authority_of names origin compiled)
            @ [H_Forwarder forwarder]))"

definition is_adblock_enabled ::
    "filter_config list \<Rightarrow> string list \<Rightarrow> filtering_config \<Rightarrow> lan_hosts_config \<Rightarrow> bool" where
  "is_adblock_enabled filters user_rules filtering lan_config =
     (list_ex fc_enabled filters \<or> user_rules \<noteq> [] \<or> fg_rewrites filtering \<noteq> [] \<or> lh_enabled lan_config)"

end
