(* ===== verification/Server_Config.thy ===== *)
theory Server_Config
  imports Authorities
begin

text \<open>
  The configuration (src/lib.rs): its fields and their defaults, the compact \<^verbatim>\<open>dns\<close> section and
  its translation to a root forwarding zone, upstream addresses and DNS-over-HTTPS endpoints. The
  record is what the YAML deserializer yields; the deserializer, the URL parser, the system's and
  the DNS library's resolvers are parameters (\<open>net_libs\<close>). Features are the default ones, so the
  fields of the metrics endpoint are absent.
\<close>

section \<open>Third-party data\<close>

text \<open>A connection: its protocol (with the server name and the path of an HTTPS endpoint), port
  and local address. \<open>connection_new\<close> gives the library's defaults.\<close>

datatype protocol = P_Udp | P_Tcp | P_Tls string | P_Https string "string option"

record connection =
  cn_protocol :: protocol
  cn_port :: port
  cn_bind_addr :: "socket_addr option"

record name_server =
  ns_ip :: ip_addr
  ns_trust_negative :: bool
  ns_connections :: "connection list"

record resolver_opts =
  ro_cache_size :: "64 word"
  ro_positive_min_ttl :: "(64 word) option"
  ro_negative_min_ttl :: "(64 word) option"
  ro_positive_max_ttl :: "(64 word) option"
  ro_negative_max_ttl :: "(64 word) option"

record forward_config =
  fwd_name_servers :: "name_server list"
  fwd_options :: "resolver_opts option"

datatype url_host = HostDomain string | HostIpv4 ipv4 | HostIpv6 ipv6

record parsed_url =
  u_scheme :: string
  u_username :: string
  u_password :: "string option"
  u_query :: "string option"
  u_fragment :: "string option"
  u_host :: "url_host option"
  u_port_or_default :: "port option"
  u_path :: string

record ('res, 'n, 'f) net_libs =
  url_parse :: "string \<Rightarrow> string + parsed_url"
  connection_new :: "protocol \<Rightarrow> connection"
  resolver_opts_default :: resolver_opts
  lookup_host :: "string \<Rightarrow> port \<Rightarrow> string + socket_addr list"
  resolver_build :: "name_server list \<Rightarrow> string + 'res"
  resolver_lookup_ip :: "'res \<Rightarrow> string \<Rightarrow> string + ip_addr list"
  zone_name_parse :: "string \<Rightarrow> string + 'n"
  forward_build :: "forward_config \<Rightarrow> 'n \<Rightarrow> string + 'f"

section \<open>The configuration\<close>

datatype upstream_dns_config = Address string | Detailed name_server

record dns_config =
  dns_upstream_dns :: "upstream_dns_config list"
  dns_bootstrap_ips :: "ip_addr list"
  dns_cache_size :: "(64 word) option"
  dns_cache_ttl_min :: "(64 word) option"
  dns_cache_ttl_max :: "(64 word) option"

record compact_forward_config =
  cf_upstream_dns :: "upstream_dns_config list"
  cf_bootstrap_ips :: "ip_addr list"
  cf_options :: "resolver_opts option"

datatype external_store_config =
    ForwardStore forward_config
  | CompactForward compact_forward_config
  | DefaultStore

record zone_config =
  zone_name :: string
  zone_stores :: "external_store_config list"

record server_config =
  cfg_listen_addrs_ipv4 :: "string list"
  cfg_listen_addrs_ipv6 :: "string list"
  cfg_listen_port :: "port option"
  cfg_disable_tcp :: "bool option"
  cfg_disable_udp :: "bool option"
  cfg_disable_tls :: "bool option"
  cfg_disable_https :: "bool option"
  cfg_disable_quic :: "bool option"
  cfg_tcp_request_timeout :: "(64 word) option"
  cfg_log_level :: "string option"
  cfg_filter_cache_dir :: "string option"
  cfg_filter_refresh_interval_secs :: "(64 word) option"
  cfg_user :: "string option"
  cfg_group :: "string option"
  cfg_zones :: "zone_config list"
  cfg_dns :: "dns_config option"
  cfg_filters :: "filter_config list"
  cfg_user_rules :: "string list"
  cfg_filtering :: filtering_config
  cfg_lan_hosts :: lan_hosts_config

definition unwrap_or :: "'a \<Rightarrow> 'a option \<Rightarrow> 'a" where
  "unwrap_or d x = (case x of None \<Rightarrow> d | Some v \<Rightarrow> v)"

lemma unwrap_or_simps [simp]: "unwrap_or d None = d" "unwrap_or d (Some v) = v"
  by (simp_all add: unwrap_or_def)

datatype log_level = L_Error | L_Warn | L_Info | L_Debug | L_Trace

datatype config_error =
    BadListenAddr string
  | MixedZonesAndUpstreams
  | InvalidUpstreamAddress string
  | InvalidDohUrl string string
  | UnsupportedScheme string string
  | UrlHasUserInfo string
  | UrlHasQueryOrFragment string
  | UrlMissingHost string
  | UrlMissingPort string
  | DohResolveFailed string string
  | DohNoAddresses string
  | BootstrapResolverFailed string
  | BootstrapLookupFailed string string

definition listen_addrs_ipv4 :: "server_config \<Rightarrow> config_error + ipv4 list" where
  "listen_addrs_ipv4 cfg =
     collect_results (\<lambda>s. ok_or (BadListenAddr s) (parse_ipv4 s)) (cfg_listen_addrs_ipv4 cfg)"

definition listen_addrs_ipv6 :: "server_config \<Rightarrow> config_error + ipv6 list" where
  "listen_addrs_ipv6 cfg =
     collect_results (\<lambda>s. ok_or (BadListenAddr s) (parse_ipv6 s)) (cfg_listen_addrs_ipv6 cfg)"

definition listen_port :: "server_config \<Rightarrow> port" where
  "listen_port cfg = unwrap_or 53 (cfg_listen_port cfg)"

definition disable_tcp :: "server_config \<Rightarrow> bool" where
  "disable_tcp cfg = unwrap_or False (cfg_disable_tcp cfg)"

definition disable_udp :: "server_config \<Rightarrow> bool" where
  "disable_udp cfg = unwrap_or False (cfg_disable_udp cfg)"

definition disable_tls :: "server_config \<Rightarrow> bool" where
  "disable_tls cfg = unwrap_or False (cfg_disable_tls cfg)"

definition disable_https :: "server_config \<Rightarrow> bool" where
  "disable_https cfg = unwrap_or False (cfg_disable_https cfg)"

definition disable_quic :: "server_config \<Rightarrow> bool" where
  "disable_quic cfg = unwrap_or False (cfg_disable_quic cfg)"

text \<open>In seconds.\<close>

definition tcp_request_timeout :: "server_config \<Rightarrow> 64 word" where
  "tcp_request_timeout cfg = unwrap_or 5 (cfg_tcp_request_timeout cfg)"

text \<open>\<^verbatim>\<open>Level::from_str\<close> of the logging library is the parameter.\<close>

definition log_level_of :: "(string \<Rightarrow> log_level option) \<Rightarrow> server_config \<Rightarrow> log_level" where
  "log_level_of level_from_str cfg =
     (case cfg_log_level cfg of
        Some level_str \<Rightarrow> unwrap_or L_Info (level_from_str level_str)
      | None \<Rightarrow> L_Info)"

definition filter_cache_dir :: "server_config \<Rightarrow> string" where
  "filter_cache_dir cfg = unwrap_or ''/tmp/astra-dns/filters-cache'' (cfg_filter_cache_dir cfg)"

definition filter_refresh_interval_secs :: "server_config \<Rightarrow> 64 word" where
  "filter_refresh_interval_secs cfg = unwrap_or 86400 (cfg_filter_refresh_interval_secs cfg)"

definition adblock_runtime_config_of :: "server_config \<Rightarrow> adblock_runtime_config option" where
  "adblock_runtime_config_of cfg =
     (if \<not> is_adblock_enabled (cfg_filters cfg) (cfg_user_rules cfg) (cfg_filtering cfg) (cfg_lan_hosts cfg)
      then None
      else Some \<lparr>ac_filters = cfg_filters cfg, ac_user_rules = cfg_user_rules cfg,
                 ac_filtering = cfg_filtering cfg, ac_filter_cache_dir = filter_cache_dir cfg,
                 ac_lan_hosts = cfg_lan_hosts cfg\<rparr>)"

section \<open>Upstream addresses\<close>

definition connection_to :: "('res, 'n, 'f) net_libs \<Rightarrow> protocol \<Rightarrow> port \<Rightarrow> connection" where
  "connection_to net protocol p = (connection_new net protocol)\<lparr>cn_port := p\<rparr>"

definition split_plain_protocol :: "string \<Rightarrow> protocol \<times> string" where
  "split_plain_protocol address =
     (case strip_prefix ''udp://'' address of
        Some addr \<Rightarrow> (P_Udp, addr)
      | None \<Rightarrow>
          (case strip_prefix ''tcp://'' address of
             Some addr \<Rightarrow> (P_Tcp, addr)
           | None \<Rightarrow> (P_Udp, address)))"

definition parse_plain_upstream_dns_address ::
    "('res, 'n, 'f) net_libs \<Rightarrow> string \<Rightarrow> config_error + name_server" where
  "parse_plain_upstream_dns_address net address =
     (case split_plain_protocol address of (protocol, address) \<Rightarrow>
        rbind (ok_or (InvalidUpstreamAddress address)
                 (case parse_socket_addr address of
                    Some sa \<Rightarrow> Some sa
                  | None \<Rightarrow> map_option (\<lambda>ip. sock_new ip 53) (parse_ip_addr address)))
          (\<lambda>sa. Inr \<lparr>ns_ip = sock_ip sa, ns_trust_negative = False,
                     ns_connections = [connection_to net protocol (sock_port sa)]\<rparr>))"

section \<open>DNS over HTTPS\<close>

record doh_endpoint =
  de_tls_dns_name :: string
  de_port :: port
  de_http_endpoint :: string

fun host_text :: "url_host \<Rightarrow> string" where
  "host_text (HostDomain d) = d"
| "host_text (HostIpv4 a) = v4_text a"
| "host_text (HostIpv6 a) = v6_text a"

definition endpoint_path :: "string \<Rightarrow> string" where
  "endpoint_path path = (if path = [] \<or> path = ''/'' then ''/dns-query'' else path)"

definition endpoint_of_url :: "string \<Rightarrow> parsed_url \<Rightarrow> config_error + doh_endpoint" where
  "endpoint_of_url address url =
     (if u_scheme url \<noteq> ''https'' then Inl (UnsupportedScheme (u_scheme url) address)
      else if u_username url \<noteq> [] \<or> u_password url \<noteq> None then Inl (UrlHasUserInfo address)
      else if u_query url \<noteq> None \<or> u_fragment url \<noteq> None then Inl (UrlHasQueryOrFragment address)
      else rbind (ok_or (UrlMissingHost address) (map_option host_text (u_host url))) (\<lambda>tls_dns_name.
           rbind (ok_or (UrlMissingPort address) (u_port_or_default url)) (\<lambda>p.
             Inr \<lparr>de_tls_dns_name = tls_dns_name, de_port = p,
                  de_http_endpoint = endpoint_path (u_path url)\<rparr>)))"

definition parse_doh_endpoint :: "('res, 'n, 'f) net_libs \<Rightarrow> string \<Rightarrow> config_error + doh_endpoint" where
  "parse_doh_endpoint net address =
     rbind (map_err (InvalidDohUrl address) (url_parse net address)) (endpoint_of_url address)"

definition doh_name_server_configs ::
    "('res, 'n, 'f) net_libs \<Rightarrow> doh_endpoint \<Rightarrow> ip_addr list \<Rightarrow> name_server list" where
  "doh_name_server_configs net endpoint addresses =
     map (\<lambda>ip. \<lparr>ns_ip = ip, ns_trust_negative = False,
                 ns_connections =
                   [connection_to net (P_Https (de_tls_dns_name endpoint) (Some (de_http_endpoint endpoint)))
                      (de_port endpoint)]\<rparr>) addresses"

definition bootstrap_name_server_configs ::
    "('res, 'n, 'f) net_libs \<Rightarrow> ip_addr list \<Rightarrow> name_server list" where
  "bootstrap_name_server_configs net bootstrap_ips =
     map (\<lambda>ip. \<lparr>ns_ip = ip, ns_trust_negative = False, ns_connections = [connection_new net P_Udp]\<rparr>)
       bootstrap_ips"

definition resolve_with_bootstrap_dns ::
    "('res, 'n, 'f) net_libs \<Rightarrow> string \<Rightarrow> ip_addr list \<Rightarrow> config_error + ip_addr list" where
  "resolve_with_bootstrap_dns net hostname bootstrap_ips =
     rbind (map_err BootstrapResolverFailed
              (resolver_build net (bootstrap_name_server_configs net bootstrap_ips))) (\<lambda>resolver.
       map_err (BootstrapLookupFailed hostname) (resolver_lookup_ip net resolver (hostname @ ''.'')))"

definition endpoint_addresses ::
    "('res, 'n, 'f) net_libs \<Rightarrow> doh_endpoint \<Rightarrow> ip_addr list \<Rightarrow> config_error + socket_addr list" where
  "endpoint_addresses net endpoint bootstrap_ips =
     (case parse_ip_addr (de_tls_dns_name endpoint) of
        Some ip \<Rightarrow> Inr [sock_new ip (de_port endpoint)]
      | None \<Rightarrow>
          if bootstrap_ips = []
          then map_err (DohResolveFailed (de_tls_dns_name endpoint))
                 (lookup_host net (de_tls_dns_name endpoint) (de_port endpoint))
          else rbind (resolve_with_bootstrap_dns net (de_tls_dns_name endpoint) bootstrap_ips)
                 (\<lambda>ips. Inr (map (\<lambda>ip. sock_new ip (de_port endpoint)) ips)))"

definition resolve_doh_endpoint ::
    "('res, 'n, 'f) net_libs \<Rightarrow> doh_endpoint \<Rightarrow> ip_addr list \<Rightarrow> config_error + name_server list" where
  "resolve_doh_endpoint net endpoint bootstrap_ips =
     rbind (endpoint_addresses net endpoint bootstrap_ips) (\<lambda>found.
       let socket_addrs = remdups_adj (sort found)
       in if socket_addrs = [] then Inl (DohNoAddresses (de_tls_dns_name endpoint))
          else Inr (doh_name_server_configs net endpoint (map sock_ip socket_addrs)))"

section \<open>Validation and translation\<close>

definition plain_scheme :: "string \<Rightarrow> bool" where
  "plain_scheme address \<longleftrightarrow> prefix ''udp://'' address \<or> prefix ''tcp://'' address"

fun upstream_validate :: "('res, 'n, 'f) net_libs \<Rightarrow> upstream_dns_config \<Rightarrow> config_error + unit" where
  "upstream_validate net (Address address) =
     (if contains_str ''://'' address \<and> \<not> plain_scheme address
      then rbind (parse_doh_endpoint net address) (\<lambda>_. Inr ())
      else rbind (parse_plain_upstream_dns_address net address) (\<lambda>_. Inr ()))"
| "upstream_validate net (Detailed _) = Inr ()"

fun resolve_name_server_configs ::
    "('res, 'n, 'f) net_libs \<Rightarrow> ip_addr list \<Rightarrow> upstream_dns_config \<Rightarrow> config_error + name_server list" where
  "resolve_name_server_configs net bootstrap_ips (Address address) =
     (if contains_str ''://'' address \<and> \<not> plain_scheme address
      then rbind (parse_doh_endpoint net address) (\<lambda>e. resolve_doh_endpoint net e bootstrap_ips)
      else rbind (parse_plain_upstream_dns_address net address) (\<lambda>s. Inr [s]))"
| "resolve_name_server_configs net bootstrap_ips (Detailed config) = Inr [config]"

definition cache_options :: "('res, 'n, 'f) net_libs \<Rightarrow> dns_config \<Rightarrow> resolver_opts option" where
  "cache_options net dns =
     (if dns_cache_size dns = None \<and> dns_cache_ttl_min dns = None \<and> dns_cache_ttl_max dns = None
      then None
      else (let options = resolver_opts_default net;
                options = (case dns_cache_size dns of
                             None \<Rightarrow> options | Some n \<Rightarrow> options\<lparr>ro_cache_size := n\<rparr>);
                options = (case dns_cache_ttl_min dns of
                             None \<Rightarrow> options
                           | Some t \<Rightarrow> options\<lparr>ro_positive_min_ttl := Some t, ro_negative_min_ttl := Some t\<rparr>);
                options = (case dns_cache_ttl_max dns of
                             None \<Rightarrow> options
                           | Some t \<Rightarrow> options\<lparr>ro_positive_max_ttl := Some t, ro_negative_max_ttl := Some t\<rparr>)
            in Some options))"

definition root_forward :: "('res, 'n, 'f) net_libs \<Rightarrow> dns_config \<Rightarrow> config_error + zone_config" where
  "root_forward net dns =
     rbind (collect_results (upstream_validate net) (dns_upstream_dns dns)) (\<lambda>_.
       Inr \<lparr>zone_name = ''.'',
            zone_stores =
              [CompactForward \<lparr>cf_upstream_dns = dns_upstream_dns dns,
                               cf_bootstrap_ips = dns_bootstrap_ips dns,
                               cf_options = cache_options net dns\<rparr>]\<rparr>)"

definition normalize_config :: "('res, 'n, 'f) net_libs \<Rightarrow> server_config \<Rightarrow> config_error + server_config" where
  "normalize_config net cfg =
     (case cfg_dns cfg of
        None \<Rightarrow> Inr cfg
      | Some dns \<Rightarrow>
          if dns_upstream_dns dns = [] then Inr cfg
          else if cfg_zones cfg \<noteq> [] then Inl MixedZonesAndUpstreams
          else rbind (root_forward net dns) (\<lambda>zone. Inr (cfg\<lparr>cfg_zones := [zone]\<rparr>)))"

text \<open>The translation of the older shape of a name server.\<close>

datatype legacy_protocol = LP_Udp | LP_Tcp | LP_Tls | LP_Https

record legacy_server =
  lg_socket_addr :: socket_addr
  lg_protocol :: legacy_protocol
  lg_tls_dns_name :: "string option"
  lg_http_endpoint :: "string option"
  lg_trust_negative :: bool
  lg_bind_addr :: "socket_addr option"

datatype compatible_server = Legacy legacy_server | Current name_server

definition legacy_protocol_of :: "legacy_server \<Rightarrow> protocol" where
  "legacy_protocol_of lg =
     (let server_name = unwrap_or (ip_addr_text (sock_ip (lg_socket_addr lg))) (lg_tls_dns_name lg)
      in case lg_protocol lg of
           LP_Udp \<Rightarrow> P_Udp
         | LP_Tcp \<Rightarrow> P_Tcp
         | LP_Tls \<Rightarrow> P_Tls server_name
         | LP_Https \<Rightarrow> P_Https server_name (lg_http_endpoint lg))"

fun deserialize_name_server :: "('res, 'n, 'f) net_libs \<Rightarrow> compatible_server \<Rightarrow> name_server" where
  "deserialize_name_server net (Current config) = config"
| "deserialize_name_server net (Legacy lg) =
     \<lparr>ns_ip = sock_ip (lg_socket_addr lg), ns_trust_negative = lg_trust_negative lg,
      ns_connections =
        [(connection_new net (legacy_protocol_of lg))
           \<lparr>cn_port := sock_port (lg_socket_addr lg), cn_bind_addr := lg_bind_addr lg\<rparr>]\<rparr>"

definition deserialize_forward_config ::
    "('res, 'n, 'f) net_libs \<Rightarrow> compatible_server list \<Rightarrow> resolver_opts option \<Rightarrow> forward_config" where
  "deserialize_forward_config net servers options =
     \<lparr>fwd_name_servers = map (deserialize_name_server net) servers, fwd_options = options\<rparr>"

end
