(* ===== verification/Addr_Roundtrip.thy ===== *)
theory Addr_Roundtrip
  imports Addr_Text
begin

text \<open>
  Reading back what is printed: the standard library's parser returns the address whose text it
  is given, so that an address taken from a URL as text is an address again.
\<close>

section \<open>Numbers\<close>

text \<open>The digits of a number, without leading zeros.\<close>

function pos_digits :: "int \<Rightarrow> int \<Rightarrow> int list" where
  "pos_digits b n = (if n < b \<or> b < 2 then [n] else pos_digits b (n div b) @ [n mod b])"
  by pat_completeness auto
termination
  by (relation "measure (\<lambda>(b, n). nat n)") (auto simp: nat_less_iff int_div_less_self)

declare pos_digits.simps [simp del]

lemma dec_str_digits: "0 \<le> n \<Longrightarrow> dec_str n = map digit_char (pos_digits 10 n)"
proof (induction n rule: dec_str.induct)
  case (1 n)
  show ?case using 1 by (simp add: dec_str.simps [of n] pos_digits.simps [of 10 n])
qed

lemma hex_str_digits: "0 \<le> n \<Longrightarrow> hex_str n = map digit_char (pos_digits 16 n)"
proof (induction n rule: hex_str.induct)
  case (1 n)
  show ?case using 1 by (simp add: hex_str.simps [of n] pos_digits.simps [of 16 n])
qed

lemma pos_digits_range: "2 \<le> b \<Longrightarrow> 0 \<le> n \<Longrightarrow> d \<in> set (pos_digits b n) \<Longrightarrow> 0 \<le> d \<and> d < b"
proof (induction b n rule: pos_digits.induct)
  case (1 b n)
  show ?case
    using 1 by (cases "n < b") (auto simp: pos_digits.simps [of b n] pos_imp_zdiv_nonneg_iff)
qed

lemma pos_digits_not_Nil [simp]: "pos_digits b n \<noteq> []"
  by (subst pos_digits.simps) simp

lemma be_val_pos_digits: "2 \<le> b \<Longrightarrow> 0 \<le> n \<Longrightarrow> be_val b (pos_digits b n) = n"
proof (induction b n rule: pos_digits.induct)
  case (1 b n)
  show ?case
  proof (cases "n < b")
    case True
    then show ?thesis using be_val_snoc [of b "[]" n] by (simp add: pos_digits.simps [of b n])
  next
    case False
    then show ?thesis using 1 by (simp add: pos_digits.simps [of b n] pos_imp_zdiv_nonneg_iff)
  qed
qed

lemma hd_pos_digits: "2 \<le> b \<Longrightarrow> 0 < n \<Longrightarrow> 0 < hd (pos_digits b n)"
proof (induction b n rule: pos_digits.induct)
  case (1 b n)
  show ?case
  proof (cases "n < b")
    case True
    then show ?thesis using 1 by (simp add: pos_digits.simps [of b n])
  next
    case False
    then have "0 < n div b" using 1 by (simp add: pos_imp_zdiv_pos_iff)
    then show ?thesis using 1 False by (simp add: pos_digits.simps [of b n])
  qed
qed

lemma length_pos_digits: "2 \<le> b \<Longrightarrow> 0 \<le> n \<Longrightarrow> n < b ^ Suc k \<Longrightarrow> length (pos_digits b n) \<le> Suc k"
proof (induction b n arbitrary: k rule: pos_digits.induct)
  case (1 b n)
  show ?case
  proof (cases "n < b")
    case False
    then obtain j where k: "k = Suc j" using 1 by (cases k) auto
    have "n div b < b ^ Suc j"
    proof (rule ccontr)
      assume "\<not> n div b < b ^ Suc j"
      then have "b * b ^ Suc j \<le> b * (n div b)" using 1 by (intro mult_left_mono) auto
      also have "\<dots> \<le> n" using 1 by (simp add: minus_mod_eq_mult_div [symmetric])
      finally show False using 1 k by simp
    qed
    then have "length (pos_digits b (n div b)) \<le> Suc j" using 1 False by (simp add: pos_imp_zdiv_nonneg_iff)
    then show ?thesis using False 1 by (simp add: pos_digits.simps [of b n] k)
  qed (simp add: pos_digits.simps [of b n])
qed

definition no_digit :: "int \<Rightarrow> string \<Rightarrow> bool" where
  "no_digit radix s \<longleftrightarrow> (case s of [] \<Rightarrow> True | c # _ \<Rightarrow> to_digit radix c = None)"

lemma take_digits_map:
  assumes "\<forall>d\<in>set ds. 0 \<le> d \<and> d < radix" and "radix \<le> 16" and "no_digit radix r"
  shows "take_digits radix (map digit_char ds @ r) = (ds, r)"
  using assms(1)
proof (induction ds)
  case Nil
  then show ?case using assms(3) by (cases r) (auto simp: no_digit_def)
next
  case (Cons d ds)
  then show ?case using to_digit_digit_char [of d radix] assms(2) by simp
qed

text \<open>A number that fits is read back, whatever follows it.\<close>

lemma read_number_digits:
  assumes "2 \<le> radix" "radix \<le> 16" "0 \<le> n" "n \<le> bound" "no_digit radix r"
    and "\<forall>m. max_digits = Some m \<longrightarrow> length (pos_digits radix n) \<le> m"
  shows "read_number radix max_digits zero_ok bound (map digit_char (pos_digits radix n) @ r) = Some (n, r)"
proof -
  have take: "take_digits radix (map digit_char (pos_digits radix n) @ r) = (pos_digits radix n, r)"
    using assms pos_digits_range by (intro take_digits_map) auto
  have "hd (pos_digits radix n) \<noteq> 0 \<or> length (pos_digits radix n) \<le> 1"
  proof (cases "n = 0")
    case True
    then show ?thesis using assms(1) by (simp add: pos_digits.simps)
  next
    case False
    then show ?thesis using hd_pos_digits [OF assms(1), of n] assms(3) by simp
  qed
  then show ?thesis
    unfolding read_number_def take using assms be_val_pos_digits [of radix n]
    by (auto split: option.splits)
qed

section \<open>IPv4\<close>

lemma read_octet_dec:
  assumes "0 \<le> d" "d < 256" "no_digit 10 r"
  shows "read_octet 0 (dec_str d @ r) = Some (d, r)"
    and "0 < i \<Longrightarrow> read_octet i (CHR ''.'' # dec_str d @ r) = Some (d, r)"
proof -
  have "length (pos_digits 10 d) \<le> 3" using length_pos_digits [of 10 d 2] assms by simp
  then have "read_number 10 (Some 3) False 255 (dec_str d @ r) = Some (d, r)"
    using read_number_digits [of 10 d 255 r "Some 3"] assms by (simp add: dec_str_digits)
  then show "read_octet 0 (dec_str d @ r) = Some (d, r)"
    and "0 < i \<Longrightarrow> read_octet i (CHR ''.'' # dec_str d @ r) = Some (d, r)"
    by (simp_all add: read_octet_def read_separated_def)
qed

lemma no_digit_simps [simp]: "no_digit b []" "no_digit 10 (CHR ''.'' # s)" "no_digit 10 (CHR '':'' # s)"
  "no_digit 16 (CHR ''.'' # s)" "no_digit 16 (CHR '':'' # s)"
  by (simp_all add: no_digit_def to_digit_def)

lemma v4_octets_expand:
  obtains a b c d where "v4_octets x = [a, b, c, d]"
    and "0 \<le> a" "a < 256" "0 \<le> b" "b < 256" "0 \<le> c" "c < 256" "0 \<le> d" "d < 256"
    and "word_of_int (be_val 256 [a, b, c, d]) = x"
proof -
  have len: "length (v4_octets x) = 4" by (simp add: v4_octets_def)
  then obtain a b c d where abcd: "v4_octets x = [a, b, c, d]"
    by (auto simp: numeral_eq_Suc length_Suc_conv)
  have "\<forall>q\<in>set (v4_octets x). 0 \<le> q \<and> q < 256"
    using be_digits_range [of 256] by (auto simp: v4_octets_def)
  moreover have "uint x mod 256 ^ 4 = uint x"
    using uint_bounded [of x] by (intro mod_pos_pos_trivial) simp_all
  then have "be_val 256 (v4_octets x) = uint x" by (simp only: v4_octets_def be_val_be_digits)
  ultimately show ?thesis using that abcd by simp
qed

lemma read_ipv4_text:
  assumes "no_digit 10 r"
  shows "read_ipv4 (v4_text x @ r) = Some (x, r)"
proof -
  obtain a b c d where x: "v4_octets x = [a, b, c, d]"
    and r: "0 \<le> a" "a < 256" "0 \<le> b" "b < 256" "0 \<le> c" "c < 256" "0 \<le> d" "d < 256"
    and val: "word_of_int (be_val 256 [a, b, c, d]) = x"
    by (rule v4_octets_expand)
  show ?thesis
    using assms r val by (simp add: v4_text_def x read_ipv4_def read_octet_dec)
qed

theorem parse_ip_addr_v4_text: "parse_ip_addr (v4_text x) = Some (V4 x)"
  using read_ipv4_text [of "[]" x] by (simp add: parse_ip_addr_def parse_with_def read_ip_addr_def)

lemma parse_socket_addr_v4_text:
  "parse_socket_addr (v4_text x @ CHR '':'' # dec_str (uint p)) = Some (SockV4 x p)"
proof -
  have "uint p \<le> 65535" using uint_bounded [of p] by simp
  then have "read_port (CHR '':'' # dec_str (uint p)) = Some (p, [])"
    using read_number_digits [of 10 "uint p" 65535 "[]" None True]
    by (simp add: read_port_def dec_str_digits)
  then show ?thesis
    using read_ipv4_text [of "CHR '':'' # dec_str (uint p)" x]
    by (simp add: parse_socket_addr_def parse_with_def read_socket_addr_def)
qed

lemma read_char_v4_text: "read_char CHR ''['' (v4_text x) = None"
proof (cases "v4_text x")
  case (Cons c s)
  have "c \<noteq> CHR ''[''"
  proof
    assume "c = CHR ''[''"
    then have "read_ipv4 (v4_text x) = None"
      by (simp add: Cons read_ipv4_def read_octet_def read_separated_def read_number_def to_digit_def)
    then show False using read_ipv4_text [of "[]" x] by simp
  qed
  then show ?thesis by (simp add: Cons)
qed simp

lemma parse_socket_addr_bare: "parse_socket_addr (v4_text x) = None"
  using read_ipv4_text [of "[]" x]
  by (simp add: parse_socket_addr_def parse_with_def read_socket_addr_def read_port_def read_char_v4_text)

end
