(* ===== verification/Upstream.thy ===== *)
theory Upstream
  imports Server_Config Addr_Roundtrip
begin

text \<open>
  The recovering forwarder (src/upstream.rs) and the loading of a zone (src/lib.rs,
  \<^verbatim>\<open>ZoneConfig::load\<close>). Every upstream has a slot with the forwarder built for its last known
  addresses; the slots of hostname upstreams are filled by a worker that retries with a growing
  delay. A lookup asks all ready upstreams at once and takes the first useful answer. Equal
  configurations share one forwarder through a registry of weak references.

  Times are milliseconds. \<open>'f\<close> is a forwarder of the DNS library.
\<close>

section \<open>Slots\<close>

record recovery_timing =
  rt_bootstrap_timeout :: nat
  rt_retry_min :: nat
  rt_retry_max :: nat
  rt_refresh_interval :: nat

definition recovery_timing_default :: recovery_timing where
  "recovery_timing_default =
     \<lparr>rt_bootstrap_timeout = 5000, rt_retry_min = 1000, rt_retry_max = 30000,
      rt_refresh_interval = 300000\<rparr>"

record 'f ready_upstream =
  ru_addresses :: "ip_addr list"
  ru_forwarder :: 'f
  ru_trust_negative :: bool

type_synonym 'f slot = "'f ready_upstream option"

datatype upstream_error =
    NoUpstreams
  | UpstreamConfig config_error
  | NoAddresses
  | ForwarderBuild string
  | InvalidDohAddress string
  | BootstrapTimedOut

definition server_addresses :: "name_server list \<Rightarrow> ip_addr list" where
  "server_addresses servers = remdups_adj (sort (map ns_ip servers))"

definition install_upstream ::
    "('res, 'n, 'f) net_libs \<Rightarrow> 'n \<Rightarrow> resolver_opts \<Rightarrow> name_server list \<Rightarrow> 'f slot
     \<Rightarrow> (upstream_error + bool) \<times> 'f slot" where
  "install_upstream net origin options servers ready =
     (let addresses = server_addresses servers
      in if addresses = [] then (Inl NoAddresses, ready)
         else if (case ready of Some r \<Rightarrow> ru_addresses r = addresses | None \<Rightarrow> False)
         then (Inr False, ready)
         else let trust = list_all ns_trust_negative servers
              in (case forward_build net \<lparr>fwd_name_servers = servers, fwd_options = Some options\<rparr> origin of
                    Inl e \<Rightarrow> (Inl (ForwarderBuild e), ready)
                  | Inr forwarder \<Rightarrow>
                      (Inr True, Some \<lparr>ru_addresses = addresses, ru_forwarder = forwarder,
                                       ru_trust_negative = trust\<rparr>)))"

section \<open>The recovery worker\<close>

record 'f recovery =
  rv_slot :: "'f slot"
  rv_backoff :: nat
  rv_failing :: bool

text \<open>The part of an iteration after the bootstrap lookup returned, failed or timed out: the new
  state and the delay before the next attempt.\<close>

definition next_backoff :: "recovery_timing \<Rightarrow> nat \<Rightarrow> nat" where
  "next_backoff timing b = min (b * 2) (rt_retry_max timing)"

definition recover_attempt ::
    "('res, 'n, 'f) net_libs \<Rightarrow> recovery_timing \<Rightarrow> 'n \<Rightarrow> resolver_opts
     \<Rightarrow> upstream_error + name_server list \<Rightarrow> 'f recovery \<Rightarrow> 'f recovery \<times> nat" where
  "recover_attempt net timing origin options result rv =
     (case (case result of
              Inl e \<Rightarrow> (Inl e, rv_slot rv)
            | Inr servers \<Rightarrow> install_upstream net origin options servers (rv_slot rv)) of
        (Inr _, ready) \<Rightarrow>
          (\<lparr>rv_slot = ready, rv_backoff = rt_retry_min timing, rv_failing = False\<rparr>,
           rt_refresh_interval timing)
      | (Inl _, ready) \<Rightarrow>
          (\<lparr>rv_slot = ready, rv_backoff = next_backoff timing (rv_backoff rv), rv_failing = True\<rparr>,
           rv_backoff rv))"

text \<open>The loop with its clock. \<open>wk_starts\<close> records when attempts began, the latest first. A
  sleep may end late, never early.\<close>

datatype worker_phase =
    Attempting
  | Sleeping nat
  | SleepingUnlessNotified nat
  | Stopped

record 'f worker =
  wk_recovery :: "'f recovery"
  wk_phase :: worker_phase
  wk_now :: nat
  wk_starts :: "nat list"

definition worker_start :: "recovery_timing \<Rightarrow> nat \<Rightarrow> 'f worker" where
  "worker_start timing t =
     \<lparr>wk_recovery = \<lparr>rv_slot = None, rv_backoff = rt_retry_min timing, rv_failing = False\<rparr>,
      wk_phase = Attempting, wk_now = t, wk_starts = [t]\<rparr>"

definition after_attempt ::
    "('res, 'n, 'f) net_libs \<Rightarrow> recovery_timing \<Rightarrow> 'n \<Rightarrow> resolver_opts
     \<Rightarrow> upstream_error + name_server list \<Rightarrow> nat \<Rightarrow> 'f worker \<Rightarrow> 'f worker" where
  "after_attempt net timing origin options result t w =
     (case recover_attempt net timing origin options result (wk_recovery w) of
        (rv, delay) \<Rightarrow>
          w\<lparr>wk_recovery := rv, wk_now := t,
            wk_phase := (if rv_failing rv then Sleeping (t + delay)
                         else SleepingUnlessNotified (t + delay))\<rparr>)"

inductive worker_step ::
    "('res, 'n, 'f) net_libs \<Rightarrow> recovery_timing \<Rightarrow> 'n \<Rightarrow> resolver_opts \<Rightarrow> 'f worker \<Rightarrow> 'f worker \<Rightarrow> bool"
  for net timing origin options where
  resolved: "wk_phase w = Attempting \<Longrightarrow> wk_now w \<le> t \<Longrightarrow>
     worker_step net timing origin options w (after_attempt net timing origin options result t w)"
| timed_out: "wk_phase w = Attempting \<Longrightarrow> wk_now w + rt_bootstrap_timeout timing \<le> t \<Longrightarrow>
     worker_step net timing origin options w
       (after_attempt net timing origin options (Inl BootstrapTimedOut) t w)"
| slept: "wk_phase w = Sleeping wake \<or> wk_phase w = SleepingUnlessNotified wake \<Longrightarrow> wake \<le> t \<Longrightarrow>
     wk_now w \<le> t \<Longrightarrow>
     worker_step net timing origin options w
       (w\<lparr>wk_phase := Attempting, wk_now := t, wk_starts := t # wk_starts w\<rparr>)"
| notified: "wk_phase w = SleepingUnlessNotified wake \<Longrightarrow> wk_now w \<le> t \<Longrightarrow>
     worker_step net timing origin options w
       (w\<lparr>wk_phase := Sleeping (hd (wk_starts w) + rt_retry_min timing), wk_now := t\<rparr>)"
| released: "worker_step net timing origin options w (w\<lparr>wk_phase := Stopped\<rparr>)"

inductive worker_reachable ::
    "('res, 'n, 'f) net_libs \<Rightarrow> recovery_timing \<Rightarrow> 'n \<Rightarrow> resolver_opts \<Rightarrow> 'f worker \<Rightarrow> bool"
  for net timing origin options where
  started: "worker_reachable net timing origin options (worker_start timing t)"
| step: "worker_reachable net timing origin options w \<Longrightarrow>
     worker_step net timing origin options w w' \<Longrightarrow> worker_reachable net timing origin options w'"

section \<open>Looking up\<close>

definition is_negative_answer :: "'e lookup_error \<Rightarrow> bool" where
  "is_negative_answer e =
     (case e of
        LE_NameExists \<Rightarrow> True
      | LE_ResponseCode c \<Rightarrow> c = RC_NXDomain
      | LE_NoRecordsFound c _ \<Rightarrow> c = RC_NXDomain \<or> c = RC_NoError
      | _ \<Rightarrow> False)"

text \<open>What a query task reports: its slot, the lookup's result (\<open>None\<close> if the task did not
  finish), and whether the slot's negative answers are trusted.\<close>

record ('e, 'a) report =
  rp_slot :: nat
  rp_result :: "('e, 'a) control_flow option"
  rp_trust_negative :: bool

text \<open>The loop over the tasks in the order they finish: the answer, and the slots whose worker
  is notified.\<close>

fun aggregate ::
    "('e, 'a) report list \<Rightarrow> 'e lookup_error option \<Rightarrow> nat list \<Rightarrow> ('e, 'a) control_flow \<times> nat list" where
  "aggregate [] negative woken =
     (Continue (Inl (unwrap_or (LE_ResponseCode RC_ServFail) negative)), woken)"
| "aggregate (r # rs) negative woken =
     (case rp_result r of
        None \<Rightarrow> aggregate rs negative woken
      | Some Skip \<Rightarrow> aggregate rs negative woken
      | Some (Continue (Inr answer)) \<Rightarrow> (Continue (Inr answer), woken)
      | Some (Break (Inr answer)) \<Rightarrow> (Continue (Inr answer), woken)
      | Some (Continue (Inl err)) \<Rightarrow>
          (if is_negative_answer err
           then if rp_trust_negative r then (Continue (Inl err), woken)
                else aggregate rs (Some (unwrap_or err negative)) woken
           else aggregate rs negative (woken @ [rp_slot r]))
      | Some (Break (Inl err)) \<Rightarrow>
          (if is_negative_answer err
           then if rp_trust_negative r then (Continue (Inl err), woken)
                else aggregate rs (Some (unwrap_or err negative)) woken
           else aggregate rs negative (woken @ [rp_slot r])))"

definition slot_reports ::
    "('f \<Rightarrow> ('e, 'a) control_flow option) \<Rightarrow> 'f slot list \<Rightarrow> ('e, 'a) report list" where
  "slot_reports ask slots =
     List.map_filter (\<lambda>(i, ready). map_option (\<lambda>r. \<lparr>rp_slot = i, rp_result = ask (ru_forwarder r),
                                                  rp_trust_negative = ru_trust_negative r\<rparr>) ready)
       (enumerate 0 slots)"

text \<open>\<open>completion\<close> is the order in which the tasks finish.\<close>

definition recovering_lookup ::
    "(('e, 'a) report list \<Rightarrow> ('e, 'a) report list) \<Rightarrow> ('f \<Rightarrow> ('e, 'a) control_flow option)
     \<Rightarrow> 'f slot list \<Rightarrow> ('e, 'a) control_flow \<times> nat list" where
  "recovering_lookup completion ask slots = aggregate (completion (slot_reports ask slots)) None []"

definition recovering_can_validate :: "('f \<Rightarrow> bool) \<Rightarrow> 'f slot list \<Rightarrow> bool" where
  "recovering_can_validate can_validate slots =
     list_ex (\<lambda>ready. case ready of None \<Rightarrow> False | Some r \<Rightarrow> can_validate (ru_forwarder r)) slots"

text \<open>\<open>ask\<close> gives the answer of a slot's forwarder to a question. A request that cannot be read
  wakes no worker.\<close>

definition recovering_search ::
    "(('e, 'a) report list \<Rightarrow> ('e, 'a) report list)
     \<Rightarrow> ('m \<Rightarrow> record_type \<Rightarrow> 'o \<Rightarrow> 'f \<Rightarrow> ('e, 'a) control_flow option) \<Rightarrow> 'f slot list
     \<Rightarrow> 'e lookup_error + ('m \<times> record_type) \<Rightarrow> 'o \<Rightarrow> ('e, 'a) control_flow \<times> nat list" where
  "recovering_search completion ask slots request_info options =
     (case request_info of
        Inl err \<Rightarrow> (Break (Inl err), [])
      | Inr (name, rtype) \<Rightarrow> recovering_lookup completion (ask name rtype options) slots)"

definition recovering_nsec_records :: "('e, 'a) control_flow" where
  "recovering_nsec_records = nsec_unimplemented ''the forwarder''"

section \<open>Building a forwarder\<close>

text \<open>\<open>rf_workers\<close> are the slots left to a background worker.\<close>

record ('m, 'f) recovering_forwarder =
  rf_origin :: 'm
  rf_slots :: "'f slot list"
  rf_workers :: "nat list"

definition https_address :: "string \<Rightarrow> bool" where
  "https_address address \<longleftrightarrow> prefix ''https://'' address"

fun needs_bootstrap :: "('res, 'n, 'f) net_libs \<Rightarrow> upstream_dns_config \<Rightarrow> upstream_error + bool" where
  "needs_bootstrap net (Address address) =
     (if https_address address
      then rbind (map_err UpstreamConfig (parse_doh_endpoint net address)) (\<lambda>endpoint.
             Inr (parse_ip_addr (de_tls_dns_name endpoint) = None))
      else Inr False)"
| "needs_bootstrap net (Detailed _) = Inr False"

fun static_servers :: "('res, 'n, 'f) net_libs \<Rightarrow> upstream_dns_config \<Rightarrow> upstream_error + name_server list" where
  "static_servers net (Detailed server) = Inr [server]"
| "static_servers net (Address address) =
     (if https_address address
      then rbind (map_err UpstreamConfig (parse_doh_endpoint net address)) (\<lambda>endpoint.
             rbind (ok_or (InvalidDohAddress (de_tls_dns_name endpoint))
                      (parse_ip_addr (de_tls_dns_name endpoint))) (\<lambda>ip.
               Inr (doh_name_server_configs net endpoint [ip])))
      else rbind (map_err UpstreamConfig (parse_plain_upstream_dns_address net address))
             (\<lambda>server. Inr [server]))"

definition upstream_slot ::
    "('res, 'n, 'f) net_libs \<Rightarrow> 'n \<Rightarrow> resolver_opts \<Rightarrow> upstream_dns_config
     \<Rightarrow> upstream_error + ('f slot \<times> bool)" where
  "upstream_slot net origin options upstream =
     rbind (needs_bootstrap net upstream) (\<lambda>bootstrap.
       if bootstrap then Inr (None, True)
       else rbind (static_servers net upstream) (\<lambda>servers.
              case install_upstream net origin options servers None of
                (Inl e, _) \<Rightarrow> Inl e
              | (Inr _, ready) \<Rightarrow> Inr (ready, False)))"

definition recovering_options :: "('res, 'n, 'f) net_libs \<Rightarrow> compact_forward_config \<Rightarrow> resolver_opts" where
  "recovering_options net config =
     (let options = unwrap_or (resolver_opts_default net) (cf_options config)
      in options\<lparr>ro_cache_size := ro_cache_size options div of_nat (length (cf_upstream_dns config))\<rparr>)"

definition recovering_new ::
    "('res, 'n, 'f) net_libs \<Rightarrow> ('n \<Rightarrow> 'm) \<Rightarrow> 'n \<Rightarrow> compact_forward_config
     \<Rightarrow> upstream_error + ('m, 'f) recovering_forwarder" where
  "recovering_new net lower origin config =
     (if cf_upstream_dns config = [] then Inl NoUpstreams
      else rbind (collect_results (upstream_slot net origin (recovering_options net config))
                    (cf_upstream_dns config)) (\<lambda>slots.
             Inr \<lparr>rf_origin = lower origin, rf_slots = map fst slots,
                  rf_workers = filter (\<lambda>i. snd (slots ! i)) [0..<length slots]\<rparr>))"

section \<open>The registry of live forwarders\<close>

text \<open>\<open>rg_live\<close> are the forwarders some handler chain still holds, each with the key it was made
  for; \<open>rg_entries\<close> the registry's weak references.\<close>

record ('m, 'f) registry =
  rg_entries :: "string \<Rightarrow> nat option"
  rg_live :: "nat \<Rightarrow> (string \<times> ('m, 'f) recovering_forwarder) option"
  rg_next :: nat

definition registry_empty :: "('m, 'f) registry" where
  "registry_empty = \<lparr>rg_entries = Map.empty, rg_live = Map.empty, rg_next = 0\<rparr>"

definition retain_live :: "('m, 'f) registry \<Rightarrow> string \<Rightarrow> nat option" where
  "retain_live rg k =
     (case rg_entries rg k of
        None \<Rightarrow> None
      | Some i \<Rightarrow> if rg_live rg i = None then None else Some i)"

definition shared_forwarder ::
    "string \<Rightarrow> upstream_error + ('m, 'f) recovering_forwarder \<Rightarrow> ('m, 'f) registry
     \<Rightarrow> (upstream_error + nat) \<times> ('m, 'f) registry" where
  "shared_forwarder key new_handler rg =
     (let rg = rg\<lparr>rg_entries := retain_live rg\<rparr>
      in case rg_entries rg key of
           Some i \<Rightarrow> (Inr i, rg)
         | None \<Rightarrow>
             (case new_handler of
                Inl e \<Rightarrow> (Inl e, rg)
              | Inr h \<Rightarrow>
                  (Inr (rg_next rg),
                   rg\<lparr>rg_entries := (rg_entries rg)(key \<mapsto> rg_next rg),
                      rg_live := (rg_live rg)(rg_next rg \<mapsto> (key, h)),
                      rg_next := Suc (rg_next rg)\<rparr>)))"

text \<open>The key is the text of the zone's name and the derived \<^verbatim>\<open>Debug\<close> text of the configuration. The texts of
  names, strings, detailed servers and resolver options are those of their libraries.\<close>

record 'n debug_texts =
  dt_name :: "'n \<Rightarrow> string"
  dt_str :: "string \<Rightarrow> string"
  dt_server :: "name_server \<Rightarrow> string"
  dt_options :: "resolver_opts \<Rightarrow> string"

definition list_debug :: "('a \<Rightarrow> string) \<Rightarrow> 'a list \<Rightarrow> string" where
  "list_debug f xs = ''['' @ join_with '', '' (map f xs) @ '']''"

fun upstream_debug :: "'n debug_texts \<Rightarrow> upstream_dns_config \<Rightarrow> string" where
  "upstream_debug texts (Address address) = ''Address('' @ dt_str texts address @ '')''"
| "upstream_debug texts (Detailed config) = ''Detailed('' @ dt_server texts config @ '')''"

definition compact_config_debug :: "'n debug_texts \<Rightarrow> compact_forward_config \<Rightarrow> string" where
  "compact_config_debug texts config =
     ''CompactForwardConfig { upstream_dns: '' @ list_debug (upstream_debug texts) (cf_upstream_dns config)
     @ '', bootstrap_ips: '' @ list_debug ip_addr_text (cf_bootstrap_ips config)
     @ '', options: '' @ (case cf_options config of
                           None \<Rightarrow> ''None'' | Some options \<Rightarrow> ''Some('' @ dt_options texts options @ '')'') @ '' }''"

definition forwarder_key :: "'n debug_texts \<Rightarrow> 'n \<Rightarrow> compact_forward_config \<Rightarrow> string" where
  "forwarder_key texts origin config = dt_name texts origin @ '':'' @ compact_config_debug texts config"

text \<open>The last holder lets a forwarder go: it is dropped, its workers aborted.\<close>

definition release_forwarder :: "nat \<Rightarrow> ('m, 'f) registry \<Rightarrow> ('m, 'f) registry" where
  "release_forwarder i rg = rg\<lparr>rg_live := (rg_live rg)(i := None)\<rparr>"

inductive registry_reachable :: "('m, 'f) registry \<Rightarrow> bool" where
  empty: "registry_reachable registry_empty"
| share: "registry_reachable rg \<Longrightarrow> registry_reachable (snd (shared_forwarder key new_handler rg))"
| release: "registry_reachable rg \<Longrightarrow> registry_reachable (release_forwarder i rg)"

section \<open>Loading a zone\<close>

datatype 'f forwarder_ref = OwnForwarder 'f | SharedForwarder nat

datatype load_error =
    ZoneNameError string
  | ForwardBuildError string
  | UpstreamLoadError upstream_error
  | EmptyStores
  | AuthorityLoadError authority_error

text \<open>\<open>key_text\<close> gives the registry's key.\<close>

definition load_store ::
    "('res, 'n, 'f) net_libs \<Rightarrow> ('n \<Rightarrow> 'm) \<Rightarrow> ('n \<Rightarrow> compact_forward_config \<Rightarrow> string) \<Rightarrow> 'n
     \<Rightarrow> external_store_config \<Rightarrow> ('m, 'f) registry
     \<Rightarrow> (load_error + 'f forwarder_ref) \<times> ('m, 'f) registry" where
  "load_store net lower key_text origin store rg =
     (case store of
        ForwardStore config \<Rightarrow>
          (rbind (map_err ForwardBuildError (forward_build net config origin))
             (\<lambda>f. Inr (OwnForwarder f)), rg)
      | CompactForward config \<Rightarrow>
          (case shared_forwarder (key_text origin config) (recovering_new net lower origin config) rg of
             (r, rg') \<Rightarrow> (rbind (map_err UpstreamLoadError r) (\<lambda>i. Inr (SharedForwarder i)), rg'))
      | DefaultStore \<Rightarrow> (Inl EmptyStores, rg))"

fun load_stores ::
    "(external_store_config \<Rightarrow> ('m, 'f) registry \<Rightarrow> (load_error + 'w) \<times> ('m, 'f) registry)
     \<Rightarrow> ('w \<Rightarrow> load_error + 'h list) \<Rightarrow> external_store_config list \<Rightarrow> 'h list \<Rightarrow> ('m, 'f) registry
     \<Rightarrow> (load_error + 'h list) \<times> ('m, 'f) registry" where
  "load_stores load chain [] authorities rg = (Inr authorities, rg)"
| "load_stores load chain (store # stores) authorities rg =
     (case load store rg of
        (Inl e, rg') \<Rightarrow> (Inl e, rg')
      | (Inr forwarder, rg') \<Rightarrow>
          (case chain forwarder of
             Inl e \<Rightarrow> (Inl e, rg')
           | Inr chained \<Rightarrow> load_stores load chain stores (authorities @ chained) rg'))"

definition zone_load ::
    "('res, 'n, 'f) net_libs \<Rightarrow> ('n, 'm) name_libs \<Rightarrow> map_orders \<Rightarrow> (string \<Rightarrow> io_error + string)
     \<Rightarrow> ('n \<Rightarrow> compact_forward_config \<Rightarrow> string) \<Rightarrow> ('rx, 'net) compiled_rule_sets option \<Rightarrow> zone_config
     \<Rightarrow> ('m, 'f) registry
     \<Rightarrow> (load_error + ('n, 'm, 'rx, 'net, 'f forwarder_ref) handler list) \<times> ('m, 'f) registry" where
  "zone_load net names orders read_to_string key_text adblock_rules zone rg =
     (case zone_name_parse net (zone_name zone) of
        Inl e \<Rightarrow> (Inl (ZoneNameError e), rg)
      | Inr origin \<Rightarrow>
          load_stores (load_store net (lower_of_name names) key_text origin)
            (\<lambda>forwarder. case adblock_rules of
                None \<Rightarrow> Inr [H_Forwarder forwarder]
              | Some compiled \<Rightarrow>
                  map_err AuthorityLoadError
                    (build_authorities names orders read_to_string origin forwarder compiled))
            (zone_stores zone) [] rg)"

end
