(* ===== verification/Reload.thy ===== *)
theory Reload
  imports Upstream
begin

text \<open>
  Loading and reloading the running server (src/bin/astra-dns.rs): reading the configuration,
  building the catalog, the settings a reload may not change, the replacement of the catalog, and
  the main loop with its filter refresh timer. Everything the operating system and the libraries
  do is in the record \<open>system\<close>; the disk is part of the state. Times are seconds.
\<close>

section \<open>Outcomes and errors\<close>

text \<open>\<open>Panicked\<close> is a failed \<^verbatim>\<open>unwrap\<close>.\<close>

datatype 'a outcome = Panicked | Finished 'a

datatype reload_error =
    ConfigParse string
  | ConfigInvalid config_error
  | RulesFailed build_error
  | ZoneNameFailed string
  | ZoneLoadFailed load_error
  | ListenAddrsFailed config_error
  | RestartRequired "string list"
  | LogFilterFailed string

record ('rx, 'net, 'c, 'r, 'res, 'n, 'm, 'f) system =
  sys_rules :: "('rx, 'net) rule_libs"
  sys_hash :: hash_orders
  sys_fetch :: "('c, 'r) fetch_env"
  sys_net :: "('res, 'n, 'f) net_libs"
  sys_names :: "('n, 'm) name_libs"
  sys_maps :: map_orders
  sys_texts :: "'n debug_texts"
  sys_yaml :: "string \<Rightarrow> string + server_config"
  sys_level_from_str :: "string \<Rightarrow> log_level option"
  sys_log_reload :: "log_level \<Rightarrow> log_level \<Rightarrow> string + unit"
  sys_config_path :: string

definition sys_key_text ::
    "('rx, 'net, 'c, 'r, 'res, 'n, 'm, 'f) system \<Rightarrow> 'n \<Rightarrow> compact_forward_config \<Rightarrow> string" where
  "sys_key_text sys = forwarder_key (sys_texts sys)"

section \<open>Log levels\<close>

text \<open>The logging library's order: a level is below the more verbose ones.\<close>

fun verbosity :: "log_level \<Rightarrow> nat" where
  "verbosity L_Error = 0" | "verbosity L_Warn = 1" | "verbosity L_Info = 2"
| "verbosity L_Debug = 3" | "verbosity L_Trace = 4"

lemma verbosity_inj: "verbosity x = verbosity y \<Longrightarrow> x = y"
  by (cases x; cases y) auto

instantiation log_level :: linorder
begin

definition less_eq_log_level :: "log_level \<Rightarrow> log_level \<Rightarrow> bool" where
  "less_eq_log_level x y \<longleftrightarrow> verbosity x \<le> verbosity y"

definition less_log_level :: "log_level \<Rightarrow> log_level \<Rightarrow> bool" where
  "less_log_level x y \<longleftrightarrow> verbosity x < verbosity y"

instance
  by standard (auto simp: less_eq_log_level_def less_log_level_def dest: verbosity_inj)

end

definition hickory_server_level_floor :: "log_level \<Rightarrow> log_level" where
  "hickory_server_level_floor global = (if global = L_Error then L_Error else L_Warn)"

fun level_name :: "log_level \<Rightarrow> string" where
  "level_name L_Error = ''error''" | "level_name L_Warn = ''warn''" | "level_name L_Info = ''info''"
| "level_name L_Debug = ''debug''" | "level_name L_Trace = ''trace''"

text \<open>The filter is made of the default level, the environment and the directive for the server
  library; \<open>sys_log_reload\<close> is given the default level and the directive's level.\<close>

definition build_env_filter :: "log_level \<Rightarrow> log_level \<times> log_level" where
  "build_env_filter level = (level, hickory_server_level_floor level)"

section \<open>Settings\<close>

record reload_settings =
  rs_listen_addrs :: "ip_addr list"
  rs_listen_port :: port
  rs_udp_enabled :: bool
  rs_tcp_enabled :: bool
  rs_tcp_request_timeout_secs :: "64 word"
  rs_user :: "string option"
  rs_group :: "string option"
  rs_filter_refresh_interval_secs :: "64 word"
  rs_missing_filter_cache :: bool

definition effective_listen_addrs :: "server_config \<Rightarrow> config_error + ip_addr list" where
  "effective_listen_addrs cfg =
     rbind (listen_addrs_ipv4 cfg) (\<lambda>v4addr.
     rbind (listen_addrs_ipv6 cfg) (\<lambda>v6addr.
       let addrs = map V4 v4addr @ map V6 v6addr
       in Inr (sort (if addrs = [] then [V4 0, V6 0] else addrs))))"

definition settings_from_config ::
    "('rx, 'net, 'c, 'r, 'res, 'n, 'm, 'f) system \<Rightarrow> disk \<Rightarrow> server_config
     \<Rightarrow> reload_error + reload_settings" where
  "settings_from_config sys d cfg =
     rbind (map_err ListenAddrsFailed (effective_listen_addrs cfg)) (\<lambda>addrs.
       Inr \<lparr>rs_listen_addrs = addrs, rs_listen_port = listen_port cfg,
            rs_udp_enabled = (\<not> disable_udp cfg), rs_tcp_enabled = (\<not> disable_tcp cfg),
            rs_tcp_request_timeout_secs = tcp_request_timeout cfg,
            rs_user = cfg_user cfg, rs_group = cfg_group cfg,
            rs_filter_refresh_interval_secs = filter_refresh_interval_secs cfg,
            rs_missing_filter_cache =
              (case adblock_runtime_config_of cfg of
                 None \<Rightarrow> False
               | Some rc \<Rightarrow> has_uncached_filters (sys_fetch sys) rc d)\<rparr>)"

text \<open>\<^verbatim>\<open>filter_refresh_delay\<close> and \<^verbatim>\<open>next_filter_refresh\<close>: in seconds, at least one.\<close>

definition filter_refresh_delay :: "64 word \<Rightarrow> nat" where
  "filter_refresh_delay interval_secs = unat (max interval_secs 1)"

definition next_filter_refresh :: "64 word \<Rightarrow> reload_settings \<Rightarrow> nat" where
  "next_filter_refresh retry_secs settings =
     filter_refresh_delay
       (if rs_missing_filter_cache settings then retry_secs else rs_filter_refresh_interval_secs settings)"

definition changed_settings :: "reload_settings \<Rightarrow> reload_settings \<Rightarrow> string list" where
  "changed_settings old new =
     (if rs_listen_addrs old \<noteq> rs_listen_addrs new then [''listen addresses''] else [])
     @ (if rs_listen_port old \<noteq> rs_listen_port new then [''listen port''] else [])
     @ (if rs_udp_enabled old \<noteq> rs_udp_enabled new then [''UDP enable/disable state''] else [])
     @ (if rs_tcp_enabled old \<noteq> rs_tcp_enabled new then [''TCP enable/disable state''] else [])
     @ (if rs_tcp_request_timeout_secs old \<noteq> rs_tcp_request_timeout_secs new
        then [''TCP request timeout''] else [])
     @ (if rs_user old \<noteq> rs_user new then [''user''] else [])
     @ (if rs_group old \<noteq> rs_group new then [''group''] else [])"

definition ensure_reload_safe :: "reload_settings \<Rightarrow> reload_settings \<Rightarrow> reload_error + unit" where
  "ensure_reload_safe old new =
     (let changed = changed_settings old new
      in if changed = [] then Inr () else Inl (RestartRequired changed))"

section \<open>Loading\<close>

datatype filter_load_mode = LoadCacheFirst | LoadRefresh

text \<open>The catalog is the sequence of its \<^verbatim>\<open>upsert\<close> calls.\<close>

type_synonym ('n, 'm, 'rx, 'net, 'f) catalog =
  "('m \<times> ('n, 'm, 'rx, 'net, 'f forwarder_ref) handler list) list"

definition read_config ::
    "('rx, 'net, 'c, 'r, 'res, 'n, 'm, 'f) system \<Rightarrow> disk \<Rightarrow> (reload_error + server_config) outcome" where
  "read_config sys d =
     (case read_file d (sys_config_path sys) of
        Inl _ \<Rightarrow> Panicked
      | Inr yaml \<Rightarrow>
          Finished (rbind (map_err ConfigParse (sys_yaml sys yaml)) (\<lambda>cfg.
                      map_err ConfigInvalid (normalize_config (sys_net sys) cfg))))"

definition build_rules ::
    "('rx, 'net, 'c, 'r, 'res, 'n, 'm, 'f) system \<Rightarrow> filter_load_mode \<Rightarrow> server_config \<Rightarrow> disk
     \<Rightarrow> (reload_error + ('rx, 'net) compiled_rule_sets option) \<times> disk" where
  "build_rules sys mode cfg d =
     (case adblock_runtime_config_of cfg of
        None \<Rightarrow> (Inr None, d)
      | Some rc \<Rightarrow>
          (case (case mode of
                   LoadCacheFirst \<Rightarrow> compiled_build (sys_rules sys) (sys_hash sys) (sys_fetch sys) rc d
                 | LoadRefresh \<Rightarrow> compiled_refresh (sys_rules sys) (sys_hash sys) (sys_fetch sys) rc d) of
             (r, d') \<Rightarrow> (rbind (map_err RulesFailed r) (\<lambda>compiled. Inr (Some compiled)), d')))"

fun load_zones ::
    "('rx, 'net, 'c, 'r, 'res, 'n, 'm, 'f) system \<Rightarrow> disk \<Rightarrow> ('rx, 'net) compiled_rule_sets option
     \<Rightarrow> zone_config list \<Rightarrow> ('n, 'm, 'rx, 'net, 'f) catalog \<Rightarrow> ('m, 'f) registry
     \<Rightarrow> (reload_error + ('n, 'm, 'rx, 'net, 'f) catalog) \<times> ('m, 'f) registry" where
  "load_zones sys d adblock_rules [] catalog rg = (Inr catalog, rg)"
| "load_zones sys d adblock_rules (zone # zones) catalog rg =
     (case zone_name_parse (sys_net sys) (zone_name zone) of
        Inl e \<Rightarrow> (Inl (ZoneNameFailed e), rg)
      | Inr name \<Rightarrow>
          (case zone_load (sys_net sys) (sys_names sys) (sys_maps sys) (read_file d) (sys_key_text sys)
                  adblock_rules zone rg of
             (Inl e, rg') \<Rightarrow> (Inl (ZoneLoadFailed e), rg')
           | (Inr authority, rg') \<Rightarrow>
               load_zones sys d adblock_rules zones
                 (catalog @ [(lower_of_name (sys_names sys) name, authority)]) rg'))"

definition build_catalog ::
    "('rx, 'net, 'c, 'r, 'res, 'n, 'm, 'f) system \<Rightarrow> filter_load_mode \<Rightarrow> server_config \<Rightarrow> disk
     \<Rightarrow> ('m, 'f) registry
     \<Rightarrow> (reload_error + ('n, 'm, 'rx, 'net, 'f) catalog) \<times> disk \<times> ('m, 'f) registry" where
  "build_catalog sys mode cfg d rg =
     (case build_rules sys mode cfg d of
        (Inl e, d') \<Rightarrow> (Inl e, d', rg)
      | (Inr adblock_rules, d') \<Rightarrow>
          (case load_zones sys d' adblock_rules (cfg_zones cfg) [] rg of (r, rg') \<Rightarrow> (r, d', rg')))"

definition load_runtime_config ::
    "('rx, 'net, 'c, 'r, 'res, 'n, 'm, 'f) system \<Rightarrow> filter_load_mode \<Rightarrow> disk \<Rightarrow> ('m, 'f) registry
     \<Rightarrow> (reload_error + server_config \<times> ('n, 'm, 'rx, 'net, 'f) catalog) outcome
        \<times> disk \<times> ('m, 'f) registry" where
  "load_runtime_config sys mode d rg =
     (case read_config sys d of
        Panicked \<Rightarrow> (Panicked, d, rg)
      | Finished (Inl e) \<Rightarrow> (Finished (Inl e), d, rg)
      | Finished (Inr cfg) \<Rightarrow>
          (case build_catalog sys mode cfg d rg of
             (r, d', rg') \<Rightarrow> (Finished (rbind r (\<lambda>catalog. Inr (cfg, catalog))), d', rg')))"

definition validate_runtime_config ::
    "('rx, 'net, 'c, 'r, 'res, 'n, 'm, 'f) system \<Rightarrow> disk
     \<Rightarrow> (reload_error + server_config \<times> ('n, 'm, 'rx, 'net, 'f) catalog) outcome" where
  "validate_runtime_config sys d =
     (case read_config sys d of
        Panicked \<Rightarrow> Panicked
      | Finished (Inl e) \<Rightarrow> Finished (Inl e)
      | Finished (Inr cfg) \<Rightarrow>
          Finished
            (case adblock_runtime_config_of cfg of
               None \<Rightarrow> Inr (cfg, [])
             | Some rc \<Rightarrow>
                 rbind (map_err RulesFailed
                          (compiled_validate (sys_rules sys) (sys_hash sys) rc
                             :: build_error + ('rx, 'net) compiled_rule_sets))
                   (\<lambda>_. Inr (cfg, []))))"

section \<open>The running server\<close>

record ('n, 'm, 'rx, 'net, 'f) server =
  sv_catalog :: "('n, 'm, 'rx, 'net, 'f) catalog"
  sv_settings :: reload_settings
  sv_log_level :: log_level
  sv_disk :: disk
  sv_registry :: "('m, 'f) registry"

definition update_log_level ::
    "('rx, 'net, 'c, 'r, 'res, 'n, 'm, 'f) system \<Rightarrow> log_level \<Rightarrow> reload_error + unit" where
  "update_log_level sys level =
     (case build_env_filter level of
        (level, server_level) \<Rightarrow> map_err LogFilterFailed (sys_log_reload sys level server_level))"

text \<open>The steps after the new configuration and catalog are loaded: nothing is replaced until
  all checks have passed.\<close>

definition install_loaded ::
    "('rx, 'net, 'c, 'r, 'res, 'n, 'm, 'f) system \<Rightarrow> server_config
     \<Rightarrow> ('n, 'm, 'rx, 'net, 'f) catalog \<Rightarrow> ('n, 'm, 'rx, 'net, 'f) server
     \<Rightarrow> (reload_error + unit) \<times> ('n, 'm, 'rx, 'net, 'f) server" where
  "install_loaded sys cfg catalog sv =
     (case settings_from_config sys (sv_disk sv) cfg of
        Inl e \<Rightarrow> (Inl e, sv)
      | Inr new_settings \<Rightarrow>
          (case ensure_reload_safe (sv_settings sv) new_settings of
             Inl e \<Rightarrow> (Inl e, sv)
           | Inr _ \<Rightarrow>
               (let level = log_level_of (sys_level_from_str sys) cfg
                in case update_log_level sys level of
                     Inl e \<Rightarrow> (Inl e, sv)
                   | Inr _ \<Rightarrow>
                       (Inr (), sv\<lparr>sv_log_level := level, sv_catalog := catalog,
                                   sv_settings := new_settings\<rparr>))))"

definition reload_runtime_config ::
    "('rx, 'net, 'c, 'r, 'res, 'n, 'm, 'f) system \<Rightarrow> filter_load_mode
     \<Rightarrow> ('n, 'm, 'rx, 'net, 'f) server
     \<Rightarrow> (reload_error + unit) outcome \<times> ('n, 'm, 'rx, 'net, 'f) server" where
  "reload_runtime_config sys mode sv =
     (case load_runtime_config sys mode (sv_disk sv) (sv_registry sv) of
        (loaded, d, rg) \<Rightarrow>
          (let sv = sv\<lparr>sv_disk := d, sv_registry := rg\<rparr>
           in case loaded of
                Panicked \<Rightarrow> (Panicked, sv)
              | Finished (Inl e) \<Rightarrow> (Finished (Inl e), sv)
              | Finished (Inr (cfg, catalog)) \<Rightarrow> map_prod Finished id (install_loaded sys cfg catalog sv)))"

section \<open>The main loop\<close>

text \<open>\<open>Draining\<close> is the wait for the listeners after a termination signal.\<close>

datatype main_phase = Serving | Draining | Exited "string + unit" | Crashed

record ('n, 'm, 'rx, 'net, 'f) main_state =
  ms_server :: "('n, 'm, 'rx, 'net, 'f) server"
  ms_phase :: main_phase
  ms_now :: nat
  ms_timer :: nat
  ms_retry_secs :: "64 word"

definition main_start :: "('n, 'm, 'rx, 'net, 'f) server \<Rightarrow> nat \<Rightarrow> ('n, 'm, 'rx, 'net, 'f) main_state" where
  "main_start sv t =
     \<lparr>ms_server = sv, ms_phase = Serving, ms_now = t,
      ms_timer = t + next_filter_refresh 1 (sv_settings sv), ms_retry_secs = 1\<rparr>"

definition refresh_guard :: "reload_settings \<Rightarrow> bool" where
  "refresh_guard settings \<longleftrightarrow>
     rs_missing_filter_cache settings \<or> 0 < rs_filter_refresh_interval_secs settings"

definition next_retry :: "64 word \<Rightarrow> 64 word" where
  "next_retry retry_secs = min (retry_secs * 2) 30"

text \<open>After a reload that ends at time \<open>t\<close>: the retry delay and the timer.\<close>

definition after_reload ::
    "('n, 'm, 'rx, 'net, 'f) main_state \<Rightarrow> nat \<Rightarrow> 64 word
     \<Rightarrow> (reload_error + unit) outcome \<times> ('n, 'm, 'rx, 'net, 'f) server
     \<Rightarrow> ('n, 'm, 'rx, 'net, 'f) main_state" where
  "after_reload ms t retry r =
     (case r of (outcome, sv) \<Rightarrow>
        ms\<lparr>ms_server := sv, ms_now := t, ms_retry_secs := retry,
           ms_phase := (if outcome = Panicked then Crashed else ms_phase ms),
           ms_timer := t + next_filter_refresh retry (sv_settings sv)\<rparr>)"

definition on_reload_signal where
  "on_reload_signal sys t ms =
     after_reload ms t 1 (reload_runtime_config sys LoadCacheFirst (ms_server ms))"

definition on_refresh_timer where
  "on_refresh_timer sys t ms =
     (let r = reload_runtime_config sys LoadRefresh (ms_server ms)
      in after_reload ms t (if fst r = Finished (Inr ()) then 1 else next_retry (ms_retry_secs ms)) r)"

inductive main_step ::
    "('rx, 'net, 'c, 'r, 'res, 'n, 'm, 'f) system \<Rightarrow> ('n, 'm, 'rx, 'net, 'f) main_state
     \<Rightarrow> ('n, 'm, 'rx, 'net, 'f) main_state \<Rightarrow> bool"
  for sys where
  terminate: "ms_phase ms = Serving \<Longrightarrow> main_step sys ms (ms\<lparr>ms_phase := Draining\<rparr>)"
| drained: "ms_phase ms = Draining \<Longrightarrow> main_step sys ms (ms\<lparr>ms_phase := Exited r\<rparr>)"
| server_done: "ms_phase ms = Serving \<Longrightarrow> main_step sys ms (ms\<lparr>ms_phase := Exited r\<rparr>)"
| reload_signal: "ms_phase ms = Serving \<Longrightarrow> ms_now ms \<le> t \<Longrightarrow> main_step sys ms (on_reload_signal sys t ms)"
| refresh_timer: "ms_phase ms = Serving \<Longrightarrow> refresh_guard (sv_settings (ms_server ms)) \<Longrightarrow>
     ms_timer ms \<le> t \<Longrightarrow> ms_now ms \<le> t \<Longrightarrow> main_step sys ms (on_refresh_timer sys t ms)"
| files_change: "main_step sys ms (ms\<lparr>ms_server := (ms_server ms)\<lparr>sv_disk := d\<rparr>\<rparr>)"
| forwarder_released: "main_step sys ms
     (ms\<lparr>ms_server := (ms_server ms)\<lparr>sv_registry := release_forwarder i (sv_registry (ms_server ms))\<rparr>\<rparr>)"

inductive main_reachable ::
    "('rx, 'net, 'c, 'r, 'res, 'n, 'm, 'f) system \<Rightarrow> ('n, 'm, 'rx, 'net, 'f) main_state
     \<Rightarrow> ('n, 'm, 'rx, 'net, 'f) main_state \<Rightarrow> bool"
  for sys start where
  boot: "main_reachable sys start start"
| step: "main_reachable sys start ms \<Longrightarrow> main_step sys ms ms' \<Longrightarrow> main_reachable sys start ms'"

inductive_cases main_stepE: "main_step sys ms ms'"

end
