(* ===== verification/Startup.thy ===== *)
theory Startup
  imports Reload
begin

text \<open>
  Starting the server (src/bin/astra-dns.rs): the listeners and the socket calls that make them,
  dropping privileges, the start-up sequence of \<^verbatim>\<open>async_run\<close>, and the task that supervises the
  listeners. The system calls are parameters; the credentials of the process are a state they
  change.
\<close>

section \<open>Listening sockets\<close>

datatype sock_type = Stream | Datagram

datatype sock_call =
    NewSocketV4 sock_type
  | NewSocketV6 sock_type
  | SetOnlyV6 bool
  | SetNonblocking bool
  | BindTo socket_addr
  | ListenBacklog nat
  | FromStd
  | GetLocalAddr sock_type socket_addr
  | EnablePacketInfo

definition open_calls :: "sock_type \<Rightarrow> ip_addr \<Rightarrow> sock_call list" where
  "open_calls ty ip =
     (case ip of V4 _ \<Rightarrow> [NewSocketV4 ty] | V6 _ \<Rightarrow> [NewSocketV6 ty, SetOnlyV6 True])"

definition build_tcp_listener :: "ip_addr \<Rightarrow> port \<Rightarrow> sock_call list" where
  "build_tcp_listener ip p =
     open_calls Stream ip @ [SetNonblocking True, BindTo (sock_new ip p), ListenBacklog 128, FromStd]"

definition build_udp_socket :: "ip_addr \<Rightarrow> port \<Rightarrow> sock_call list" where
  "build_udp_socket ip p =
     open_calls Datagram ip @ [SetNonblocking True, BindTo (sock_new ip p), FromStd]"

text \<open>The calls are made until one fails.\<close>

fun run_calls :: "(sock_call \<Rightarrow> io_error option) \<Rightarrow> sock_call list \<Rightarrow> io_error + unit" where
  "run_calls fails [] = Inr ()"
| "run_calls fails (c # cs) = (case fails c of Some e \<Rightarrow> Inl e | None \<Rightarrow> run_calls fails cs)"

datatype listener = UdpListener ip_addr | TcpListener ip_addr

text \<open>A socket is made and bound, its local address is looked up, and a UDP socket is handed to the
  ingress, which asks for the address once more and enables packet information.\<close>

fun socket_calls :: "port \<Rightarrow> listener \<Rightarrow> sock_call list" where
  "socket_calls p (UdpListener ip) = build_udp_socket ip p"
| "socket_calls p (TcpListener ip) = build_tcp_listener ip p"

fun local_addr_call :: "port \<Rightarrow> listener \<Rightarrow> sock_call" where
  "local_addr_call p (UdpListener ip) = GetLocalAddr Datagram (sock_new ip p)"
| "local_addr_call p (TcpListener ip) = GetLocalAddr Stream (sock_new ip p)"

fun ingress_calls :: "port \<Rightarrow> listener \<Rightarrow> sock_call list" where
  "ingress_calls p (UdpListener ip) = [GetLocalAddr Datagram (sock_new ip p), EnablePacketInfo]"
| "ingress_calls p (TcpListener ip) = []"

definition listener_calls :: "port \<Rightarrow> listener \<Rightarrow> sock_call list" where
  "listener_calls p l = socket_calls p l @ [local_addr_call p l] @ ingress_calls p l"

fun listener_ip :: "listener \<Rightarrow> ip_addr" where
  "listener_ip (UdpListener ip) = ip"
| "listener_ip (TcpListener ip) = ip"

definition planned_listeners :: "server_config \<Rightarrow> reload_settings \<Rightarrow> listener list" where
  "planned_listeners cfg settings =
     (if disable_udp cfg then [] else map UdpListener (rs_listen_addrs settings))
     @ (if disable_tcp cfg then [] else map TcpListener (rs_listen_addrs settings))"

section \<open>Privileges\<close>

record creds =
  cr_uid :: "32 word"
  cr_euid :: "32 word"
  cr_gid :: "32 word"
  cr_egid :: "32 word"
  cr_groups :: "(32 word) list"

record os_accounts =
  os_getpwnam :: "string \<Rightarrow> (32 word) option"
  os_getgrnam :: "string \<Rightarrow> (32 word) option"
  os_setgid :: "32 word \<Rightarrow> creds \<Rightarrow> int \<times> creds"
  os_setuid :: "32 word \<Rightarrow> creds \<Rightarrow> int \<times> creds"

datatype priv_error =
    BadUserString string
  | BadGroupString string
  | UnknownUser string
  | UnknownGroup string
  | SetGidFailed
  | SetUidFailed
  | UserWithoutGroup

text \<open>\<^verbatim>\<open>CString::new\<close> refuses an interior NUL. Both calls are made before either result is
  looked at.\<close>

definition nul_free :: "string \<Rightarrow> bool" where
  "nul_free s \<longleftrightarrow> CHR 0x00 \<notin> set s"

definition check_drop_privs ::
    "os_accounts \<Rightarrow> string \<Rightarrow> string \<Rightarrow> creds \<Rightarrow> (priv_error + unit) \<times> creds" where
  "check_drop_privs os user grp cr =
     (if cr_uid cr = 0 \<or> cr_euid cr = 0 then
        if \<not> nul_free user then (Inl (BadUserString user), cr)
        else if \<not> nul_free grp then (Inl (BadGroupString grp), cr)
        else (case os_getpwnam os user of
                None \<Rightarrow> (Inl (UnknownUser user), cr)
              | Some pw_uid \<Rightarrow>
                  (case os_getgrnam os grp of
                     None \<Rightarrow> (Inl (UnknownGroup grp), cr)
                   | Some gr_gid \<Rightarrow>
                       (case os_setgid os gr_gid cr of (setgid_rc, cr1) \<Rightarrow>
                        case os_setuid os pw_uid cr1 of (setuid_rc, cr2) \<Rightarrow>
                          (if setgid_rc < 0 then Inl SetGidFailed
                           else if setuid_rc < 0 then Inl SetUidFailed
                           else Inr (), cr2))))
      else (Inr (), cr))"

definition drop_privileges ::
    "os_accounts \<Rightarrow> server_config \<Rightarrow> creds \<Rightarrow> (priv_error + unit) \<times> creds" where
  "drop_privileges os cfg cr =
     (case (cfg_user cfg, cfg_group cfg) of
        (Some user, Some grp) \<Rightarrow> check_drop_privs os user grp cr
      | (None, None) \<Rightarrow> (Inr (), cr)
      | _ \<Rightarrow> (Inl UserWithoutGroup, cr))"

text \<open>The documented effect of the two calls in a privileged process: either all its user or all its
  group ids are set and the call returns zero, or the call fails, for whatever reason, returns a
  negative number and changes nothing. Neither call touches the supplementary groups.\<close>

definition posix_accounts :: "os_accounts \<Rightarrow> bool" where
  "posix_accounts os \<longleftrightarrow>
     (\<forall>g cr. cr_euid cr = 0 \<longrightarrow>
        os_setgid os g cr = (0, cr\<lparr>cr_gid := g, cr_egid := g\<rparr>) \<or> (\<exists>rc < 0. os_setgid os g cr = (rc, cr)))
     \<and> (\<forall>u cr. cr_euid cr = 0 \<longrightarrow>
        os_setuid os u cr = (0, cr\<lparr>cr_uid := u, cr_euid := u\<rparr>) \<or> (\<exists>rc < 0. os_setuid os u cr = (rc, cr)))"

section \<open>Start-up\<close>

datatype startup_error =
    StartReload reload_error
  | BindFailed listener io_error
  | LocalAddrFailed io_error
  | PacketInfoFailed io_error
  | StartPrivileges priv_error

datatype 'sv startup = StartPanicked | StartFailed startup_error | Validated | Started 'sv

definition start_listener ::
    "(sock_call \<Rightarrow> io_error option) \<Rightarrow> port \<Rightarrow> listener \<Rightarrow> startup_error + unit" where
  "start_listener fails p l =
     rbind (map_err (BindFailed l) (run_calls fails (socket_calls p l))) (\<lambda>_.
     rbind (map_err LocalAddrFailed (run_calls fails [local_addr_call p l])) (\<lambda>_.
       map_err PacketInfoFailed (run_calls fails (ingress_calls p l))))"

fun bind_all ::
    "(sock_call \<Rightarrow> io_error option) \<Rightarrow> port \<Rightarrow> listener list \<Rightarrow> startup_error + unit" where
  "bind_all fails p [] = Inr ()"
| "bind_all fails p (l # ls) =
     (case start_listener fails p l of
        Inl e \<Rightarrow> Inl e
      | Inr _ \<Rightarrow> bind_all fails p ls)"

definition async_run ::
    "('rx, 'net, 'c, 'r, 'res, 'n, 'm, 'f) system \<Rightarrow> (sock_call \<Rightarrow> io_error option) \<Rightarrow> os_accounts
     \<Rightarrow> bool \<Rightarrow> disk \<Rightarrow> creds
     \<Rightarrow> (('n, 'm, 'rx, 'net, 'f) server \<times> listener list) startup \<times> creds" where
  "async_run sys fails os validate d cr =
     (case (if validate then (validate_runtime_config sys d, d, registry_empty)
            else load_runtime_config sys LoadCacheFirst d registry_empty) of
        (Panicked, _) \<Rightarrow> (StartPanicked, cr)
      | (Finished (Inl e), _) \<Rightarrow> (StartFailed (StartReload e), cr)
      | (Finished (Inr (cfg, catalog)), d, rg) \<Rightarrow>
          (let level = log_level_of (sys_level_from_str sys) cfg
           in case update_log_level sys level of
                Inl e \<Rightarrow> (StartFailed (StartReload e), cr)
              | Inr _ \<Rightarrow>
                  (case settings_from_config sys d cfg of
                     Inl e \<Rightarrow> (StartFailed (StartReload e), cr)
                   | Inr settings \<Rightarrow>
                       if validate then (Validated, cr)
                       else let listeners = planned_listeners cfg settings
                            in (case bind_all fails (rs_listen_port settings) listeners of
                                  Inl e \<Rightarrow> (StartFailed e, cr)
                                | Inr _ \<Rightarrow>
                                    (case drop_privileges os cfg cr of
                                       (Inl e, cr') \<Rightarrow> (StartFailed (StartPrivileges e), cr')
                                     | (Inr _, cr') \<Rightarrow>
                                         (Started (\<lparr>sv_catalog = catalog, sv_settings = settings,
                                                    sv_log_level = level, sv_disk = d,
                                                    sv_registry = rg\<rparr>, listeners), cr'))))))"

section \<open>Supervising the listeners\<close>

text \<open>The tasks as they end: whether shutdown had been requested by then, and the task's result
  (a task that panicked counts as an error). The result, and whether the supervisor requested
  the shutdown itself.\<close>

fun supervise :: "(bool \<times> (string + unit)) list \<Rightarrow> (string + unit) \<times> bool" where
  "supervise [] = (Inr (), False)"
| "supervise ((cancelled, r) # rest) =
     (case r of
        Inl e \<Rightarrow> (Inl e, True)
      | Inr _ \<Rightarrow>
          if \<not> cancelled then (Inl ''DNS listener stopped unexpectedly'', True)
          else supervise rest)"

definition finish_server_run :: "string \<Rightarrow> string + unit \<Rightarrow> string + unit" where
  "finish_server_run version r =
     (case r of
        Inl e \<Rightarrow> Inl (''Hickory DNS '' @ version @ '' has encountered an error: '' @ e)
      | Inr _ \<Rightarrow> Inr ())"

section \<open>What start-up guarantees\<close>

lemma listener_calls_v6_only:
  "listener_ip l = V6 a \<Longrightarrow>
   \<exists>before after. listener_calls p l = before @ BindTo (sock_new (V6 a) p) # after
     \<and> SetOnlyV6 True \<in> set before"
proof (cases l)
  case (UdpListener ip)
  assume "listener_ip l = V6 a"
  then show ?thesis
    by (intro exI [of _ "[NewSocketV6 Datagram, SetOnlyV6 True, SetNonblocking True]"]
        exI [of _ "[FromStd, GetLocalAddr Datagram (sock_new ip p), GetLocalAddr Datagram (sock_new ip p), EnablePacketInfo]"])
      (simp add: UdpListener listener_calls_def build_udp_socket_def open_calls_def)
next
  case (TcpListener ip)
  assume "listener_ip l = V6 a"
  then show ?thesis
    by (intro exI [of _ "[NewSocketV6 Stream, SetOnlyV6 True, SetNonblocking True]"]
        exI [of _ "[ListenBacklog 128, FromStd, GetLocalAddr Stream (sock_new ip p)]"])
      (simp add: TcpListener listener_calls_def build_tcp_listener_def open_calls_def)
qed

lemma supervise_Inr:
  "fst (supervise ts) = Inr () \<longleftrightarrow> (\<forall>(cancelled, r)\<in>set ts. cancelled \<and> r = Inr ())"
  by (induction ts rule: supervise.induct) (auto split: sum.splits)

lemma supervise_cancels: "snd (supervise ts) \<longleftrightarrow> fst (supervise ts) \<noteq> Inr ()"
  by (induction ts rule: supervise.induct) (auto split: sum.splits)

lemma posix_setgid_root:
  "posix_accounts os \<Longrightarrow> cr_euid cr = 0 \<Longrightarrow> os_setgid os g cr = (rc, cr') \<Longrightarrow> \<not> rc < 0 \<Longrightarrow>
   rc = 0 \<and> cr' = cr\<lparr>cr_gid := g, cr_egid := g\<rparr>"
  unfolding posix_accounts_def by (drule conjunct1, drule spec [of _ g], drule spec [of _ cr]) auto

lemma posix_setuid_root:
  "posix_accounts os \<Longrightarrow> cr_euid cr = 0 \<Longrightarrow> os_setuid os u cr = (rc, cr') \<Longrightarrow> \<not> rc < 0 \<Longrightarrow>
   rc = 0 \<and> cr' = cr\<lparr>cr_uid := u, cr_euid := u\<rparr>"
  unfolding posix_accounts_def by (drule conjunct2, drule spec [of _ u], drule spec [of _ cr]) auto

lemma check_drop_privs_root:
  assumes "posix_accounts os" and "cr_euid cr = 0" and "check_drop_privs os user grp cr = (Inr (), cr')"
  shows "os_getpwnam os user = Some (cr_uid cr') \<and> cr_euid cr' = cr_uid cr'
       \<and> os_getgrnam os grp = Some (cr_gid cr') \<and> cr_egid cr' = cr_gid cr'
       \<and> cr_groups cr' = cr_groups cr
       \<and> (\<exists>cr1. os_setgid os (cr_gid cr') cr = (0, cr1) \<and> os_setuid os (cr_uid cr') cr1 = (0, cr'))"
proof -
  obtain uid gid rc1 cr1 rc2 where ids: "os_getpwnam os user = Some uid" "os_getgrnam os grp = Some gid"
    and calls: "os_setgid os gid cr = (rc1, cr1)" "os_setuid os uid cr1 = (rc2, cr')" "\<not> rc1 < 0" "\<not> rc2 < 0"
    using assms(2,3) by (auto simp: check_drop_privs_def split: if_splits option.splits prod.splits)
  have g: "rc1 = 0 \<and> cr1 = cr\<lparr>cr_gid := gid, cr_egid := gid\<rparr>"
    using posix_setgid_root [OF assms(1,2) calls(1,3)] .
  then have "cr_euid cr1 = 0" using assms(2) by simp
  from posix_setuid_root [OF assms(1) this calls(2,4)] g ids calls show ?thesis by simp
qed

lemma check_drop_privs_kept:
  assumes "check_drop_privs os user grp cr = (r, cr')" and "cr_uid cr \<noteq> 0" and "cr_euid cr \<noteq> 0"
  shows "r = Inr () \<and> cr' = cr"
  using assms by (auto simp: check_drop_privs_def)

lemma run_calls_Inr: "run_calls fails cs = Inr () \<longleftrightarrow> (\<forall>c\<in>set cs. fails c = None)"
  by (induction cs) (auto split: option.splits)

lemma bind_all_Inr:
  "bind_all fails p ls = Inr () \<longleftrightarrow> (\<forall>l\<in>set ls. \<forall>c\<in>set (listener_calls p l). fails c = None)"
proof (induction ls)
  case (Cons l ls)
  have "start_listener fails p l = Inr () \<longleftrightarrow> (\<forall>c\<in>set (listener_calls p l). fails c = None)"
    unfolding start_listener_def listener_calls_def
    by (auto simp: rbind_Inr_iff run_calls_Inr ball_Un simp del: run_calls.simps)
  then show ?case using Cons by (cases "start_listener fails p l") auto
qed simp

lemma load_runtime_config_catalog:
  assumes "load_runtime_config sys mode d rg = (Finished (Inr (cfg, catalog)), d', rg')"
  shows "read_config sys d = Finished (Inr cfg)" and "build_catalog sys mode cfg d rg = (Inr catalog, d', rg')"
  using assms
  by (auto simp: load_runtime_config_def rbind_Inr_iff split: outcome.splits sum.splits prod.splits)

lemma async_run_started:
  assumes "async_run sys fails os validate d cr = (Started (sv, ls), cr')"
  obtains cfg where "read_config sys d = Finished (Inr cfg)"
    and "build_catalog sys LoadCacheFirst cfg d registry_empty = (Inr (sv_catalog sv), sv_disk sv, sv_registry sv)"
    and "settings_from_config sys (sv_disk sv) cfg = Inr (sv_settings sv)"
    and "ls = planned_listeners cfg (sv_settings sv)"
    and "bind_all fails (rs_listen_port (sv_settings sv)) ls = Inr ()"
    and "drop_privileges os cfg cr = (Inr (), cr')"
proof -
  obtain cfg catalog d' rg where
    l: "load_runtime_config sys LoadCacheFirst d registry_empty = (Finished (Inr (cfg, catalog)), d', rg)"
    and sv: "sv_catalog sv = catalog" "sv_disk sv = d'" "sv_registry sv = rg"
    and rest: "settings_from_config sys d' cfg = Inr (sv_settings sv)" "ls = planned_listeners cfg (sv_settings sv)"
      "bind_all fails (rs_listen_port (sv_settings sv)) ls = Inr ()" "drop_privileges os cfg cr = (Inr (), cr')"
    using assms by (auto simp: async_run_def Let_def split: if_splits prod.splits outcome.splits sum.splits)
  show thesis
    by (rule that) (use load_runtime_config_catalog [OF l] rest in \<open>simp_all add: sv\<close>)
qed

end
