(* ===== verification/Upstream_Facts.thy ===== *)
theory Upstream_Facts
  imports Upstream
begin

text \<open>
  The guarantees of the recovering forwarder: the growth of the retry delay (\<open>backoff\<close>, a
  contract the main loop's filter retries meet too), the rate limit and the bounds of the worker,
  last known addresses kept through failures, answers that never turn an outage into a denial,
  and at most one live forwarder per configuration.
\<close>

section \<open>Retry delays\<close>

locale backoff =
  fixes start :: nat and limit :: nat and grow :: "nat \<Rightarrow> nat"
  assumes start_le: "start \<le> limit"
    and start_pos: "0 < start"
    and grow_def: "b \<le> limit \<Longrightarrow> grow b = min (b * 2) limit"
begin

lemma grow_bounds: "start \<le> b \<Longrightarrow> b \<le> limit \<Longrightarrow> start \<le> grow b \<and> grow b \<le> limit"
  using start_le by (auto simp: grow_def)

lemma iterate: "(grow ^^ n) start = min (start * 2 ^ n) limit"
proof (induction n)
  case 0
  then show ?case using start_le by simp
next
  case (Suc n)
  then have "(grow ^^ Suc n) start = grow (min (start * 2 ^ n) limit)" by simp
  also have "\<dots> = min (min (start * 2 ^ n) limit * 2) limit" by (simp add: grow_def)
  finally show ?case by (auto simp: min_def)
qed

lemma iterate_bounds: "start \<le> (grow ^^ n) start \<and> (grow ^^ n) start \<le> limit"
  using start_le by (simp add: iterate)

lemma iterate_mono: "m \<le> n \<Longrightarrow> (grow ^^ m) start \<le> (grow ^^ n) start"
  unfolding iterate by (intro min.mono mult_le_mono2 power_increasing order_refl) simp_all

text \<open>From some failure on the delay stays at the limit.\<close>

lemma eventually_limit: "limit \<le> n \<Longrightarrow> (grow ^^ n) start = limit"
proof -
  assume "limit \<le> n"
  then have "limit \<le> 2 ^ n" using less_exp [of n] by (meson le_trans less_imp_le)
  also have "\<dots> \<le> start * 2 ^ n" using start_pos by simp
  finally show ?thesis by (simp add: iterate)
qed

end

interpretation bootstrap: backoff "rt_retry_min recovery_timing_default"
    "rt_retry_max recovery_timing_default" "next_backoff recovery_timing_default"
  by unfold_locales (simp_all add: recovery_timing_default_def next_backoff_def)

text \<open>A run of failed attempts: the delays it waits.\<close>

fun run_attempts ::
    "('res, 'n, 'f) net_libs \<Rightarrow> recovery_timing \<Rightarrow> 'n \<Rightarrow> resolver_opts
     \<Rightarrow> (upstream_error + name_server list) list \<Rightarrow> 'f recovery \<Rightarrow> 'f recovery \<times> nat list" where
  "run_attempts net timing origin options [] rv = (rv, [])"
| "run_attempts net timing origin options (r # rs) rv =
     (case recover_attempt net timing origin options r rv of
        (rv', delay) \<Rightarrow>
          (case run_attempts net timing origin options rs rv' of (rv'', delays) \<Rightarrow> (rv'', delay # delays)))"

lemma recover_attempt_Inl:
  "recover_attempt net timing origin options (Inl e) rv =
     (\<lparr>rv_slot = rv_slot rv, rv_backoff = next_backoff timing (rv_backoff rv), rv_failing = True\<rparr>,
      rv_backoff rv)"
  by (simp add: recover_attempt_def)

lemma run_failures:
  "list_all (\<lambda>r. \<exists>e. r = Inl e) rs \<Longrightarrow>
   run_attempts net timing origin options rs rv =
     (\<lparr>rv_slot = rv_slot rv, rv_backoff = (next_backoff timing ^^ length rs) (rv_backoff rv),
       rv_failing = (rs \<noteq> [] \<or> rv_failing rv)\<rparr>,
      map (\<lambda>k. (next_backoff timing ^^ k) (rv_backoff rv)) [0..<length rs])"
proof (induction rs arbitrary: rv)
  case Nil
  then show ?case by (cases rv) simp
next
  case (Cons r rs)
  then obtain e where r: "r = Inl e" by auto
  have tl: "list_all (\<lambda>r. \<exists>e. r = Inl e) rs" using Cons.prems by simp
  show ?case
    by (simp add: r recover_attempt_Inl Cons.IH [OF tl] funpow_swap1 map_upt_Suc comp_def
        del: upt_Suc)
qed

section \<open>The worker\<close>

lemma server_addresses_props:
  "sorted (server_addresses servers)" "distinct (server_addresses servers)"
  "set (server_addresses servers) = ns_ip ` set servers"
  by (simp_all add: server_addresses_def sort_dedup_spec)

text \<open>A slot that is filled stays filled, and only a successful attempt changes it.\<close>

lemma install_upstream_keeps:
  "install_upstream net origin options servers ready = (r, ready') \<Longrightarrow> ready \<noteq> None \<Longrightarrow> ready' \<noteq> None"
  by (auto simp: install_upstream_def Let_def split: if_splits option.splits sum.splits)

lemma install_upstream_Inl:
  "install_upstream net origin options servers ready = (Inl e, ready') \<Longrightarrow> ready' = ready"
  by (auto simp: install_upstream_def Let_def split: if_splits option.splits sum.splits)

lemma install_upstream_same:
  assumes "ready = Some r" and "ru_addresses r = server_addresses servers" and "servers \<noteq> []"
  shows "install_upstream net origin options servers ready = (Inr False, ready)"
proof -
  have "server_addresses servers \<noteq> []"
    using assms(3) server_addresses_props(3) [of servers] by auto
  then show ?thesis using assms by (simp add: install_upstream_def)
qed

lemma recover_attempt_failing_keeps:
  "recover_attempt net timing origin options result rv = (rv', delay) \<Longrightarrow> rv_failing rv' \<Longrightarrow>
   rv_slot rv' = rv_slot rv"
  by (auto simp: recover_attempt_def split: prod.splits sum.splits dest: install_upstream_Inl)

lemma recover_attempt_slot:
  "recover_attempt net timing origin options result rv = (rv', delay) \<Longrightarrow> rv_slot rv \<noteq> None \<Longrightarrow>
   rv_slot rv' \<noteq> None"
  by (auto simp: recover_attempt_def split: prod.splits sum.splits
      dest: install_upstream_keeps install_upstream_Inl)

lemma recover_attempt_delay:
  assumes "recover_attempt net timing origin options result rv = (rv', delay)"
    and "rt_retry_min timing \<le> rv_backoff rv" "rv_backoff rv \<le> rt_retry_max timing"
    and "rt_retry_min timing \<le> rt_retry_max timing" "rt_retry_max timing \<le> rt_refresh_interval timing"
  shows "rt_retry_min timing \<le> delay" "rt_retry_min timing \<le> rv_backoff rv'"
    "rv_backoff rv' \<le> rt_retry_max timing" "rv_failing rv' \<Longrightarrow> delay \<le> rt_retry_max timing"
    "\<not> rv_failing rv' \<Longrightarrow> delay = rt_refresh_interval timing"
  using assms by (auto simp: recover_attempt_def next_backoff_def split: prod.splits sum.splits)

text \<open>Attempts keep their distance: in the list of start times, the latest first, neighbours are
  at least the minimal delay apart.\<close>

definition spaced :: "nat \<Rightarrow> nat list \<Rightarrow> bool" where
  "spaced gap ts \<longleftrightarrow> (\<forall>i. Suc i < length ts \<longrightarrow> ts ! Suc i + gap \<le> ts ! i)"

lemma spaced_single [simp]: "spaced gap [t]"
  by (simp add: spaced_def)

lemma spaced_Cons: "ts \<noteq> [] \<Longrightarrow> spaced gap (t # ts) \<longleftrightarrow> hd ts + gap \<le> t \<and> spaced gap ts"
  unfolding spaced_def by (cases ts) (auto simp: less_Suc_eq_0_disj)

definition timing_ok :: "recovery_timing \<Rightarrow> bool" where
  "timing_ok timing \<longleftrightarrow>
     rt_retry_min timing \<le> rt_retry_max timing \<and> rt_retry_max timing \<le> rt_refresh_interval timing"

definition worker_ok :: "recovery_timing \<Rightarrow> 'f worker \<Rightarrow> bool" where
  "worker_ok timing w \<longleftrightarrow>
     wk_starts w \<noteq> [] \<and> hd (wk_starts w) \<le> wk_now w
     \<and> spaced (rt_retry_min timing) (wk_starts w)
     \<and> rt_retry_min timing \<le> rv_backoff (wk_recovery w)
     \<and> rv_backoff (wk_recovery w) \<le> rt_retry_max timing
     \<and> (\<forall>wake. wk_phase w = Sleeping wake \<or> wk_phase w = SleepingUnlessNotified wake \<longrightarrow>
           hd (wk_starts w) + rt_retry_min timing \<le> wake)"

lemma worker_start_ok: "timing_ok timing \<Longrightarrow> worker_ok timing (worker_start timing t)"
  by (simp add: worker_ok_def worker_start_def timing_ok_def)

lemma after_attempt_ok:
  assumes "worker_ok timing w" and "timing_ok timing" and "wk_now w \<le> t"
  shows "worker_ok timing (after_attempt net timing origin options result t w)"
proof -
  obtain rv delay where a: "recover_attempt net timing origin options result (wk_recovery w) = (rv, delay)"
    by fastforce
  note d = recover_attempt_delay [OF a]
  show ?thesis
    using assms d(1-3) by (auto simp: worker_ok_def timing_ok_def after_attempt_def a)
qed

lemma worker_step_ok:
  assumes "worker_step net timing origin options w w'" and "worker_ok timing w" and "timing_ok timing"
  shows "worker_ok timing w'"
  using assms(1)
proof cases
  case (resolved t result)
  then show ?thesis using after_attempt_ok [OF assms(2,3)] by simp
next
  case (timed_out t)
  then have "wk_now w \<le> t" by simp
  then show ?thesis using after_attempt_ok [OF assms(2,3)] timed_out(1) by simp
next
  case (slept wake t)
  then have "hd (wk_starts w) + rt_retry_min timing \<le> t"
    using assms(2) by (force simp: worker_ok_def)
  then show ?thesis using assms(2) slept by (auto simp: worker_ok_def spaced_Cons)
next
  case (notified wake t)
  then show ?thesis using assms(2) by (auto simp: worker_ok_def)
next
  case released
  then show ?thesis using assms(2) by (auto simp: worker_ok_def)
qed

lemma worker_reachable_ok:
  assumes "timing_ok timing" and "worker_reachable net timing origin options w"
  shows "worker_ok timing w"
  using assms(2) by induction (auto simp: worker_start_ok assms(1) worker_step_ok)

lemma worker_step_keeps_slot:
  assumes "worker_step net timing origin options w w'" and "rv_slot (wk_recovery w) \<noteq> None"
  shows "rv_slot (wk_recovery w') \<noteq> None"
proof -
  have after: "rv_slot (wk_recovery (after_attempt net timing origin options result t w)) \<noteq> None" for result t
    using recover_attempt_slot [OF _ assms(2)]
    by (cases "recover_attempt net timing origin options result (wk_recovery w)")
      (simp add: after_attempt_def)
  show ?thesis using assms(1) by cases (use assms(2) after in auto)
qed

section \<open>Answers\<close>

text \<open>What a task brought: an answer, a denial that is final or not, a failure, or nothing.\<close>

datatype ('e, 'a) query_outcome =
    Answer 'a
  | FinalDenial "'e lookup_error"
  | Denial "'e lookup_error"
  | Failure "'e lookup_error"
  | Nothing

fun result_outcome :: "bool \<Rightarrow> 'e lookup_error + 'a \<Rightarrow> ('e, 'a) query_outcome" where
  "result_outcome trusted (Inr a) = Answer a"
| "result_outcome trusted (Inl e) =
     (if \<not> is_negative_answer e then Failure e else if trusted then FinalDenial e else Denial e)"

definition outcome_of :: "('e, 'a) report \<Rightarrow> ('e, 'a) query_outcome" where
  "outcome_of r =
     (case rp_result r of
        Some (Continue x) \<Rightarrow> result_outcome (rp_trust_negative r) x
      | Some (Break x) \<Rightarrow> result_outcome (rp_trust_negative r) x
      | _ \<Rightarrow> Nothing)"

lemma aggregate_Cons:
  "aggregate (r # rs) negative woken =
     (case outcome_of r of
        Answer a \<Rightarrow> (Continue (Inr a), woken)
      | FinalDenial e \<Rightarrow> (Continue (Inl e), woken)
      | Denial e \<Rightarrow> aggregate rs (Some (unwrap_or e negative)) woken
      | Failure _ \<Rightarrow> aggregate rs negative (woken @ [rp_slot r])
      | Nothing \<Rightarrow> aggregate rs negative woken)"
  by (simp add: outcome_of_def split: option.split control_flow.split sum.split)

declare aggregate.simps(2) [simp del]

definition outcomes :: "('e, 'a) report list \<Rightarrow> ('e, 'a) query_outcome set" where
  "outcomes rs = outcome_of ` set rs"

lemma outcomes_simps [simp]: "outcomes [] = {}" "outcomes (r # rs) = insert (outcome_of r) (outcomes rs)"
  by (simp_all add: outcomes_def)

definition denials_of :: "('e, 'a) report list \<Rightarrow> 'e lookup_error set" where
  "denials_of rs = {e. Denial e \<in> outcomes rs \<or> FinalDenial e \<in> outcomes rs}"

lemma outcome_of_negative:
  assumes "\<not> is_negative_answer e"
  shows "outcome_of r \<noteq> Denial e" "outcome_of r \<noteq> FinalDenial e"
proof -
  have "result_outcome t x \<noteq> Denial e \<and> result_outcome t x \<noteq> FinalDenial e" for t x
    using assms by (cases x) auto
  then show "outcome_of r \<noteq> Denial e" "outcome_of r \<noteq> FinalDenial e"
    by (auto simp: outcome_of_def split: option.split control_flow.split)
qed

lemma denials_negative:
  assumes "e \<in> denials_of rs"
  shows "is_negative_answer e"
proof (rule ccontr)
  assume no: "\<not> is_negative_answer e"
  obtain r where "r \<in> set rs" "outcome_of r = Denial e \<or> outcome_of r = FinalDenial e"
    using assms by (fastforce simp: denials_of_def outcomes_def)
  then show False using outcome_of_negative [OF no, of r] by simp
qed

text \<open>The first denial that is not final.\<close>

fun first_denial :: "('e, 'a) report list \<Rightarrow> 'e lookup_error option" where
  "first_denial [] = None"
| "first_denial (r # rs) = (case outcome_of r of Denial e \<Rightarrow> Some e | _ \<Rightarrow> first_denial rs)"

lemma first_denial_Some: "first_denial rs = Some e \<Longrightarrow> e \<in> denials_of rs"
  by (induction rs) (auto simp: denials_of_def split: query_outcome.splits)

lemma first_denial_None: "first_denial rs = None \<longleftrightarrow> (\<forall>e. Denial e \<notin> outcomes rs)"
  by (induction rs) (auto split: query_outcome.splits)

definition settled :: "('e, 'a) report list \<Rightarrow> bool" where
  "settled rs \<longleftrightarrow> (\<exists>a. Answer a \<in> outcomes rs) \<or> (\<exists>e. FinalDenial e \<in> outcomes rs)"

lemma settled_simps [simp]:
  "\<not> settled []"
  "settled (r # rs) \<longleftrightarrow>
     (case outcome_of r of Answer _ \<Rightarrow> True | FinalDenial _ \<Rightarrow> True | _ \<Rightarrow> settled rs)"
  by (auto simp: settled_def split: query_outcome.splits)

text \<open>The outcomes of a lookup: an answer some upstream gave or a final denial if there is one,
  else the first denial, else a server failure.\<close>

lemma aggregate_unsettled:
  "\<not> settled rs \<Longrightarrow>
   fst (aggregate rs negative woken) =
     Continue (Inl (case negative of
       Some e \<Rightarrow> e | None \<Rightarrow> unwrap_or (LE_ResponseCode RC_ServFail) (first_denial rs)))"
proof (induction rs arbitrary: negative woken)
  case Nil
  show ?case by (cases negative) simp_all
next
  case (Cons r rs)
  then show ?case
    by (cases "outcome_of r"; cases negative) (simp_all add: aggregate_Cons)
qed

lemma aggregate_settled:
  "settled rs \<Longrightarrow>
   (\<exists>a. fst (aggregate rs negative woken) = Continue (Inr a) \<and> Answer a \<in> outcomes rs)
   \<or> (\<exists>e. fst (aggregate rs negative woken) = Continue (Inl e) \<and> FinalDenial e \<in> outcomes rs)"
proof (induction rs arbitrary: negative woken)
  case (Cons r rs)
  show ?case
  proof (cases "outcome_of r")
    case (Denial e)
    then show ?thesis
      using Cons.IH [of "Some (unwrap_or e negative)" woken] Cons.prems by (auto simp: aggregate_Cons)
  next
    case (Failure e)
    then show ?thesis
      using Cons.IH [of negative "woken @ [rp_slot r]"] Cons.prems by (auto simp: aggregate_Cons)
  next
    case Nothing
    then show ?thesis using Cons.IH [of negative woken] Cons.prems by (auto simp: aggregate_Cons)
  qed (simp_all add: aggregate_Cons)
qed simp

text \<open>An error is a denial that was really sent, or a server failure when there was none.\<close>

lemma aggregate_error:
  assumes "fst (aggregate rs None []) = Continue (Inl e)"
  shows "(is_negative_answer e \<and> e \<in> denials_of rs)
       \<or> (e = LE_ResponseCode RC_ServFail \<and> denials_of rs = {})"
proof (cases "settled rs")
  case True
  then have "e \<in> denials_of rs"
    using aggregate_settled [OF True, of None "[]"] assms by (auto simp: denials_of_def)
  then show ?thesis using denials_negative by auto
next
  case False
  then have e: "e = unwrap_or (LE_ResponseCode RC_ServFail) (first_denial rs)"
    using aggregate_unsettled [OF False, of None "[]"] assms by simp
  show ?thesis
  proof (cases "first_denial rs")
    case None
    then have "denials_of rs = {}"
      using False by (auto simp: denials_of_def first_denial_None settled_def)
    then show ?thesis using e None by simp
  next
    case (Some d)
    then show ?thesis using e first_denial_Some [OF Some] denials_negative by auto
  qed
qed

text \<open>A denial is one a task brought.\<close>

lemma denial_sent:
  assumes "e \<in> denials_of rs"
  shows "\<exists>r\<in>set rs. rp_result r \<in> {Some (Continue (Inl e)), Some (Break (Inl e))}"
proof -
  have "x = Inl e" if "result_outcome t x \<in> {Denial e, FinalDenial e}" for t and x :: "'a lookup_error + 'b"
    using that by (cases x) (auto split: if_splits)
  then have "rp_result r \<in> {Some (Continue (Inl e)), Some (Break (Inl e))}"
    if "outcome_of r \<in> {Denial e, FinalDenial e}" for r :: "('a, 'b) report"
    using that by (fastforce simp: outcome_of_def split: option.splits control_flow.splits)
  then show ?thesis using assms by (fastforce simp: denials_of_def outcomes_def)
qed

text \<open>Only slots whose upstream failed are woken.\<close>

lemma aggregate_woken:
  "set (snd (aggregate rs negative woken))
     \<subseteq> set woken \<union> {rp_slot r |r. r \<in> set rs \<and> (\<exists>e. outcome_of r = Failure e)}"
proof (induction rs arbitrary: negative woken)
  case (Cons r rs)
  show ?case
  proof (cases "outcome_of r")
    case (Failure e)
    then show ?thesis
      using Cons.IH [of negative "woken @ [rp_slot r]"] by (simp add: aggregate_Cons) blast
  next
    case (Denial e)
    then show ?thesis
      using Cons.IH [of "Some (unwrap_or e negative)" woken] by (simp add: aggregate_Cons) blast
  next
    case Nothing
    then show ?thesis using Cons.IH [of negative woken] by (simp add: aggregate_Cons) blast
  qed (auto simp: aggregate_Cons)
qed simp

lemma outcomes_mset: "mset rs = mset rs' \<Longrightarrow> outcomes rs = outcomes rs'"
  unfolding outcomes_def by (drule mset_eq_setD) simp

lemma settled_mset: "mset rs = mset rs' \<Longrightarrow> settled rs = settled rs'"
  unfolding settled_def by (drule outcomes_mset) simp

section \<open>The registry\<close>

definition registry_ok :: "('m, 'f) registry \<Rightarrow> bool" where
  "registry_ok rg \<longleftrightarrow>
     (\<forall>i x. rg_live rg i = Some x \<longrightarrow> i < rg_next rg)
     \<and> (\<forall>i k h. rg_live rg i = Some (k, h) \<longrightarrow> rg_entries rg k = Some i)
     \<and> (\<forall>k i. rg_entries rg k = Some i \<longrightarrow> i < rg_next rg)
     \<and> (\<forall>k i k' h. rg_entries rg k = Some i \<longrightarrow> rg_live rg i = Some (k', h) \<longrightarrow> k' = k)"

lemma retain_live_iff: "retain_live rg k = Some i \<longleftrightarrow> rg_entries rg k = Some i \<and> rg_live rg i \<noteq> None"
  by (auto simp: retain_live_def split: option.splits)

lemma registry_okD1: "registry_ok rg \<Longrightarrow> rg_live rg i = Some x \<Longrightarrow> i < rg_next rg"
  by (cases x) (simp only: registry_ok_def)

lemma registry_okD2: "registry_ok rg \<Longrightarrow> rg_live rg i = Some (k, h) \<Longrightarrow> rg_entries rg k = Some i"
  unfolding registry_ok_def by (elim conjE) metis

lemma registry_okD3: "registry_ok rg \<Longrightarrow> rg_entries rg k = Some i \<Longrightarrow> i < rg_next rg"
  unfolding registry_ok_def by (elim conjE) metis

lemma registry_okD4:
  "registry_ok rg \<Longrightarrow> rg_entries rg k = Some i \<Longrightarrow> rg_live rg i = Some (k', h) \<Longrightarrow> k' = k"
  unfolding registry_ok_def by (elim conjE) metis

lemma registry_okI:
  assumes "\<And>i x. rg_live rg i = Some x \<Longrightarrow> i < rg_next rg"
    and "\<And>i k h. rg_live rg i = Some (k, h) \<Longrightarrow> rg_entries rg k = Some i"
    and "\<And>k i. rg_entries rg k = Some i \<Longrightarrow> i < rg_next rg"
    and "\<And>k i k' h. rg_entries rg k = Some i \<Longrightarrow> rg_live rg i = Some (k', h) \<Longrightarrow> k' = k"
  shows "registry_ok rg"
  unfolding registry_ok_def by (intro conjI allI impI) (fact assms)+

lemma registry_ok_retain:
  assumes "registry_ok rg"
  shows "registry_ok (rg\<lparr>rg_entries := retain_live rg\<rparr>)"
  by (rule registry_okI) (auto simp: retain_live_iff dest: registry_okD1 [OF assms] registry_okD2 [OF assms]
       registry_okD3 [OF assms] registry_okD4 [OF assms])

lemma shared_forwarder_ok:
  assumes "registry_ok rg"
  shows "registry_ok (snd (shared_forwarder key new_handler rg))"
proof -
  let ?rg = "rg\<lparr>rg_entries := retain_live rg\<rparr>"
  have ok: "registry_ok ?rg" using assms by (rule registry_ok_retain)
  show ?thesis
  proof (cases "retain_live rg key")
    case None
    show ?thesis
    proof (cases new_handler)
      case (Inr h)
      let ?new = "?rg\<lparr>rg_entries := (retain_live rg)(key \<mapsto> rg_next rg),
                      rg_live := (rg_live rg)(rg_next rg \<mapsto> (key, h)), rg_next := Suc (rg_next rg)\<rparr>"
      have st: "snd (shared_forwarder key new_handler rg) = ?new"
        by (simp add: shared_forwarder_def Inr None)
      have none: "rg_live rg i \<noteq> Some (key, h')" for i h'
        using registry_okD2 [OF ok, of i key h'] None by auto
      have old: "i < rg_next rg" if "rg_live rg i = Some x \<or> retain_live rg k = Some i" for i k x
        using that registry_okD1 [OF ok, of i x] registry_okD3 [OF ok, of k i] by (cases x) auto
      show ?thesis
        unfolding st
      proof (rule registry_okI, goal_cases)
        case (1 i x)
        then show ?case using old by (fastforce split: if_splits)
      next
        case (2 i k h')
        then show ?case using none registry_okD2 [OF ok] by (auto split: if_splits)
      next
        case (3 k i)
        then show ?case using old by (fastforce split: if_splits)
      next
        case (4 k i k' h')
        then show ?case using registry_okD4 [OF ok] old by (fastforce split: if_splits)
      qed
    qed (use ok None in \<open>simp add: shared_forwarder_def\<close>)
  qed (use ok in \<open>simp add: shared_forwarder_def\<close>)
qed

lemma registry_reachable_ok: "registry_reachable rg \<Longrightarrow> registry_ok rg"
proof (induction rule: registry_reachable.induct)
  case empty
  show ?case by (rule registry_okI) (simp_all add: registry_empty_def)
next
  case (share rg key new_handler)
  show ?case by (rule shared_forwarder_ok [OF share(2)])
next
  case (release rg i)
  show ?case
    by (rule registry_okI)
      (auto simp: release_forwarder_def split: if_splits dest: registry_okD1 [OF release(2)]
       registry_okD2 [OF release(2)] registry_okD3 [OF release(2)] registry_okD4 [OF release(2)])
qed

end
