(* ===== verification/Reload_Facts.thy ===== *)
theory Reload_Facts
  imports Startup Upstream_Facts
begin

text \<open>
  What reloading guarantees: a failed reload leaves the running server as it was, the settings
  that need a restart never change while it runs, the filter timer and its retry delay stay in
  their bounds, and the catalog that answers queries was always built completely.
\<close>

section \<open>One reload\<close>

lemma changed_settings_Nil:
  "changed_settings old new = [] \<longleftrightarrow>
     rs_listen_addrs old = rs_listen_addrs new \<and> rs_listen_port old = rs_listen_port new
     \<and> rs_udp_enabled old = rs_udp_enabled new \<and> rs_tcp_enabled old = rs_tcp_enabled new
     \<and> rs_tcp_request_timeout_secs old = rs_tcp_request_timeout_secs new
     \<and> rs_user old = rs_user new \<and> rs_group old = rs_group new"
  by (simp add: changed_settings_def)

lemma ensure_reload_safe_Inr: "ensure_reload_safe old new = Inr u \<longleftrightarrow> changed_settings old new = []"
  by (simp add: ensure_reload_safe_def Let_def)

text \<open>What a restart would be needed for.\<close>

definition same_listening :: "reload_settings \<Rightarrow> reload_settings \<Rightarrow> bool" where
  "same_listening a b \<longleftrightarrow>
     (rs_listen_addrs a, rs_listen_port a, rs_udp_enabled a, rs_tcp_enabled a,
      rs_tcp_request_timeout_secs a, rs_user a, rs_group a)
     = (rs_listen_addrs b, rs_listen_port b, rs_udp_enabled b, rs_tcp_enabled b,
        rs_tcp_request_timeout_secs b, rs_user b, rs_group b)"

lemma same_listening_refl [simp]: "same_listening a a"
  by (simp add: same_listening_def)

lemma same_listening_trans: "same_listening a b \<Longrightarrow> same_listening b c \<Longrightarrow> same_listening a c"
  by (simp add: same_listening_def)

lemma same_listening_iff: "same_listening old new \<longleftrightarrow> changed_settings old new = []"
  by (simp add: same_listening_def changed_settings_Nil)

text \<open>The part of the server that queries and later reloads depend on.\<close>

definition active_view :: "('n, 'm, 'rx, 'net, 'f) server \<Rightarrow>
    ('n, 'm, 'rx, 'net, 'f) catalog \<times> reload_settings \<times> log_level" where
  "active_view sv = (sv_catalog sv, sv_settings sv, sv_log_level sv)"

lemma install_loaded_Inl:
  "install_loaded sys cfg catalog sv = (Inl e, sv') \<Longrightarrow> sv' = sv"
  by (auto simp: install_loaded_def Let_def split: sum.splits)

lemma install_loaded_Inr:
  "install_loaded sys cfg catalog sv = (Inr u, sv') \<Longrightarrow>
   \<exists>new. settings_from_config sys (sv_disk sv) cfg = Inr new \<and> same_listening (sv_settings sv) new
     \<and> sv' = sv\<lparr>sv_log_level := log_level_of (sys_level_from_str sys) cfg, sv_catalog := catalog,
                sv_settings := new\<rparr>"
  by (auto simp: install_loaded_def Let_def same_listening_iff ensure_reload_safe_Inr split: sum.splits)

lemma reload_cases:
  assumes "reload_runtime_config sys mode sv = (r, sv')"
  obtains (kept) "active_view sv' = active_view sv" "r \<noteq> Finished (Inr ())"
  | (replaced) cfg catalog d rg where "r = Finished (Inr ())"
      "load_runtime_config sys mode (sv_disk sv) (sv_registry sv) = (Finished (Inr (cfg, catalog)), d, rg)"
      "install_loaded sys cfg catalog (sv\<lparr>sv_disk := d, sv_registry := rg\<rparr>) = (Inr (), sv')"
proof -
  obtain loaded d rg where l: "load_runtime_config sys mode (sv_disk sv) (sv_registry sv) = (loaded, d, rg)"
    by (metis prod_cases3)
  let ?sv = "sv\<lparr>sv_disk := d, sv_registry := rg\<rparr>"
  consider "loaded = Panicked" | e where "loaded = Finished (Inl e)"
    | cfg catalog where "loaded = Finished (Inr (cfg, catalog))"
    by (metis obj_sumE outcome.exhaust surj_pair)
  then show thesis
  proof cases
    case 1
    then show ?thesis using assms l kept by (auto simp: reload_runtime_config_def active_view_def)
  next
    case 2
    then show ?thesis using assms l kept by (auto simp: reload_runtime_config_def active_view_def)
  next
    case (3 cfg catalog)
    obtain x sv'' where i: "install_loaded sys cfg catalog ?sv = (x, sv'')" by fastforce
    have r: "r = Finished x" "sv' = sv''"
      using assms l 3 i by (simp_all add: reload_runtime_config_def)
    show ?thesis
    proof (cases x)
      case (Inl e)
      then show ?thesis using install_loaded_Inl i r kept by (fastforce simp: active_view_def)
    next
      case (Inr u)
      then show ?thesis using replaced [of cfg catalog d rg] l 3 i r by simp
    qed
  qed
qed

lemma reload_failed:
  "reload_runtime_config sys mode sv = (r, sv') \<Longrightarrow> r \<noteq> Finished (Inr ()) \<Longrightarrow> active_view sv' = active_view sv"
  by (elim reload_cases) auto

lemma reload_succeeded:
  assumes "reload_runtime_config sys mode sv = (Finished (Inr ()), sv')"
  obtains cfg where "read_config sys (sv_disk sv) = Finished (Inr cfg)"
    and "build_catalog sys mode cfg (sv_disk sv) (sv_registry sv)
           = (Inr (sv_catalog sv'), sv_disk sv', sv_registry sv')"
    and "settings_from_config sys (sv_disk sv') cfg = Inr (sv_settings sv')"
    and "same_listening (sv_settings sv) (sv_settings sv')"
    and "sv_log_level sv' = log_level_of (sys_level_from_str sys) cfg"
  using assms
proof (cases rule: reload_cases)
  case (replaced cfg catalog d rg)
  have "read_config sys (sv_disk sv) = Finished (Inr cfg)
      \<and> build_catalog sys mode cfg (sv_disk sv) (sv_registry sv) = (Inr catalog, d, rg)"
    using replaced(2)
    by (auto simp: load_runtime_config_def rbind_Inr_iff split: outcome.splits sum.splits prod.splits)
  then show ?thesis using that [of cfg] install_loaded_Inr [OF replaced(3)] by auto
qed simp

lemma reload_same_listening:
  assumes "reload_runtime_config sys mode sv = (r, sv')"
  shows "same_listening (sv_settings sv) (sv_settings sv')"
proof (cases "r = Finished (Inr ())")
  case True
  then show ?thesis using assms by (auto elim: reload_succeeded)
next
  case False
  then show ?thesis using reload_failed [OF assms] by (simp add: active_view_def)
qed

section \<open>The timer\<close>

lemma filter_refresh_delay_pos: "1 \<le> filter_refresh_delay n"
proof -
  have "(1 :: 64 word) \<le> max n 1" by simp
  then have "unat (1 :: 64 word) \<le> unat (max n 1)" by (simp only: word_le_nat_alt)
  then show ?thesis by (simp add: filter_refresh_delay_def)
qed

lemma next_filter_refresh_pos: "1 \<le> next_filter_refresh r s"
  unfolding next_filter_refresh_def by (rule filter_refresh_delay_pos)

lemma unat_min: "unat (min a b) = min (unat a) (unat (b :: 'a::len word))"
  by (simp add: min_def word_le_nat_alt)

lemma unat_next_retry: "b \<le> 30 \<Longrightarrow> unat (next_retry (of_nat b)) = min (b * 2) 30"
proof -
  assume b: "b \<le> 30"
  then have "unat (of_nat b :: 64 word) = b" by (simp add: unat_of_nat take_bit_nat_eq_self)
  moreover have "unat ((of_nat b :: 64 word) * 2) = unat (of_nat b :: 64 word) * 2"
    using b calculation by (subst unat_mult_lem [THEN iffD1]) auto
  ultimately show ?thesis by (simp add: next_retry_def unat_min)
qed

interpretation filter_retry: backoff 1 30 "\<lambda>b. unat (next_retry (of_nat b))"
  by unfold_locales (simp_all add: unat_next_retry)

lemma next_retry_bounds:
  assumes "1 \<le> r" and "r \<le> 30"
  shows "1 \<le> next_retry r" "next_retry r \<le> 30"
proof -
  have "unat (1 :: 64 word) \<le> unat r" "unat r \<le> unat (30 :: 64 word)"
    using assms by (simp_all only: word_le_nat_alt)
  then have "1 \<le> unat (next_retry (of_nat (unat r))) \<and> unat (next_retry (of_nat (unat r))) \<le> 30"
    by (intro filter_retry.grow_bounds) simp_all
  then show "1 \<le> next_retry r" "next_retry r \<le> 30"
    by (simp_all add: word_le_nat_alt)
qed

section \<open>Invariants of the main loop\<close>

text \<open>The catalog was built to the end from some configuration and state of the disk.\<close>

definition complete_catalog ::
    "('rx, 'net, 'c, 'r, 'res, 'n, 'm, 'f) system \<Rightarrow> ('n, 'm, 'rx, 'net, 'f) catalog \<Rightarrow> bool" where
  "complete_catalog sys catalog \<longleftrightarrow>
     (\<exists>mode cfg d rg d' rg'. build_catalog sys mode cfg d rg = (Inr catalog, d', rg'))"

definition main_ok ::
    "('rx, 'net, 'c, 'r, 'res, 'n, 'm, 'f) system \<Rightarrow> reload_settings
     \<Rightarrow> ('n, 'm, 'rx, 'net, 'f) main_state \<Rightarrow> bool" where
  "main_ok sys settings ms \<longleftrightarrow>
     same_listening settings (sv_settings (ms_server ms))
     \<and> complete_catalog sys (sv_catalog (ms_server ms))
     \<and> 1 \<le> ms_retry_secs ms \<and> ms_retry_secs ms \<le> 30"

lemma after_reload_ok:
  assumes "main_ok sys settings ms" and "1 \<le> retry" and "retry \<le> 30"
    and "reload_runtime_config sys mode (ms_server ms) = r"
  shows "main_ok sys settings (after_reload ms t retry r)"
proof -
  obtain x sv' where r: "r = (x, sv')" by (cases r)
  have "same_listening (sv_settings (ms_server ms)) (sv_settings sv')"
    using assms(4) unfolding r by (rule reload_same_listening)
  then have "same_listening settings (sv_settings sv')"
    using assms(1) same_listening_trans unfolding main_ok_def by blast
  moreover have "complete_catalog sys (sv_catalog sv')"
  proof (cases "x = Finished (Inr ())")
    case True
    then show ?thesis
      using assms(4) unfolding r complete_catalog_def by (blast elim: reload_succeeded)
  next
    case False
    then have "sv_catalog sv' = sv_catalog (ms_server ms)"
      using reload_failed [of sys mode "ms_server ms" x sv'] assms(4) r by (simp add: active_view_def)
    then show ?thesis using assms(1) by (simp add: main_ok_def)
  qed
  ultimately show ?thesis using assms(2,3) by (simp add: main_ok_def after_reload_def r)
qed

lemma main_step_ok:
  assumes "main_step sys ms ms'" and "main_ok sys settings ms"
  shows "main_ok sys settings ms'"
  using assms(1)
proof cases
  case (reload_signal t)
  then show ?thesis
    using after_reload_ok [OF assms(2), of 1] by (simp add: on_reload_signal_def)
next
  case (refresh_timer t)
  have "1 \<le> ms_retry_secs ms" "ms_retry_secs ms \<le> 30"
    using assms(2) by (simp_all add: main_ok_def)
  then show ?thesis
    using refresh_timer after_reload_ok [OF assms(2)] next_retry_bounds
    by (simp add: on_refresh_timer_def Let_def)
qed (use assms(2) in \<open>simp_all add: main_ok_def\<close>)

interpretation main_runs: run_system "main_step sys" "main_reachable sys" for sys
  by unfold_locales (fact main_reachable.boot, fact main_reachable.step, erule main_reachable.induct, auto)

lemma main_reachable_ok:
  assumes "main_reachable sys start ms" and "main_ok sys settings start"
  shows "main_ok sys settings ms"
  using assms main_step_ok by (rule main_runs.invariant)

end
