(* ===== verification/Serving.thy ===== *)
theory Serving
  imports Reload_Facts
begin

text \<open>
  Queries while the server reloads (src/bin/astra-dns.rs, \<^verbatim>\<open>ReloadableCatalog\<close>): a query takes a
  reference to the catalog in service when it arrives and is answered from it, however often the
  catalog is replaced meanwhile. The system is the main loop with the queries in flight; a
  forwarder shared by reloads is dropped only with the last catalog that uses it.
\<close>

section \<open>Forwarders a catalog uses\<close>

definition shared_refs :: "('n, 'm, 'rx, 'net, 'f forwarder_ref) handler list \<Rightarrow> nat set" where
  "shared_refs hs = {i. H_Forwarder (SharedForwarder i) \<in> set hs}"

definition catalog_refs :: "('n, 'm, 'rx, 'net, 'f) catalog \<Rightarrow> nat set" where
  "catalog_refs catalog = (\<Union>zone\<in>set catalog. shared_refs (snd zone))"

lemma shared_refs_simps [simp]:
  "shared_refs [] = {}" "shared_refs (hs @ hs') = shared_refs hs \<union> shared_refs hs'"
  "shared_refs [H_Forwarder (SharedForwarder i)] = {i}" "shared_refs [H_Forwarder (OwnForwarder f)] = {}"
  by (auto simp: shared_refs_def)

lemma catalog_refs_simps [simp]:
  "catalog_refs [] = {}" "catalog_refs (catalog @ catalog') = catalog_refs catalog \<union> catalog_refs catalog'"
  "catalog_refs [(apex, hs)] = shared_refs hs"
  by (auto simp: catalog_refs_def)

text \<open>Loading never drops a forwarder.\<close>

definition live_kept :: "('m, 'f) registry \<Rightarrow> ('m, 'f) registry \<Rightarrow> bool" where
  "live_kept rg rg' \<longleftrightarrow> (\<forall>i x. rg_live rg i = Some x \<longrightarrow> rg_live rg' i = Some x)"

definition refs_live :: "nat set \<Rightarrow> ('m, 'f) registry \<Rightarrow> bool" where
  "refs_live is rg \<longleftrightarrow> (\<forall>i\<in>is. rg_live rg i \<noteq> None)"

lemma live_kept_refl [simp]: "live_kept rg rg"
  by (simp add: live_kept_def)

lemma live_kept_trans: "live_kept rg rg' \<Longrightarrow> live_kept rg' rg'' \<Longrightarrow> live_kept rg rg''"
  by (simp add: live_kept_def)

lemma refs_live_kept: "refs_live is rg \<Longrightarrow> live_kept rg rg' \<Longrightarrow> refs_live is rg'"
  by (fastforce simp: refs_live_def live_kept_def)

lemma refs_live_simps [simp]:
  "refs_live {} rg" "refs_live (is \<union> js) rg \<longleftrightarrow> refs_live is rg \<and> refs_live js rg"
  by (auto simp: refs_live_def)

lemma shared_forwarder_live:
  assumes "registry_ok rg" and "shared_forwarder key new_handler rg = (r, rg')"
  shows "live_kept rg rg'" and "r = Inr i \<Longrightarrow> refs_live {i} rg'"
proof -
  have fresh: "rg_live rg (rg_next rg) = None"
    using registry_okD1 [OF assms(1), of "rg_next rg"] by (cases "rg_live rg (rg_next rg)") auto
  show "live_kept rg rg'"
    using assms(2) fresh
    by (auto simp: shared_forwarder_def Let_def live_kept_def split: option.splits sum.splits)
  show "refs_live {i} rg'" if "r = Inr i"
    using assms(2) that
    by (auto simp: shared_forwarder_def Let_def refs_live_def retain_live_iff split: option.splits sum.splits)
qed

lemma load_store_live:
  assumes "registry_ok rg" and "load_store net lower key_text origin store rg = (r, rg')"
  shows "registry_ok rg'" and "live_kept rg rg'"
    and "r = Inr (SharedForwarder i) \<Longrightarrow> refs_live {i} rg'"
proof -
  have "registry_ok rg' \<and> live_kept rg rg' \<and> (r = Inr (SharedForwarder i) \<longrightarrow> refs_live {i} rg')"
  proof (cases store)
    case (CompactForward config)
    obtain r1 rg1 where s: "shared_forwarder (key_text origin config) (recovering_new net lower origin config) rg
        = (r1, rg1)" by fastforce
    have "registry_ok rg1" using shared_forwarder_ok [OF assms(1)] s by (metis snd_conv)
    then show ?thesis
      using assms(2) s CompactForward shared_forwarder_live [OF assms(1) s]
      by (auto simp: load_store_def rbind_Inr_iff)
  qed (use assms in \<open>auto simp: load_store_def rbind_Inr_iff\<close>)
  then show "registry_ok rg'" "live_kept rg rg'" "r = Inr (SharedForwarder i) \<Longrightarrow> refs_live {i} rg'"
    by blast+
qed

lemma load_stores_live:
  assumes "load_stores (load_store net lower key_text origin) chain stores hs rg = (r, rg')"
    and "registry_ok rg" and "refs_live (shared_refs hs) rg"
    and "\<And>forwarder hs i. chain forwarder = Inr hs \<Longrightarrow> i \<in> shared_refs hs \<Longrightarrow> forwarder = SharedForwarder i"
  shows "registry_ok rg' \<and> live_kept rg rg' \<and> (\<forall>hs'. r = Inr hs' \<longrightarrow> refs_live (shared_refs hs') rg')"
  using assms(1-3)
proof (induction stores arbitrary: hs rg)
  case (Cons store stores)
  obtain r1 rg1 where l: "load_store net lower key_text origin store rg = (r1, rg1)" by fastforce
  note l1 = load_store_live [OF Cons.prems(2) l]
  show ?case
  proof (cases r1)
    case (Inl e)
    then show ?thesis using Cons.prems l l1 by auto
  next
    case (Inr forwarder)
    show ?thesis
    proof (cases "chain forwarder")
      case (Inl e)
      then show ?thesis using Cons.prems l l1 Inr by auto
    next
      case chained: (Inr hs1)
      have "refs_live (shared_refs hs1) rg1"
        using assms(4) [OF chained] l1(3) Inr by (auto simp: refs_live_def)
      then have "refs_live (shared_refs (hs @ hs1)) rg1"
        using refs_live_kept [OF Cons.prems(3) l1(2)] by simp
      then show ?thesis
        using Cons.IH [OF _ l1(1)] Cons.prems(1) l Inr chained live_kept_trans [OF l1(2)] by fastforce
    qed
  qed
qed auto

lemma build_authorities_refs:
  "build_authorities names orders read origin forwarder compiled = Inr hs \<Longrightarrow> i \<in> shared_refs hs \<Longrightarrow>
   forwarder = SharedForwarder i"
  by (auto simp: build_authorities_def rbind_Inr_iff shared_refs_def opt_handler_def split: option.splits)

lemma zone_load_live:
  assumes "zone_load net names orders read key_text adblock_rules zone rg = (r, rg')" and "registry_ok rg"
  shows "registry_ok rg' \<and> live_kept rg rg' \<and> (\<forall>hs. r = Inr hs \<longrightarrow> refs_live (shared_refs hs) rg')"
proof (cases "zone_name_parse net (zone_name zone)")
  case (Inr origin)
  show ?thesis
    using assms(1) [unfolded zone_load_def Inr, simplified] assms(2)
    by (rule load_stores_live)
      (auto split: option.splits dest: build_authorities_refs simp: shared_refs_def)
qed (use assms in \<open>auto simp: zone_load_def\<close>)

lemma load_zones_live:
  assumes "load_zones sys d adblock_rules zones catalog rg = (r, rg')"
    and "registry_ok rg" and "refs_live (catalog_refs catalog) rg"
  shows "registry_ok rg' \<and> live_kept rg rg' \<and> (\<forall>c. r = Inr c \<longrightarrow> refs_live (catalog_refs c) rg')"
  using assms
proof (induction zones arbitrary: catalog rg)
  case (Cons zone zones)
  show ?case
  proof (cases "zone_name_parse (sys_net sys) (zone_name zone)")
    case (Inl e)
    then show ?thesis using Cons.prems by auto
  next
    case (Inr name)
    obtain r1 rg1 where z: "zone_load (sys_net sys) (sys_names sys) (sys_maps sys) (read_file d) (sys_key_text sys)
        adblock_rules zone rg = (r1, rg1)" by fastforce
    note z1 = zone_load_live [OF z Cons.prems(2)]
    show ?thesis
    proof (cases r1)
      case (Inl e)
      then show ?thesis using Cons.prems Inr z z1 by auto
    next
      case authority: (Inr hs)
      let ?c = "catalog @ [(lower_of_name (sys_names sys) name, hs)]"
      have "refs_live (catalog_refs ?c) rg1"
        using refs_live_kept [OF Cons.prems(3)] z1 authority by simp
      then show ?thesis
        using Cons.IH [of ?c rg1] Cons.prems(1) Inr z z1 authority live_kept_trans by fastforce
    qed
  qed
qed auto

lemma build_catalog_live:
  assumes "build_catalog sys mode cfg d rg = (r, d', rg')" and "registry_ok rg"
  shows "registry_ok rg' \<and> live_kept rg rg' \<and> (\<forall>c. r = Inr c \<longrightarrow> refs_live (catalog_refs c) rg')"
  using assms load_zones_live [of sys _ _ "cfg_zones cfg" "[]" rg]
  by (fastforce simp: build_catalog_def split: prod.splits sum.splits)

lemma release_forwarder_ok: "registry_ok rg \<Longrightarrow> registry_ok (release_forwarder i rg)"
  by (rule registry_okI)
    (auto simp: release_forwarder_def split: if_splits
     dest: registry_okD1 registry_okD2 registry_okD3 registry_okD4)

section \<open>Reloads keep the forwarders alive\<close>

lemma load_runtime_config_live:
  assumes "load_runtime_config sys mode d rg = (r, d', rg')" and "registry_ok rg"
  shows "registry_ok rg' \<and> live_kept rg rg'
     \<and> (\<forall>cfg c. r = Finished (Inr (cfg, c)) \<longrightarrow> refs_live (catalog_refs c) rg')"
  using assms build_catalog_live [OF _ assms(2)]
  by (fastforce simp: load_runtime_config_def rbind_Inr_iff split: outcome.splits sum.splits prod.splits)

text \<open>The server's catalog only refers to forwarders in the registry.\<close>

definition server_live :: "('n, 'm, 'rx, 'net, 'f) server \<Rightarrow> bool" where
  "server_live sv \<longleftrightarrow> registry_ok (sv_registry sv) \<and> refs_live (catalog_refs (sv_catalog sv)) (sv_registry sv)"

lemma install_loaded_live:
  assumes "install_loaded sys cfg catalog sv = (r, sv')"
  shows "sv_registry sv' = sv_registry sv" and "sv_catalog sv' \<in> {sv_catalog sv, catalog}"
  using assms by (auto simp: install_loaded_def Let_def split: sum.splits)

lemma reload_live:
  assumes "reload_runtime_config sys mode sv = (r, sv')" and "server_live sv"
  shows "server_live sv' \<and> live_kept (sv_registry sv) (sv_registry sv')"
proof -
  obtain loaded d rg where l: "load_runtime_config sys mode (sv_disk sv) (sv_registry sv) = (loaded, d, rg)"
    by (metis prod_cases3)
  note ok = assms(2) [unfolded server_live_def]
  note live = load_runtime_config_live [OF l conjunct1 [OF ok]]
  have old: "refs_live (catalog_refs (sv_catalog sv)) rg"
    using refs_live_kept ok live by blast
  show ?thesis
  proof (cases "\<exists>cfg c. loaded = Finished (Inr (cfg, c))")
    case True
    then obtain cfg c where c: "loaded = Finished (Inr (cfg, c))" by blast
    have i: "snd (install_loaded sys cfg c (sv\<lparr>sv_disk := d, sv_registry := rg\<rparr>)) = sv'"
      using assms(1) l c
      by (cases "install_loaded sys cfg c (sv\<lparr>sv_disk := d, sv_registry := rg\<rparr>)")
        (auto simp: reload_runtime_config_def)
    then show ?thesis
      using install_loaded_live [OF surjective_pairing [of "install_loaded sys cfg c (sv\<lparr>sv_disk := d, sv_registry := rg\<rparr>)"]]
        live old c
      by (auto simp: server_live_def)
  next
    case False
    then have "sv' = sv\<lparr>sv_disk := d, sv_registry := rg\<rparr>"
      using assms(1) l
      by (auto simp: reload_runtime_config_def Let_def split: outcome.splits sum.splits prod.splits)
    then show ?thesis using live old by (simp add: server_live_def)
  qed
qed

section \<open>Queries in flight\<close>

text \<open>\<open>sg_inflight\<close> has the queries being answered, each with the catalog it holds;
  \<open>sg_answered\<close> those that are done.\<close>

record ('n, 'm, 'rx, 'net, 'f, 'q, 'a) serving_state =
  sg_main :: "('n, 'm, 'rx, 'net, 'f) main_state"
  sg_inflight :: "('q \<times> ('n, 'm, 'rx, 'net, 'f) catalog) list"
  sg_answered :: "('q \<times> ('n, 'm, 'rx, 'net, 'f) catalog \<times> 'a) list"

definition current_catalog ::
    "('n, 'm, 'rx, 'net, 'f, 'q, 'a) serving_state \<Rightarrow> ('n, 'm, 'rx, 'net, 'f) catalog" where
  "current_catalog s = sv_catalog (ms_server (sg_main s))"

abbreviation current_registry :: "('n, 'm, 'rx, 'net, 'f, 'q, 'a) serving_state \<Rightarrow> ('m, 'f) registry" where
  "current_registry s \<equiv> sv_registry (ms_server (sg_main s))"

definition serving_start ::
    "('n, 'm, 'rx, 'net, 'f) main_state \<Rightarrow> ('n, 'm, 'rx, 'net, 'f, 'q, 'a) serving_state" where
  "serving_start ms = \<lparr>sg_main = ms, sg_inflight = [], sg_answered = []\<rparr>"

text \<open>A forwarder lives as long as a catalog holds it: the one in service or that of a query.\<close>

definition in_use :: "('n, 'm, 'rx, 'net, 'f, 'q, 'a) serving_state \<Rightarrow> nat set" where
  "in_use s = catalog_refs (current_catalog s) \<union> (\<Union>query\<in>set (sg_inflight s). catalog_refs (snd query))"

definition dropped :: "('m, 'f) registry \<Rightarrow> ('m, 'f) registry \<Rightarrow> nat set" where
  "dropped rg rg' = {i. rg_live rg i \<noteq> None \<and> rg_live rg' i = None}"

definition catalog_request ::
    "'q \<Rightarrow> ('n, 'm, 'rx, 'net, 'f, 'q, 'a) serving_state \<Rightarrow> ('n, 'm, 'rx, 'net, 'f, 'q, 'a) serving_state" where
  "catalog_request q s = s\<lparr>sg_inflight := sg_inflight s @ [(q, current_catalog s)]\<rparr>"

definition in_operation :: "('n, 'm, 'rx, 'net, 'f, 'q, 'a) serving_state \<Rightarrow> bool" where
  "in_operation s \<longleftrightarrow> ms_phase (sg_main s) = Serving \<or> ms_phase (sg_main s) = Draining"

text \<open>\<open>answers\<close> relates a catalog and a query to the responses the server library may give. Queries
  are cancelled when their listener stops.\<close>

inductive serving_step ::
    "('rx, 'net, 'c, 'r, 'res, 'n, 'm, 'f) system
     \<Rightarrow> (('n, 'm, 'rx, 'net, 'f) catalog \<Rightarrow> 'q \<Rightarrow> 'a \<Rightarrow> bool)
     \<Rightarrow> ('n, 'm, 'rx, 'net, 'f, 'q, 'a) serving_state
     \<Rightarrow> ('n, 'm, 'rx, 'net, 'f, 'q, 'a) serving_state \<Rightarrow> bool"
  for sys answers where
  control: "main_step sys (sg_main s) ms \<Longrightarrow>
     dropped (current_registry s) (sv_registry (ms_server ms)) \<inter> in_use s = {} \<Longrightarrow>
     serving_step sys answers s (s\<lparr>sg_main := ms\<rparr>)"
| arrive: "in_operation s \<Longrightarrow> serving_step sys answers s (catalog_request q s)"
| answer: "in_operation s \<Longrightarrow> sg_inflight s = before @ (q, catalog) # after \<Longrightarrow> answers catalog q a \<Longrightarrow>
     serving_step sys answers s
       (s\<lparr>sg_inflight := before @ after, sg_answered := (q, catalog, a) # sg_answered s\<rparr>)"
| cancelled: "serving_step sys answers s (s\<lparr>sg_inflight := filter keep (sg_inflight s)\<rparr>)"

inductive serving_reachable ::
    "('rx, 'net, 'c, 'r, 'res, 'n, 'm, 'f) system
     \<Rightarrow> (('n, 'm, 'rx, 'net, 'f) catalog \<Rightarrow> 'q \<Rightarrow> 'a \<Rightarrow> bool)
     \<Rightarrow> ('n, 'm, 'rx, 'net, 'f, 'q, 'a) serving_state
     \<Rightarrow> ('n, 'm, 'rx, 'net, 'f, 'q, 'a) serving_state \<Rightarrow> bool"
  for sys answers start where
  boot: "serving_reachable sys answers start start"
| step: "serving_reachable sys answers start s \<Longrightarrow> serving_step sys answers s s' \<Longrightarrow>
     serving_reachable sys answers start s'"

text \<open>Seen from the main loop, the system runs as the main loop alone.\<close>

lemma serving_start_main [simp]: "sg_main (serving_start ms) = ms"
  by (simp add: serving_start_def)

interpretation serving_runs: run_system "serving_step sys answers" "serving_reachable sys answers" for sys answers
  by unfold_locales (fact serving_reachable.boot, fact serving_reachable.step, erule serving_reachable.induct, auto)

interpretation serving_main: simulation "serving_step sys answers" "serving_reachable sys answers"
    "main_step sys" "main_reachable sys" sg_main for sys answers
  by unfold_locales (auto elim!: serving_step.cases simp: catalog_request_def)

section \<open>Every catalog in use keeps its forwarders\<close>

definition serving_live :: "('n, 'm, 'rx, 'net, 'f, 'q, 'a) serving_state \<Rightarrow> bool" where
  "serving_live s \<longleftrightarrow> registry_ok (current_registry s) \<and> refs_live (in_use s) (current_registry s)"

lemma server_live_current: "serving_live s \<Longrightarrow> server_live (ms_server (sg_main s))"
  by (auto simp: serving_live_def server_live_def in_use_def current_catalog_def)

lemma refs_live_dropped:
  "refs_live is rg \<Longrightarrow> dropped rg rg' \<inter> is = {} \<Longrightarrow> refs_live is rg'"
  unfolding refs_live_def dropped_def disjoint_iff mem_Collect_eq by metis

lemma refs_live_mono: "refs_live is rg \<Longrightarrow> js \<subseteq> is \<Longrightarrow> refs_live js rg"
  unfolding refs_live_def by blast

lemma live_kept_dropped: "live_kept rg rg' \<Longrightarrow> dropped rg rg' = {}"
  by (fastforce simp: live_kept_def dropped_def)

lemma after_reload_server: "ms_server (after_reload ms t retry r) = snd r"
  by (simp add: after_reload_def split: prod.split)

text \<open>A step of the main loop keeps a catalog whose forwarders are alive.\<close>

lemma main_step_live:
  assumes "main_step sys ms ms'" and "server_live (ms_server ms)"
  shows "registry_ok (sv_registry (ms_server ms'))"
    and "dropped (sv_registry (ms_server ms)) (sv_registry (ms_server ms')) \<inter> catalog_refs (sv_catalog (ms_server ms)) = {}
         \<Longrightarrow> server_live (ms_server ms')"
proof -
  have reload: "server_live (ms_server (after_reload ms t retry (reload_runtime_config sys mode (ms_server ms))))"
    for t retry mode
    unfolding after_reload_server using reload_live [OF surjective_pairing assms(2)] by blast
  have old: "registry_ok (sv_registry (ms_server ms))"
    "refs_live (catalog_refs (sv_catalog (ms_server ms))) (sv_registry (ms_server ms))"
    using assms(2) by (simp_all add: server_live_def)
  show "registry_ok (sv_registry (ms_server ms'))"
    using assms(1)
    by cases (use reload old in
      \<open>auto simp: on_reload_signal_def on_refresh_timer_def Let_def server_live_def release_forwarder_ok\<close>)
  assume kept: "dropped (sv_registry (ms_server ms)) (sv_registry (ms_server ms'))
      \<inter> catalog_refs (sv_catalog (ms_server ms)) = {}"
  show "server_live (ms_server ms')"
    using assms(1)
    by cases (use reload old kept refs_live_dropped [OF old(2) kept] in
      \<open>auto simp: on_reload_signal_def on_refresh_timer_def Let_def server_live_def release_forwarder_ok\<close>)
qed

lemma serving_step_live:
  assumes "serving_step sys answers s s'" and "serving_live s"
  shows "serving_live s'"
  using assms(1)
proof cases
  case (control ms)
  note live = main_step_live [OF control(2) server_live_current [OF assms(2)]]
  have "server_live (ms_server ms)"
    using live(2) control(3) by (auto simp: in_use_def current_catalog_def)
  moreover have "refs_live (in_use s) (sv_registry (ms_server ms))"
    using refs_live_dropped control(3) assms(2) unfolding serving_live_def by blast
  ultimately show ?thesis
    by (simp add: control(1) serving_live_def server_live_def in_use_def current_catalog_def)
next
  case (arrive q)
  then have "in_use s' \<subseteq> in_use s" by (auto simp: catalog_request_def in_use_def current_catalog_def)
  then show ?thesis
    using assms(2) refs_live_mono by (auto simp: arrive(1) serving_live_def catalog_request_def)
next
  case (answer before q catalog after a)
  then have "in_use s' \<subseteq> in_use s" by (auto simp: in_use_def current_catalog_def)
  then show ?thesis
    using assms(2) refs_live_mono by (auto simp: answer(1) serving_live_def)
next
  case (cancelled keep)
  then have "in_use s' \<subseteq> in_use s" by (auto simp: in_use_def current_catalog_def)
  then show ?thesis
    using assms(2) refs_live_mono by (auto simp: cancelled(1) serving_live_def)
qed

text \<open>Queries in flight never hold a reload up.\<close>

lemma reload_not_delayed:
  assumes "serving_live s" and "ms_phase (sg_main s) = Serving" and "ms_now (sg_main s) \<le> t"
  shows "serving_step sys answers s (s\<lparr>sg_main := on_reload_signal sys t (sg_main s)\<rparr>)"
proof (rule serving_step.control)
  have "live_kept (current_registry s)
      (sv_registry (snd (reload_runtime_config sys LoadCacheFirst (ms_server (sg_main s)))))"
    using reload_live [OF surjective_pairing server_live_current [OF assms(1)]] by blast
  then show "dropped (current_registry s) (sv_registry (ms_server (on_reload_signal sys t (sg_main s)))) \<inter> in_use s = {}"
    by (simp add: on_reload_signal_def after_reload_server live_kept_dropped)
qed (use assms(2,3) in \<open>auto intro: main_step.reload_signal\<close>)

text \<open>The query arrived at a moment when the catalog was in service.\<close>

definition arrived_under ::
    "('rx, 'net, 'c, 'r, 'res, 'n, 'm, 'f) system
     \<Rightarrow> (('n, 'm, 'rx, 'net, 'f) catalog \<Rightarrow> 'q \<Rightarrow> 'a \<Rightarrow> bool)
     \<Rightarrow> ('n, 'm, 'rx, 'net, 'f, 'q, 'a) serving_state \<Rightarrow> ('n, 'm, 'rx, 'net, 'f, 'q, 'a) serving_state
     \<Rightarrow> 'q \<Rightarrow> ('n, 'm, 'rx, 'net, 'f) catalog \<Rightarrow> bool" where
  "arrived_under sys answers start s q catalog \<longleftrightarrow>
     (\<exists>s'. serving_reachable sys answers start s' \<and> in_operation s' \<and> current_catalog s' = catalog
         \<and> serving_reachable sys answers (catalog_request q s') s)"

lemma arrived_under_step:
  "arrived_under sys answers start s q c \<Longrightarrow> serving_step sys answers s s' \<Longrightarrow> arrived_under sys answers start s' q c"
  unfolding arrived_under_def by (blast intro: serving_reachable.step)

lemma arrived_under_arrive:
  "serving_reachable sys answers start s \<Longrightarrow> in_operation s \<Longrightarrow>
   arrived_under sys answers start (catalog_request q s) q (current_catalog s)"
  unfolding arrived_under_def by (blast intro: serving_reachable.boot)

lemma arrived_under_complete:
  assumes "arrived_under sys answers start s q c" and "main_ok sys settings (sg_main start)"
  shows "complete_catalog sys c"
  using assms main_reachable_ok [OF serving_main.run_simulates assms(2)]
  by (auto simp: arrived_under_def current_catalog_def main_ok_def)

lemma serving_reachable_served:
  assumes "serving_reachable sys answers start s" and "sg_inflight start = []" and "sg_answered start = []"
  shows "(\<forall>(q, c)\<in>set (sg_inflight s). arrived_under sys answers start s q c)
     \<and> (\<forall>(q, c, a)\<in>set (sg_answered s). arrived_under sys answers start s q c \<and> answers c q a)"
  using assms(1)
proof induction
  case (step s s')
  note kept = arrived_under_step [OF _ step(2)]
  show ?case
    using step(2)
  proof cases
    case (arrive q)
    then show ?thesis
      using step.IH kept arrived_under_arrive [OF step(1)] by (fastforce simp: catalog_request_def)
  next
    case (answer before q catalog after a)
    have "sg_inflight s' = before @ after" "sg_answered s' = (q, catalog, a) # sg_answered s"
      by (simp_all add: answer(1))
    then show ?thesis using step.IH answer(3,4) kept by fastforce
  next
    case (control ms)
    have "sg_inflight s' = sg_inflight s" "sg_answered s' = sg_answered s" by (simp_all add: control(1))
    then show ?thesis using step.IH kept by fastforce
  next
    case (cancelled keep)
    have "set (sg_inflight s') \<subseteq> set (sg_inflight s)" "sg_answered s' = sg_answered s"
      by (auto simp: cancelled(1))
    then show ?thesis using step.IH kept by fastforce
  qed
qed (use assms(2,3) in simp)

lemma started_serving_ok:
  assumes "async_run sys fails os validate d cr = (Started (sv, listeners), cr')"
    and "serving_reachable sys answers (serving_start (main_start sv t)) s"
  shows "serving_live s" and "main_ok sys (sv_settings sv) (main_start sv t)"
proof -
  obtain cfg where b: "build_catalog sys LoadCacheFirst cfg d registry_empty
      = (Inr (sv_catalog sv), sv_disk sv, sv_registry sv)"
    using assms(1) by (rule async_run_started)
  show "main_ok sys (sv_settings sv) (main_start sv t)"
    using b unfolding main_ok_def complete_catalog_def by (simp add: main_start_def) blast
  have "serving_live (serving_start (main_start sv t))"
    using build_catalog_live [OF b registry_reachable_ok [OF registry_reachable.empty]]
    by (simp add: serving_live_def serving_start_def main_start_def in_use_def current_catalog_def)
  with assms(2) show "serving_live s" using serving_step_live by (rule serving_runs.invariant)
qed

lemma started_served:
  assumes "async_run sys fails os validate d cr = (Started (sv, listeners), cr')"
    and "serving_reachable sys answers (serving_start (main_start sv t)) s"
  shows "(q, c) \<in> set (sg_inflight s) \<Longrightarrow>
       arrived_under sys answers (serving_start (main_start sv t)) s q c \<and> complete_catalog sys c"
    and "(q, c, a) \<in> set (sg_answered s) \<Longrightarrow>
       arrived_under sys answers (serving_start (main_start sv t)) s q c \<and> complete_catalog sys c \<and> answers c q a"
proof -
  note served = serving_reachable_served [OF assms(2)]
  have complete: "complete_catalog sys c"
    if "arrived_under sys answers (serving_start (main_start sv t)) s q c" for q c
    by (rule arrived_under_complete [OF that]) (use started_serving_ok(2) [OF assms] in simp)
  show "arrived_under sys answers (serving_start (main_start sv t)) s q c \<and> complete_catalog sys c"
    if "(q, c) \<in> set (sg_inflight s)"
    using served that complete by (fastforce simp: serving_start_def)
  show "arrived_under sys answers (serving_start (main_start sv t)) s q c \<and> complete_catalog sys c \<and> answers c q a"
    if "(q, c, a) \<in> set (sg_answered s)"
    using served that complete by (fastforce simp: serving_start_def)
qed

end
