(* ===== verification/Forwarder_System.thy ===== *)
theory Forwarder_System
  imports Upstream_Facts
begin

text \<open>
  A recovering forwarder at work (src/upstream.rs): its workers, the wake-up permits of its slots
  and any number of lookups run together. A lookup takes the forwarders that are ready when it
  starts and collects their answers as they come; a slot whose forwarder failed is notified, and
  the permit stays until the slot's worker takes it. Every interleaving is a run.
\<close>

section \<open>Slots and lookups in flight\<close>

text \<open>A slot is fixed when its addresses are known from the configuration; others belong to a
  worker.\<close>

datatype 'f live_slot = Fixed "'f ready_upstream" | Recovered "'f worker"

fun current_slot :: "'f live_slot \<Rightarrow> 'f slot" where
  "current_slot (Fixed ready) = Some ready"
| "current_slot (Recovered w) = rv_slot (wk_recovery w)"

text \<open>The tasks of a lookup that have not reported yet, and the denial it remembers.
  \<open>lk_snapshot\<close>, \<open>lk_reports\<close> and \<open>lk_woken\<close> are its history.\<close>

record ('q, 'f, 'e, 'a) lookup_task =
  lk_query :: 'q
  lk_pending :: "(nat \<times> 'f ready_upstream) list"
  lk_negative :: "'e lookup_error option"
  lk_snapshot :: "'f slot list"
  lk_reports :: "('e, 'a) report list"
  lk_woken :: "nat list"

definition ready_slots :: "'f slot list \<Rightarrow> (nat \<times> 'f ready_upstream) list" where
  "ready_slots slots = List.map_filter (\<lambda>(i, ready). map_option (Pair i) ready) (enumerate 0 slots)"

definition lookup_start :: "'q \<Rightarrow> 'f slot list \<Rightarrow> ('q, 'f, 'e, 'a) lookup_task" where
  "lookup_start q slots =
     \<lparr>lk_query = q, lk_pending = ready_slots slots, lk_negative = None,
      lk_snapshot = slots, lk_reports = [], lk_woken = []\<rparr>"

text \<open>One turn of the loop over the tasks: the answer if the loop returns, the remembered denial,
  and whether the slot is notified.\<close>

definition process_report ::
    "('e, 'a) report \<Rightarrow> 'e lookup_error option \<Rightarrow> ('e, 'a) control_flow option \<times> 'e lookup_error option \<times> bool" where
  "process_report r negative =
     (case rp_result r of
        None \<Rightarrow> (None, negative, False)
      | Some Skip \<Rightarrow> (None, negative, False)
      | Some (Continue (Inr answer)) \<Rightarrow> (Some (Continue (Inr answer)), negative, False)
      | Some (Break (Inr answer)) \<Rightarrow> (Some (Continue (Inr answer)), negative, False)
      | Some (Continue (Inl err)) \<Rightarrow>
          (if is_negative_answer err
           then if rp_trust_negative r then (Some (Continue (Inl err)), negative, False)
                else (None, Some (unwrap_or err negative), False)
           else (None, negative, True))
      | Some (Break (Inl err)) \<Rightarrow>
          (if is_negative_answer err
           then if rp_trust_negative r then (Some (Continue (Inl err)), negative, False)
                else (None, Some (unwrap_or err negative), False)
           else (None, negative, True)))"

definition report_of :: "('e, 'a) control_flow option \<Rightarrow> nat \<times> 'f ready_upstream \<Rightarrow> ('e, 'a) report" where
  "report_of result task =
     \<lparr>rp_slot = fst task, rp_result = result, rp_trust_negative = ru_trust_negative (snd task)\<rparr>"

definition exhausted_answer :: "'e lookup_error option \<Rightarrow> ('e, 'a) control_flow" where
  "exhausted_answer negative = Continue (Inl (unwrap_or (LE_ResponseCode RC_ServFail) negative))"

section \<open>The system\<close>

text \<open>\<open>fs_answers\<close> records finished lookups: the query, the slots it saw, the reports it got, the
  tasks it gave up, and its answer.\<close>

record ('q, 'f, 'e, 'a) finished_lookup =
  fl_query :: 'q
  fl_snapshot :: "'f slot list"
  fl_reports :: "('e, 'a) report list"
  fl_given_up :: "(nat \<times> 'f ready_upstream) list"
  fl_answer :: "('e, 'a) control_flow"

record ('q, 'f, 'e, 'a) forwarder_state =
  fs_slots :: "'f live_slot list"
  fs_permits :: "nat set"
  fs_lookups :: "('q, 'f, 'e, 'a) lookup_task list"
  fs_answers :: "('q, 'f, 'e, 'a) finished_lookup list"
  fs_now :: nat

definition forwarder_start ::
    "recovery_timing \<Rightarrow> nat \<Rightarrow> ('m, 'f) recovering_forwarder \<Rightarrow> ('q, 'f, 'e, 'a) forwarder_state" where
  "forwarder_start timing t rf =
     \<lparr>fs_slots = map (\<lambda>ready. case ready of None \<Rightarrow> Recovered (worker_start timing t) | Some r \<Rightarrow> Fixed r)
                    (rf_slots rf),
      fs_permits = {}, fs_lookups = [], fs_answers = [], fs_now = t\<rparr>"

definition stop_worker :: "'f live_slot \<Rightarrow> 'f live_slot" where
  "stop_worker slot =
     (case slot of Fixed r \<Rightarrow> Fixed r | Recovered w \<Rightarrow> Recovered (w\<lparr>wk_phase := Stopped\<rparr>))"

definition set_worker ::
    "nat \<Rightarrow> nat \<Rightarrow> 'f worker \<Rightarrow> ('q, 'f, 'e, 'a) forwarder_state \<Rightarrow> ('q, 'f, 'e, 'a) forwarder_state" where
  "set_worker i t w s = s\<lparr>fs_slots := (fs_slots s)[i := Recovered w], fs_now := t\<rparr>"

definition finish_lookup ::
    "('q, 'f, 'e, 'a) lookup_task \<Rightarrow> ('e, 'a) report list \<Rightarrow> (nat \<times> 'f ready_upstream) list
     \<Rightarrow> ('e, 'a) control_flow \<Rightarrow> ('q, 'f, 'e, 'a) finished_lookup" where
  "finish_lookup lk rs given_up answer =
     \<lparr>fl_query = lk_query lk, fl_snapshot = lk_snapshot lk, fl_reports = rs,
      fl_given_up = given_up, fl_answer = answer\<rparr>"

text \<open>\<open>replies f q x\<close>: forwarder \<open>f\<close> may answer the query \<open>q\<close> by \<open>x\<close>. A task whose result is
  \<open>None\<close> panicked. When a lookup returns, its other tasks are aborted.\<close>

inductive forwarder_step ::
    "('res, 'n, 'f) net_libs \<Rightarrow> recovery_timing \<Rightarrow> 'n \<Rightarrow> resolver_opts
     \<Rightarrow> ('f \<Rightarrow> 'q \<Rightarrow> ('e, 'a) control_flow \<Rightarrow> bool)
     \<Rightarrow> ('q, 'f, 'e, 'a) forwarder_state \<Rightarrow> ('q, 'f, 'e, 'a) forwarder_state \<Rightarrow> bool"
  for net timing origin options replies where
  attempt_ends: "i < length (fs_slots s) \<Longrightarrow> fs_slots s ! i = Recovered w \<Longrightarrow> wk_phase w = Attempting \<Longrightarrow>
     fs_now s \<le> t \<Longrightarrow>
     (result = Inl BootstrapTimedOut \<Longrightarrow> wk_now w + rt_bootstrap_timeout timing \<le> t) \<Longrightarrow>
     forwarder_step net timing origin options replies s
       (set_worker i t (after_attempt net timing origin options result t w) s)"
| sleep_ends: "i < length (fs_slots s) \<Longrightarrow> fs_slots s ! i = Recovered w \<Longrightarrow>
     wk_phase w = Sleeping wake \<or> wk_phase w = SleepingUnlessNotified wake \<Longrightarrow> wake \<le> t \<Longrightarrow> fs_now s \<le> t \<Longrightarrow>
     forwarder_step net timing origin options replies s
       (set_worker i t (w\<lparr>wk_phase := Attempting, wk_now := t, wk_starts := t # wk_starts w\<rparr>) s)"
| permit_taken: "i < length (fs_slots s) \<Longrightarrow> fs_slots s ! i = Recovered w \<Longrightarrow>
     wk_phase w = SleepingUnlessNotified wake \<Longrightarrow> i \<in> fs_permits s \<Longrightarrow> fs_now s \<le> t \<Longrightarrow>
     forwarder_step net timing origin options replies s
       (set_worker i t (w\<lparr>wk_phase := Sleeping (hd (wk_starts w) + rt_retry_min timing), wk_now := t\<rparr>) s
          \<lparr>fs_permits := fs_permits s - {i}\<rparr>)"
| lookup_starts: "forwarder_step net timing origin options replies s
     (s\<lparr>fs_lookups := fs_lookups s @ [lookup_start q (map current_slot (fs_slots s))]\<rparr>)"
| task_reports: "fs_lookups s = lks @ lk # lks' \<Longrightarrow> lk_pending lk = ts @ task # ts' \<Longrightarrow>
     (\<And>x. result = Some x \<Longrightarrow> replies (ru_forwarder (snd task)) (lk_query lk) x) \<Longrightarrow>
     r = report_of result task \<Longrightarrow> process_report r (lk_negative lk) = (None, negative, notify) \<Longrightarrow>
     forwarder_step net timing origin options replies s
       (s\<lparr>fs_lookups := lks @ lk\<lparr>lk_pending := ts @ ts', lk_negative := negative,
                                lk_reports := lk_reports lk @ [r],
                                lk_woken := lk_woken lk @ (if notify then [fst task] else [])\<rparr> # lks',
          fs_permits := fs_permits s \<union> (if notify then {fst task} else {})\<rparr>)"
| task_settles: "fs_lookups s = lks @ lk # lks' \<Longrightarrow> lk_pending lk = ts @ task # ts' \<Longrightarrow>
     (\<And>x. result = Some x \<Longrightarrow> replies (ru_forwarder (snd task)) (lk_query lk) x) \<Longrightarrow>
     r = report_of result task \<Longrightarrow> process_report r (lk_negative lk) = (Some answer, negative, notify) \<Longrightarrow>
     forwarder_step net timing origin options replies s
       (s\<lparr>fs_lookups := lks @ lks',
          fs_answers := finish_lookup lk (lk_reports lk @ [r]) (ts @ ts') answer # fs_answers s\<rparr>)"
| tasks_exhausted: "fs_lookups s = lks @ lk # lks' \<Longrightarrow> lk_pending lk = [] \<Longrightarrow>
     forwarder_step net timing origin options replies s
       (s\<lparr>fs_lookups := lks @ lks',
          fs_answers := finish_lookup lk (lk_reports lk) [] (exhausted_answer (lk_negative lk)) # fs_answers s\<rparr>)"
| lookup_cancelled: "fs_lookups s = lks @ lk # lks' \<Longrightarrow>
     forwarder_step net timing origin options replies s (s\<lparr>fs_lookups := lks @ lks'\<rparr>)"
| forwarder_dropped: "fs_lookups s = [] \<Longrightarrow>
     forwarder_step net timing origin options replies s (s\<lparr>fs_slots := map stop_worker (fs_slots s)\<rparr>)"

inductive forwarder_reachable ::
    "('res, 'n, 'f) net_libs \<Rightarrow> recovery_timing \<Rightarrow> 'n \<Rightarrow> resolver_opts
     \<Rightarrow> ('f \<Rightarrow> 'q \<Rightarrow> ('e, 'a) control_flow \<Rightarrow> bool)
     \<Rightarrow> ('q, 'f, 'e, 'a) forwarder_state \<Rightarrow> ('q, 'f, 'e, 'a) forwarder_state \<Rightarrow> bool"
  for net timing origin options replies start where
  boot: "forwarder_reachable net timing origin options replies start start"
| step: "forwarder_reachable net timing origin options replies start s \<Longrightarrow>
     forwarder_step net timing origin options replies s s' \<Longrightarrow>
     forwarder_reachable net timing origin options replies start s'"

inductive_cases forwarder_stepE: "forwarder_step net timing origin options replies s s'"

interpretation forwarder_runs: run_system "forwarder_step net timing origin options replies" "forwarder_reachable net timing origin options replies" for net timing origin options replies
  by unfold_locales (fact forwarder_reachable.boot, fact forwarder_reachable.step, erule forwarder_reachable.induct, auto)

section \<open>Workers in the system\<close>

text \<open>Every slot's worker runs as it runs alone.\<close>

definition workers_run ::
    "('res, 'n, 'f) net_libs \<Rightarrow> recovery_timing \<Rightarrow> 'n \<Rightarrow> resolver_opts \<Rightarrow> ('q, 'f, 'e, 'a) forwarder_state \<Rightarrow> bool" where
  "workers_run net timing origin options s \<longleftrightarrow>
     (\<forall>w. Recovered w \<in> set (fs_slots s) \<longrightarrow>
        worker_reachable net timing origin options w \<and> wk_now w \<le> fs_now s)"

lemma workers_run_set:
  assumes "workers_run net timing origin options s" and "worker_reachable net timing origin options w'"
    and "wk_now w' \<le> t" and "fs_now s \<le> t"
  shows "workers_run net timing origin options (set_worker i t w' s)"
  using assms set_update_subset_insert [of "fs_slots s" i "Recovered w'"]
  by (fastforce simp: workers_run_def set_worker_def)

lemma workers_run_nth:
  assumes "workers_run net timing origin options s" and "i < length (fs_slots s)" and "fs_slots s ! i = Recovered w"
  shows "worker_reachable net timing origin options w" and "wk_now w \<le> fs_now s"
  using assms nth_mem by (metis workers_run_def)+

lemma after_attempt_now [simp]:
  "wk_now (after_attempt net timing origin options result t w) = t"
  by (simp add: after_attempt_def split: prod.split)

lemma forwarder_step_workers:
  assumes "forwarder_step net timing origin options replies s s'" and "workers_run net timing origin options s"
  shows "workers_run net timing origin options s'"
  using assms(1)
proof cases
  case (attempt_ends i w t result)
  note run = workers_run_nth [OF assms(2) attempt_ends(2,3)]
  have "worker_step net timing origin options w (after_attempt net timing origin options result t w)"
    by (rule worker_step.resolved [OF attempt_ends(4) order_trans [OF run(2) attempt_ends(5)]])
  then show ?thesis
    unfolding attempt_ends(1) using workers_run_set [OF assms(2)] worker_reachable.step [OF run(1)] attempt_ends(5)
    by simp
next
  case (sleep_ends i w wake t)
  note run = workers_run_nth [OF assms(2) sleep_ends(2,3)]
  have "worker_step net timing origin options w (w\<lparr>wk_phase := Attempting, wk_now := t, wk_starts := t # wk_starts w\<rparr>)"
    by (rule worker_step.slept [OF sleep_ends(4,5) order_trans [OF run(2) sleep_ends(6)]])
  then show ?thesis
    unfolding sleep_ends(1) using workers_run_set [OF assms(2)] worker_reachable.step [OF run(1)] sleep_ends(6)
    by simp
next
  case (permit_taken i w wake t)
  let ?w = "w\<lparr>wk_phase := Sleeping (hd (wk_starts w) + rt_retry_min timing), wk_now := t\<rparr>"
  note run = workers_run_nth [OF assms(2) permit_taken(2,3)]
  have "worker_step net timing origin options w ?w"
    by (rule worker_step.notified [OF permit_taken(4) order_trans [OF run(2) permit_taken(6)]])
  then have "workers_run net timing origin options (set_worker i t ?w s)"
    using workers_run_set [OF assms(2)] worker_reachable.step [OF run(1)] permit_taken(6) by simp
  then show ?thesis by (simp add: permit_taken(1) workers_run_def)
next
  case forwarder_dropped
  have "worker_reachable net timing origin options (w\<lparr>wk_phase := Stopped\<rparr>) \<and> wk_now w \<le> fs_now s"
    if "Recovered w \<in> set (fs_slots s)" for w
    using that assms(2) by (auto simp: workers_run_def intro: worker_reachable.step [OF _ worker_step.released])
  then show ?thesis
    by (auto simp: forwarder_dropped(1) workers_run_def stop_worker_def split: live_slot.splits)
qed (use assms(2) in \<open>simp_all add: workers_run_def\<close>)

lemma forwarder_start_workers: "workers_run net timing origin options (forwarder_start timing t rf)"
  by (auto simp: workers_run_def forwarder_start_def worker_start_def split: option.splits
      intro: worker_reachable.started [unfolded worker_start_def])

lemma forwarder_reachable_workers:
  assumes "forwarder_reachable net timing origin options replies (forwarder_start timing t rf) s"
  shows "workers_run net timing origin options s"
  using assms forwarder_start_workers forwarder_step_workers by (rule forwarder_runs.invariant)

section \<open>What the system keeps\<close>

lemma stopped_slot [simp]: "current_slot (stop_worker slot) = current_slot slot"
  by (cases slot) (simp_all add: stop_worker_def)

text \<open>The slots seen from outside change only by an attempt, and a ready slot stays ready.\<close>

lemma after_attempt_slot:
  "rv_slot (wk_recovery w) \<noteq> None \<Longrightarrow>
   rv_slot (wk_recovery (after_attempt net timing origin options result t w)) \<noteq> None"
  using recover_attempt_slot [of net timing origin options result "wk_recovery w"]
  by (cases "recover_attempt net timing origin options result (wk_recovery w)") (simp add: after_attempt_def)

lemma forwarder_step_slots:
  assumes "forwarder_step net timing origin options replies s s'" and "i < length (fs_slots s)"
    and "current_slot (fs_slots s ! i) \<noteq> None"
  shows "length (fs_slots s') = length (fs_slots s) \<and> current_slot (fs_slots s' ! i) \<noteq> None"
  using assms(1)
proof cases
  case (attempt_ends j w t result)
  then show ?thesis
    using assms(2,3) after_attempt_slot [of w] by (auto simp: set_worker_def nth_list_update)
next
  case (sleep_ends j w wake t)
  then show ?thesis using assms(2,3) by (auto simp: set_worker_def nth_list_update)
next
  case (permit_taken j w wake t)
  then show ?thesis using assms(2,3) by (auto simp: set_worker_def nth_list_update)
qed (use assms(2,3) in auto)

text \<open>A permit stays until its worker takes it, and the worker then tries again a minimal delay
  after its latest attempt began.\<close>

lemma permit_kept:
  assumes "forwarder_step net timing origin options replies s s'" and "i \<in> fs_permits s" and "i \<notin> fs_permits s'"
  shows "\<exists>w. i < length (fs_slots s') \<and> fs_slots s' ! i = Recovered w
     \<and> wk_phase w = Sleeping (hd (wk_starts w) + rt_retry_min timing)"
  using assms(1)
proof cases
  case (permit_taken j w wake t)
  then show ?thesis using assms(2,3) by (auto simp: set_worker_def)
qed (use assms(2,3) in \<open>auto simp: set_worker_def\<close>)

lemma permit_can_be_taken:
  assumes "i < length (fs_slots s)" and "fs_slots s ! i = Recovered w"
    and "wk_phase w = SleepingUnlessNotified wake" and "i \<in> fs_permits s"
  shows "\<exists>s'. forwarder_step net timing origin options replies s s' \<and> i \<notin> fs_permits s'
     \<and> fs_slots s' ! i =
         Recovered (w\<lparr>wk_phase := Sleeping (hd (wk_starts w) + rt_retry_min timing), wk_now := fs_now s\<rparr>)"
proof -
  let ?w = "w\<lparr>wk_phase := Sleeping (hd (wk_starts w) + rt_retry_min timing), wk_now := fs_now s\<rparr>"
  have "forwarder_step net timing origin options replies s
      (set_worker i (fs_now s) ?w s\<lparr>fs_permits := fs_permits s - {i}\<rparr>)"
    by (rule forwarder_step.permit_taken [OF assms order_refl])
  then show ?thesis
    by (rule exI [where x = "set_worker i (fs_now s) ?w s\<lparr>fs_permits := fs_permits s - {i}\<rparr>", OF conjI])
      (use assms(1) in \<open>simp add: set_worker_def\<close>)
qed

section \<open>Lookups in the system\<close>

text \<open>A turn of the loop is a step of \<open>aggregate\<close>.\<close>

lemma aggregate_process:
  "process_report r negative = (answer, negative', notify) \<Longrightarrow>
   aggregate (r # rs) negative woken =
     (case answer of
        Some x \<Rightarrow> (x, woken)
      | None \<Rightarrow> aggregate rs negative' (woken @ (if notify then [rp_slot r] else [])))"
  by (auto simp: process_report_def aggregate.simps(2) split: option.splits control_flow.splits sum.splits if_splits)

definition possible_report ::
    "('f \<Rightarrow> 'q \<Rightarrow> ('e, 'a) control_flow \<Rightarrow> bool) \<Rightarrow> 'q \<Rightarrow> ('e, 'a) report \<Rightarrow> nat \<times> 'f ready_upstream \<Rightarrow> bool" where
  "possible_report replies q r task \<longleftrightarrow>
     (\<exists>result. r = report_of result task \<and> (\<forall>x. result = Some x \<longrightarrow> replies (ru_forwarder (snd task)) q x))"

text \<open>\<open>ts\<close> are the tasks that reported, in the order of their reports.\<close>

definition reports_so_far ::
    "('f \<Rightarrow> 'q \<Rightarrow> ('e, 'a) control_flow \<Rightarrow> bool) \<Rightarrow> 'q \<Rightarrow> 'f slot list \<Rightarrow> ('e, 'a) report list
     \<Rightarrow> (nat \<times> 'f ready_upstream) list \<Rightarrow> bool" where
  "reports_so_far replies q slots rs pending \<longleftrightarrow>
     (\<exists>ts. mset (ts @ pending) = mset (ready_slots slots) \<and> list_all2 (possible_report replies q) rs ts)"

lemma reports_so_far_Nil: "reports_so_far replies q slots [] (ready_slots slots)"
  by (auto simp: reports_so_far_def)

lemma reports_so_far_snoc:
  assumes "reports_so_far replies q slots rs (ts @ task # ts')" and "possible_report replies q r task"
  shows "reports_so_far replies q slots (rs @ [r]) (ts @ ts')"
proof -
  obtain us where "mset (us @ ts @ task # ts') = mset (ready_slots slots)"
    "list_all2 (possible_report replies q) rs us"
    using assms(1) by (auto simp: reports_so_far_def)
  then show ?thesis
    unfolding reports_so_far_def using assms(2)
    by (intro exI [of _ "us @ [task]"]) (auto intro: list_all2_appendI)
qed

definition lookup_ok ::
    "('f \<Rightarrow> 'q \<Rightarrow> ('e, 'a) control_flow \<Rightarrow> bool) \<Rightarrow> ('q, 'f, 'e, 'a) lookup_task \<Rightarrow> bool" where
  "lookup_ok replies lk \<longleftrightarrow>
     reports_so_far replies (lk_query lk) (lk_snapshot lk) (lk_reports lk) (lk_pending lk)
     \<and> (\<forall>rs. aggregate (lk_reports lk @ rs) None [] = aggregate rs (lk_negative lk) (lk_woken lk))"

definition finished_ok ::
    "('f \<Rightarrow> 'q \<Rightarrow> ('e, 'a) control_flow \<Rightarrow> bool) \<Rightarrow> ('q, 'f, 'e, 'a) finished_lookup \<Rightarrow> bool" where
  "finished_ok replies fl \<longleftrightarrow>
     reports_so_far replies (fl_query fl) (fl_snapshot fl) (fl_reports fl) (fl_given_up fl)
     \<and> (\<forall>rs. fst (aggregate (fl_reports fl @ (if fl_given_up fl = [] then [] else rs)) None []) = fl_answer fl)"

lemma lookup_start_ok: "lookup_ok replies (lookup_start q slots)"
  by (simp add: lookup_ok_def lookup_start_def reports_so_far_Nil)

lemma possible_reportI:
  "r = report_of result task \<Longrightarrow> (\<And>x. result = Some x \<Longrightarrow> replies (ru_forwarder (snd task)) q x) \<Longrightarrow>
   possible_report replies q r task"
  by (auto simp: possible_report_def)

lemma aggregate_snoc:
  assumes "\<And>rs. aggregate (done @ rs) None [] = aggregate rs negative woken"
    and "process_report r negative = (answer, negative', notify)"
  shows "aggregate ((done @ [r]) @ rs) None [] =
     (case answer of
        Some x \<Rightarrow> (x, woken)
      | None \<Rightarrow> aggregate rs negative' (woken @ (if notify then [rp_slot r] else [])))"
  using assms(1) [of "r # rs"] aggregate_process [OF assms(2), of rs woken] by simp

definition lookups_ok ::
    "('f \<Rightarrow> 'q \<Rightarrow> ('e, 'a) control_flow \<Rightarrow> bool) \<Rightarrow> ('q, 'f, 'e, 'a) forwarder_state \<Rightarrow> bool" where
  "lookups_ok replies s \<longleftrightarrow>
     (\<forall>lk\<in>set (fs_lookups s). lookup_ok replies lk) \<and> (\<forall>fl\<in>set (fs_answers s). finished_ok replies fl)"

lemma forwarder_step_lookups:
  assumes "forwarder_step net timing origin options replies s s'" and "lookups_ok replies s"
  shows "lookups_ok replies s'"
  using assms(1)
proof cases
  case (lookup_starts q)
  then show ?thesis using assms(2) by (auto simp: lookups_ok_def lookup_start_ok)
next
  case (task_reports lks lk lks' ts task ts' result r negative notify)
  have lk: "lookup_ok replies lk" using assms(2) task_reports(2) by (simp add: lookups_ok_def)
  have poss: "possible_report replies (lk_query lk) r task"
    by (rule possible_reportI [OF task_reports(5)]) (rule task_reports(4))
  have slot: "rp_slot r = fst task" by (simp add: task_reports(5) report_of_def)
  have "reports_so_far replies (lk_query lk) (lk_snapshot lk) (lk_reports lk @ [r]) (ts @ ts')"
    by (rule reports_so_far_snoc [OF _ poss]) (use lk task_reports(3) in \<open>simp add: lookup_ok_def\<close>)
  moreover have "aggregate ((lk_reports lk @ [r]) @ rs) None []
      = aggregate rs negative (lk_woken lk @ (if notify then [fst task] else []))" for rs
    using aggregate_snoc [OF _ task_reports(6), of "lk_reports lk" "lk_woken lk" rs] lk slot
    by (simp add: lookup_ok_def)
  ultimately show ?thesis
    using assms(2) task_reports(2) by (auto simp: task_reports(1) lookups_ok_def lookup_ok_def)
next
  case (task_settles lks lk lks' ts task ts' result r answer negative notify)
  have lk: "lookup_ok replies lk" using assms(2) task_settles(2) by (simp add: lookups_ok_def)
  have poss: "possible_report replies (lk_query lk) r task"
    by (rule possible_reportI [OF task_settles(5)]) (rule task_settles(4))
  have "reports_so_far replies (lk_query lk) (lk_snapshot lk) (lk_reports lk @ [r]) (ts @ ts')"
    by (rule reports_so_far_snoc [OF _ poss]) (use lk task_settles(3) in \<open>simp add: lookup_ok_def\<close>)
  moreover have "fst (aggregate ((lk_reports lk @ [r]) @ rs) None []) = answer" for rs
    using aggregate_snoc [OF _ task_settles(6), of "lk_reports lk" "lk_woken lk" rs] lk
    by (simp add: lookup_ok_def)
  ultimately have "finished_ok replies (finish_lookup lk (lk_reports lk @ [r]) (ts @ ts') answer)"
    unfolding finished_ok_def finish_lookup_def by simp
  then show ?thesis using assms(2) task_settles(2) by (simp add: task_settles(1) lookups_ok_def)
next
  case (tasks_exhausted lks lk lks')
  have lk: "lookup_ok replies lk" using assms(2) tasks_exhausted(2) by (simp add: lookups_ok_def)
  have "fst (aggregate (lk_reports lk) None []) = exhausted_answer (lk_negative lk)"
    using lk [unfolded lookup_ok_def, THEN conjunct2, rule_format, of "[]"] by (simp add: exhausted_answer_def)
  then have "finished_ok replies (finish_lookup lk (lk_reports lk) [] (exhausted_answer (lk_negative lk)))"
    using lk tasks_exhausted(3) by (simp add: finished_ok_def finish_lookup_def lookup_ok_def)
  then show ?thesis using assms(2) tasks_exhausted(2) by (simp add: tasks_exhausted(1) lookups_ok_def)
qed (use assms(2) in \<open>simp_all add: lookups_ok_def set_worker_def\<close>)

lemma forwarder_start_lookups: "lookups_ok replies (forwarder_start timing t rf)"
  by (simp add: lookups_ok_def forwarder_start_def)

lemma forwarder_reachable_lookups:
  assumes "forwarder_reachable net timing origin options replies (forwarder_start timing t rf) s"
  shows "lookups_ok replies s"
  using assms forwarder_start_lookups forwarder_step_lookups by (rule forwarder_runs.invariant)

text \<open>The tasks a finished lookup gave up report nothing.\<close>

lemma finished_lookup_reports:
  assumes "finished_ok replies fl"
  shows "\<exists>ts rs. mset ts = mset (ready_slots (fl_snapshot fl))
     \<and> list_all2 (possible_report replies (fl_query fl)) rs ts
     \<and> fst (aggregate rs None []) = fl_answer fl"
proof -
  obtain ts where ts: "mset (ts @ fl_given_up fl) = mset (ready_slots (fl_snapshot fl))"
    "list_all2 (possible_report replies (fl_query fl)) (fl_reports fl) ts"
    using assms by (auto simp: finished_ok_def reports_so_far_def)
  let ?rs = "map (report_of None) (fl_given_up fl)"
  have "list_all2 (possible_report replies (fl_query fl)) ?rs (fl_given_up fl)"
    by (simp add: list_all2_conv_all_nth possible_report_def) blast
  then have "list_all2 (possible_report replies (fl_query fl)) (fl_reports fl @ ?rs) (ts @ fl_given_up fl)"
    using ts(2) by (rule list_all2_appendI [rotated])
  moreover have "fst (aggregate (fl_reports fl @ ?rs) None []) = fl_answer fl"
    using assms by (cases "fl_given_up fl = []") (auto simp: finished_ok_def)
  ultimately show ?thesis using ts(1) by blast
qed

text \<open>An error that is not a server failure was sent by one of the forwarders the lookup asked.\<close>

lemma ready_slots_in: "(i, ready) \<in> set (ready_slots slots) \<Longrightarrow> Some ready \<in> set slots"
  by (auto simp: ready_slots_def List.map_filter_def in_set_enumerate_eq) (metis nth_mem)

lemma possible_denial_sent:
  assumes "list_all2 (possible_report replies q) rs ts" and "e \<in> denials_of rs"
  shows "\<exists>task\<in>set ts. \<exists>x\<in>{Continue (Inl e), Break (Inl e)}. replies (ru_forwarder (snd task)) q x"
proof -
  obtain r where r: "r \<in> set rs" "rp_result r \<in> {Some (Continue (Inl e)), Some (Break (Inl e))}"
    using denial_sent [OF assms(2)] by blast
  obtain task where "task \<in> set ts" "possible_report replies q r task"
    using assms(1) r(1) by (metis in_set_conv_nth list_all2_conv_all_nth)
  then show ?thesis using r(2) by (fastforce simp: possible_report_def report_of_def)
qed

definition denial_sent_for where
  "denial_sent_for replies fl e \<longleftrightarrow>
     is_negative_answer e
     \<and> (\<exists>ready x. Some ready \<in> set (fl_snapshot fl) \<and> x \<in> {Continue (Inl e), Break (Inl e)}
          \<and> replies (ru_forwarder ready) (fl_query fl) x)"

lemma finished_error:
  assumes "finished_ok replies fl" and "fl_answer fl = Continue (Inl e)"
  shows "e = LE_ResponseCode RC_ServFail \<or> denial_sent_for replies fl e"
proof -
  obtain ts rs where r: "mset ts = mset (ready_slots (fl_snapshot fl))"
    "list_all2 (possible_report replies (fl_query fl)) rs ts" "fst (aggregate rs None []) = Continue (Inl e)"
    using finished_lookup_reports [OF assms(1)] assms(2) by metis
  consider "e = LE_ResponseCode RC_ServFail" | "is_negative_answer e" "e \<in> denials_of rs"
    using aggregate_error [OF r(3)] by blast
  then show ?thesis
  proof cases
    case 2
    obtain i ready x where "(i, ready) \<in> set ts" "x \<in> {Continue (Inl e), Break (Inl e)}"
      "replies (ru_forwarder ready) (fl_query fl) x"
      using possible_denial_sent [OF r(2) 2(2)] by force
    moreover have "Some ready \<in> set (fl_snapshot fl)"
      using calculation(1) mset_eq_setD [OF r(1)] ready_slots_in by metis
    ultimately show ?thesis using 2(1) unfolding denial_sent_for_def by blast
  qed simp
qed

lemma aggregate_continues: "\<exists>x. fst (aggregate rs negative woken) = Continue x"
  by (induction rs arbitrary: negative woken)
    (auto simp: aggregate_Cons split: query_outcome.split)

lemma finished_continues:
  assumes "finished_ok replies fl"
  obtains x where "fl_answer fl = Continue x"
  using finished_lookup_reports [OF assms] aggregate_continues by metis

end
