(* ===== verification/Upstream_Properties.thy ===== *)
theory Upstream_Properties
  imports Upstream_Facts
begin

text \<open>
  The properties of upstream configuration and of the recovering forwarder: which addresses are
  accepted, retry delays and the rate of bootstrap attempts, last known addresses, answers
  combined from several upstreams, and the sharing of forwarders between reloads. The witnesses
  use \<open>sample_net\<close>, a network with one resolvable name.
\<close>

section \<open>An instance of the third-party interfaces\<close>

definition sample_url :: parsed_url where
  "sample_url =
     \<lparr>u_scheme = ''https'', u_username = [], u_password = None, u_query = None, u_fragment = None,
      u_host = Some (HostDomain ''dns.example''), u_port_or_default = Some 443, u_path = ''/dns-query''\<rparr>"

definition sample_options :: resolver_opts where
  "sample_options =
     \<lparr>ro_cache_size = 32, ro_positive_min_ttl = None, ro_negative_min_ttl = None,
      ro_positive_max_ttl = None, ro_negative_max_ttl = None\<rparr>"

definition sample_net :: "(name_server list, string, forward_config) net_libs" where
  "sample_net =
     \<lparr>url_parse = \<lambda>s. if contains_str ''://'' s then Inr sample_url else Inl ''relative URL'',
      connection_new = \<lambda>p. \<lparr>cn_protocol = p, cn_port = 53, cn_bind_addr = None\<rparr>,
      resolver_opts_default = sample_options,
      lookup_host = \<lambda>_ p. Inr [SockV4 0x01010101 p],
      resolver_build = Inr, resolver_lookup_ip = \<lambda>_ _. Inr [V4 0x01010102, V4 0x01010101],
      zone_name_parse = Inr, forward_build = \<lambda>config _. Inr config\<rparr>"

definition server_at :: "ip_addr \<Rightarrow> name_server" where
  "server_at ip = \<lparr>ns_ip = ip, ns_trust_negative = False, ns_connections = []\<rparr>"

section \<open>Upstream addresses\<close>

lemma v4_text_digit_first:
  obtains d cs where "v4_text a = digit_char d # cs" and "0 \<le> d" and "d < 10"
proof -
  obtain x y z w where o: "v4_octets a = [x, y, z, w]" and x: "0 \<le> x" "x < 256"
    by (rule v4_octets_expand)
  obtain e es where "pos_digits 10 x = e # es" by (cases "pos_digits 10 x") simp_all
  moreover have "0 \<le> e \<and> e < 10" using pos_digits_range [of 10 x e] x calculation by simp
  ultimately show thesis
    using that [of e] x by (simp add: v4_text_def o dec_str_digits)
qed

lemma digit_char_less_58: "0 \<le> d \<Longrightarrow> d < 10 \<Longrightarrow> code_of (digit_char d) < 58"
  by (simp add: digit_char_def)

lemma strip_scheme_v4_text:
  assumes "code_of c \<ge> 58"
  shows "strip_prefix (c # cs) (v4_text a @ s) = None"
proof -
  obtain d ds where t: "v4_text a = digit_char d # ds" "0 \<le> d" "d < 10" by (rule v4_text_digit_first)
  then have "digit_char d \<noteq> c" using digit_char_less_58 [of d] assms by auto
  then show ?thesis by (simp add: t(1) strip_prefix_def)
qed

lemma split_plain_v4_text:
  "split_plain_protocol (v4_text a @ s) = (P_Udp, v4_text a @ s)"
  "split_plain_protocol (''udp://'' @ t) = (P_Udp, t)"
  "split_plain_protocol (''tcp://'' @ t) = (P_Tcp, t)"
  by (simp_all add: split_plain_protocol_def strip_scheme_v4_text) (simp_all add: strip_prefix_def)

text \<open>
  Every IPv4 address is accepted as a plain upstream in the text the standard library
  prints, with any port or without one, with or without a transport prefix: the server has that
  address, the port defaults to 53 and the transport to UDP.
\<close>

theorem plain_ipv4_upstream_accepted:
  "parse_plain_upstream_dns_address net (v4_text a) =
     Inr \<lparr>ns_ip = V4 a, ns_trust_negative = False, ns_connections = [connection_to net P_Udp 53]\<rparr>
   \<and> parse_plain_upstream_dns_address net (''tcp://'' @ v4_text a) =
     Inr \<lparr>ns_ip = V4 a, ns_trust_negative = False, ns_connections = [connection_to net P_Tcp 53]\<rparr>
   \<and> parse_plain_upstream_dns_address net (v4_text a @ '':'' @ dec_str (uint p)) =
     Inr \<lparr>ns_ip = V4 a, ns_trust_negative = False, ns_connections = [connection_to net P_Udp p]\<rparr>
   \<and> parse_plain_upstream_dns_address net (''tcp://'' @ v4_text a @ '':'' @ dec_str (uint p)) =
     Inr \<lparr>ns_ip = V4 a, ns_trust_negative = False, ns_connections = [connection_to net P_Tcp p]\<rparr>"
  using split_plain_v4_text(1) [of a "[]"]
  by (simp add: parse_plain_upstream_dns_address_def split_plain_v4_text [unfolded append_Cons append_Nil]
      parse_socket_addr_bare parse_ip_addr_v4_text parse_socket_addr_v4_text)

text \<open>
  The addresses of a DNS-over-HTTPS endpoint: an IPv4 address in the URL is used as it
  is, without any lookup; for a host name the servers are exactly the addresses the system or
  the bootstrap servers give, each once, and no address is an error.
\<close>

theorem doh_endpoint_servers:
  "case endpoint_addresses net endpoint bootstrap_ips of
     Inl e \<Rightarrow> resolve_doh_endpoint net endpoint bootstrap_ips = Inl e
   | Inr [] \<Rightarrow> resolve_doh_endpoint net endpoint bootstrap_ips = Inl (DohNoAddresses (de_tls_dns_name endpoint))
   | Inr (s # ss) \<Rightarrow>
       (\<exists>servers. resolve_doh_endpoint net endpoint bootstrap_ips = Inr servers
          \<and> ns_ip ` set servers = sock_ip ` set (s # ss)
          \<and> length servers = card (set (s # ss)))
       \<and> (de_tls_dns_name endpoint = v4_text a \<longrightarrow>
            resolve_doh_endpoint net endpoint bootstrap_ips = Inr (doh_name_server_configs net endpoint [V4 a]))"
proof (cases "endpoint_addresses net endpoint bootstrap_ips")
  case (Inl e)
  then show ?thesis by (simp add: resolve_doh_endpoint_def)
next
  case (Inr found)
  show ?thesis
  proof (cases found)
    case Nil
    then show ?thesis using Inr by (simp add: resolve_doh_endpoint_def)
  next
    case (Cons s ss)
    let ?sorted = "remdups_adj (sort found)"
    have sorted: "set ?sorted = set found" "distinct ?sorted"
      using sort_dedup_spec [of found] by simp_all
    have ne: "?sorted \<noteq> []" using sorted(1) Cons by auto
    then have r: "resolve_doh_endpoint net endpoint bootstrap_ips =
        Inr (doh_name_server_configs net endpoint (map sock_ip ?sorted))"
      using Inr by (simp add: resolve_doh_endpoint_def Let_def)
    have "ns_ip ` set (doh_name_server_configs net endpoint (map sock_ip ?sorted)) = sock_ip ` set found"
      using sorted(1) by (force simp: doh_name_server_configs_def)
    moreover have "length ?sorted = card (set found)" using sorted by (metis distinct_card)
    moreover have "found = [sock_new (V4 a) (de_port endpoint)]" if "de_tls_dns_name endpoint = v4_text a"
      using Inr that by (simp add: endpoint_addresses_def parse_ip_addr_v4_text)
    ultimately show ?thesis
      using r Inr Cons by (auto simp: doh_name_server_configs_def)
  qed
qed

abbreviation literal_endpoint :: doh_endpoint where
  "literal_endpoint \<equiv> \<lparr>de_tls_dns_name = v4_text 0x09090909, de_port = 443, de_http_endpoint = ''/dns-query''\<rparr>"

theorem doh_endpoint_servers_witness:
  "resolve_doh_endpoint sample_net literal_endpoint [] = Inr (doh_name_server_configs sample_net literal_endpoint [V4 0x09090909])"
proof -
  have "endpoint_addresses sample_net literal_endpoint [] = Inr [SockV4 0x09090909 443]"
    by (simp add: endpoint_addresses_def parse_ip_addr_v4_text)
  then show ?thesis
    using doh_endpoint_servers [of sample_net literal_endpoint "[]" "0x09090909"] by simp
qed

text \<open>
  The configuration check and the forwarder disagree on what an HTTPS address is. An
  address with a scheme that the URL parser reads as HTTPS, such as one in capital letters,
  passes the check; but unless it starts with the lower-case prefix, the forwarder takes it for a
  plain address, and no forwarder can be built from the configuration that passed.
\<close>

theorem accepted_upstream_without_forwarder:
  assumes "contains_str ''://'' address" and "\<not> plain_scheme address" and "\<not> https_address address"
    and "parse_doh_endpoint net address = Inr endpoint"
    and "parse_socket_addr address = None" and "parse_ip_addr address = None"
  shows "upstream_validate net (Address address) = Inr ()
       \<and> upstream_slot net origin options (Address address) =
           Inl (UpstreamConfig (InvalidUpstreamAddress address))"
proof -
  have "split_plain_protocol address = (P_Udp, address)"
    using assms(2) by (auto simp: plain_scheme_def split_plain_protocol_def strip_prefix_def)
  then show ?thesis
    using assms by (simp add: upstream_slot_def parse_plain_upstream_dns_address_def)
qed

abbreviation capital_address :: string where
  "capital_address \<equiv> ''HTTPS://dns.example/dns-query''"

lemma capital_address_facts:
  "contains_str ''://'' capital_address" "\<not> plain_scheme capital_address" "\<not> https_address capital_address"
  "parse_doh_endpoint sample_net capital_address =
     Inr \<lparr>de_tls_dns_name = ''dns.example'', de_port = 443, de_http_endpoint = ''/dns-query''\<rparr>"
  "parse_socket_addr capital_address = None" "parse_ip_addr capital_address = None"
  by code_simp+

theorem accepted_upstream_without_forwarder_witness:
  "upstream_validate sample_net (Address capital_address) = Inr ()
   \<and> upstream_slot sample_net ''.'' sample_options (Address capital_address) =
       Inl (UpstreamConfig (InvalidUpstreamAddress capital_address))"
  by (rule accepted_upstream_without_forwarder [OF capital_address_facts])

section \<open>Bootstrap attempts\<close>

text \<open>
  While a bootstrap lookup keeps failing, the delays double from one second up to
  thirty seconds and stay there, and the last known upstream is kept; the first success starts
  over at one second and waits five minutes.
\<close>

theorem bootstrap_delays:
  assumes "list_all (\<lambda>r. \<exists>e. r = Inl e) failures"
  shows "run_attempts net recovery_timing_default origin options failures
           \<lparr>rv_slot = slot, rv_backoff = 1000, rv_failing = False\<rparr> =
         (\<lparr>rv_slot = slot, rv_backoff = min (1000 * 2 ^ length failures) 30000, rv_failing = (failures \<noteq> [])\<rparr>,
          map (\<lambda>k. min (1000 * 2 ^ k) 30000) [0..<length failures])
       \<and> (\<forall>servers slot' changed rv.
            install_upstream net origin options servers (rv_slot rv) = (Inr changed, slot') \<longrightarrow>
            recover_attempt net recovery_timing_default origin options (Inr servers) rv =
              (\<lparr>rv_slot = slot', rv_backoff = 1000, rv_failing = False\<rparr>, 300000))"
  using bootstrap.iterate
  by (simp add: run_failures [OF assms] recover_attempt_def recovery_timing_default_def)

theorem bootstrap_delays_witness:
  "snd (run_attempts sample_net recovery_timing_default ''.'' sample_options (replicate 6 (Inl BootstrapTimedOut))
          \<lparr>rv_slot = None, rv_backoff = 1000, rv_failing = False\<rparr>)
     = [1000, 2000, 4000, 8000, 16000, 30000]"
proof -
  have "list_all (\<lambda>r. \<exists>e. r = Inl e) (replicate 6 (Inl BootstrapTimedOut :: upstream_error + name_server list))"
    by (simp add: list_all_iff)
  from bootstrap_delays [OF this, of sample_net "''.''" sample_options None] show ?thesis
    by (simp add: upt_rec)
qed

text \<open>
  Claim C22. A resolved upstream is never lost: whatever the worker does later, failures,
  timeouts, wake-ups and its end included, the slot still holds a forwarder; and an attempt that
  finds the addresses it already has, in any order, keeps the forwarder itself, with its cache.
\<close>

theorem resolved_upstream_kept:
  assumes "(worker_step net timing origin options)\<^sup>*\<^sup>* w w'" and "rv_slot (wk_recovery w) = Some ready"
  shows "rv_slot (wk_recovery w') \<noteq> None
       \<and> (servers \<noteq> [] \<longrightarrow> ru_addresses ready = server_addresses servers \<longrightarrow> mset servers' = mset servers \<longrightarrow>
            install_upstream net origin options servers' (Some ready) = (Inr False, Some ready))"
proof
  show "rv_slot (wk_recovery w') \<noteq> None"
    using assms by induction (auto dest: worker_step_keeps_slot)
  have "server_addresses servers' = server_addresses servers" if "mset servers' = mset servers"
    using mset_eq_setD [OF that]
    by (metis server_addresses_props sorted_distinct_set_unique)
  then show "servers \<noteq> [] \<longrightarrow> ru_addresses ready = server_addresses servers \<longrightarrow> mset servers' = mset servers \<longrightarrow>
      install_upstream net origin options servers' (Some ready) = (Inr False, Some ready)"
    by (auto intro!: install_upstream_same)
qed

definition sample_forwarder :: forward_config where
  "sample_forwarder = \<lparr>fwd_name_servers = [server_at (V4 1), server_at (V4 2)], fwd_options = None\<rparr>"

theorem resolved_upstream_kept_witness:
  "install_upstream sample_net ''.'' sample_options [server_at (V4 2), server_at (V4 1)]
     (Some \<lparr>ru_addresses = [V4 1, V4 2], ru_forwarder = sample_forwarder, ru_trust_negative = False\<rparr>)
   = (Inr False, Some \<lparr>ru_addresses = [V4 1, V4 2], ru_forwarder = sample_forwarder, ru_trust_negative = False\<rparr>)"
proof -
  have a: "server_addresses [server_at (V4 1), server_at (V4 2)] = [V4 1, V4 2]" by code_simp
  show ?thesis
    using resolved_upstream_kept [where servers = "[server_at (V4 1), server_at (V4 2)]"
        and servers' = "[server_at (V4 2), server_at (V4 1)]" and net = sample_net and origin = "''.''"
        and options = sample_options and timing = recovery_timing_default
        and ready = "\<lparr>ru_addresses = [V4 1, V4 2], ru_forwarder = sample_forwarder, ru_trust_negative = False\<rparr>"
        and w = "worker_start recovery_timing_default 0\<lparr>wk_recovery := \<lparr>rv_slot =
          Some \<lparr>ru_addresses = [V4 1, V4 2], ru_forwarder = sample_forwarder, ru_trust_negative = False\<rparr>,
          rv_backoff = 1000, rv_failing = False\<rparr>\<rparr>", OF rtranclp.rtrancl_refl]
    by (simp add: a)
qed

section \<open>Answers\<close>

text \<open>
  An outage is never turned into a denial. When a lookup over all ready upstreams ends
  in an error, in whatever order they finish, then either the error is a denial one of them
  really sent, or it is a server failure and none of them denied the name.
\<close>

theorem error_is_denial_or_servfail:
  assumes "mset (completion (slot_reports ask slots)) = mset (slot_reports ask slots)"
    and "fst (recovering_lookup completion ask slots) = Continue (Inl e)"
  shows "(is_negative_answer e \<and> e \<in> denials_of (slot_reports ask slots))
       \<or> (e = LE_ResponseCode RC_ServFail \<and> denials_of (slot_reports ask slots) = {})"
proof -
  have "denials_of (completion (slot_reports ask slots)) = denials_of (slot_reports ask slots)"
    using outcomes_mset [OF assms(1)] by (simp add: denials_of_def)
  then show ?thesis
    using aggregate_error [OF assms(2) [unfolded recovering_lookup_def]] by simp
qed

abbreviation failing_slots :: "nat slot list" where
  "failing_slots \<equiv> [Some \<lparr>ru_addresses = [V4 1], ru_forwarder = 0, ru_trust_negative = False\<rparr>, None]"

theorem error_is_denial_or_servfail_witness:
  "fst (recovering_lookup rev (\<lambda>_. Some (Continue (Inl (LE_Io ''unreachable'')))) failing_slots)
     = (Continue (Inl (LE_ResponseCode RC_ServFail)) :: (string, unit) control_flow)
   \<and> (LE_ResponseCode RC_ServFail :: string lookup_error) \<notin> denials_of
       (slot_reports (\<lambda>_. Some (Continue (Inl (LE_Io ''unreachable'')) :: (string, unit) control_flow)) failing_slots)"
proof -
  let ?ask = "\<lambda>_. Some (Continue (Inl (LE_Io ''unreachable'')) :: (string, unit) control_flow)"
  have r: "fst (recovering_lookup rev ?ask failing_slots) = Continue (Inl (LE_ResponseCode RC_ServFail))"
    by code_simp
  have "\<not> is_negative_answer (LE_ResponseCode RC_ServFail :: string lookup_error)"
    by (simp add: is_negative_answer_def)
  then show ?thesis
    using error_is_denial_or_servfail [of rev ?ask failing_slots, OF _ r] r by auto
qed

text \<open>
  Claim C12. One working upstream suffices: if some ready upstream answers and none whose denials
  are trusted denies the name, then in whatever order the upstreams finish the client gets an
  answer that one of them gave; and only upstreams that failed have their workers woken.
\<close>

theorem one_working_upstream_suffices:
  assumes "mset (completion (slot_reports ask slots)) = mset (slot_reports ask slots)"
    and "Answer a \<in> outcomes (slot_reports ask slots)"
    and "\<And>e. FinalDenial e \<notin> outcomes (slot_reports ask slots)"
  shows "(\<exists>a'. fst (recovering_lookup completion ask slots) = Continue (Inr a')
            \<and> Answer a' \<in> outcomes (slot_reports ask slots))
       \<and> set (snd (recovering_lookup completion ask slots))
           \<subseteq> {rp_slot r |r. r \<in> set (slot_reports ask slots) \<and> (\<exists>e. outcome_of r = Failure e)}"
proof
  let ?rs = "completion (slot_reports ask slots)"
  note same = outcomes_mset [OF assms(1)]
  have "settled ?rs" using assms(2) same by (auto simp: settled_def)
  then show "\<exists>a'. fst (recovering_lookup completion ask slots) = Continue (Inr a')
      \<and> Answer a' \<in> outcomes (slot_reports ask slots)"
    using aggregate_settled [of ?rs None "[]"] assms(3) same by (auto simp: recovering_lookup_def)
  have "set ?rs = set (slot_reports ask slots)" using assms(1) by (rule mset_eq_setD)
  then show "set (snd (recovering_lookup completion ask slots))
      \<subseteq> {rp_slot r |r. r \<in> set (slot_reports ask slots) \<and> (\<exists>e. outcome_of r = Failure e)}"
    using aggregate_woken [of ?rs None "[]"] by (simp add: recovering_lookup_def)
qed

abbreviation mixed_slots :: "string slot list" where
  "mixed_slots \<equiv> [Some \<lparr>ru_addresses = [V4 1], ru_forwarder = ''a'', ru_trust_negative = False\<rparr>,
                  Some \<lparr>ru_addresses = [V4 2], ru_forwarder = ''b'', ru_trust_negative = True\<rparr>]"

definition mixed_ask :: "string \<Rightarrow> (string, nat) control_flow option" where
  "mixed_ask f = Some (if f = ''a'' then Continue (Inl (LE_ResponseCode RC_NXDomain)) else Break (Inr 7))"

lemma mixed_outcomes:
  "outcomes (slot_reports mixed_ask mixed_slots) = {Denial (LE_ResponseCode RC_NXDomain), Answer 7}"
  by (simp add: outcomes_def slot_reports_def mixed_ask_def List.map_filter_simps outcome_of_def
      is_negative_answer_def)

theorem one_working_upstream_suffices_witness:
  "fst (recovering_lookup rev mixed_ask mixed_slots) = Continue (Inr 7)
   \<and> fst (recovering_lookup id mixed_ask mixed_slots) = Continue (Inr 7)"
  using one_working_upstream_suffices [of rev mixed_ask mixed_slots 7]
    one_working_upstream_suffices [of id mixed_ask mixed_slots 7]
  by (auto simp: mixed_outcomes)

section \<open>Sharing between reloads\<close>

text \<open>
  Claim C29. At most one forwarder is alive for a configuration, over any history of requests and
  releases; and a request for a configuration whose forwarder is alive gives that forwarder and
  builds none.
\<close>

theorem one_live_forwarder_per_configuration:
  assumes "registry_reachable rg" and "rg_live rg i = Some (key, h)"
  shows "(rg_live rg j = Some (key, h') \<longrightarrow> j = i)
       \<and> fst (shared_forwarder key new_handler rg) = Inr i
       \<and> rg_live (snd (shared_forwarder key new_handler rg)) = rg_live rg"
proof -
  note ok = registry_reachable_ok [OF assms(1)]
  have entry: "rg_entries rg key = Some i" by (rule registry_okD2 [OF ok assms(2)])
  then have "retain_live rg key = Some i" using assms(2) by (simp add: retain_live_iff)
  then show ?thesis
    using registry_okD2 [OF ok, of j key h'] entry by (simp add: shared_forwarder_def)
qed

theorem one_live_forwarder_per_configuration_witness:
  "fst (shared_forwarder ''k'' (Inl NoUpstreams)
     (snd (shared_forwarder ''k'' (Inr \<lparr>rf_origin = ''.'', rf_slots = [None :: nat slot], rf_workers = [0]\<rparr>)
        registry_empty))) = Inr 0"
  by (rule one_live_forwarder_per_configuration [THEN conjunct2, THEN conjunct1,
        OF registry_reachable.share [OF registry_reachable.empty]])
    (simp add: shared_forwarder_def registry_empty_def retain_live_def)

end
