(* ===== verification/Authority_Facts.thy ===== *)
theory Authority_Facts
  imports Authorities
begin

text \<open>
  What the zone handlers answer: the contract all of them share (\<open>local_handler\<close>), the precedence
  of exceptions, important rules and lists in the block handler, the answers to overridden
  and rewritten names, and the order of the chain.
\<close>

section \<open>The contract of a local handler\<close>

locale local_handler =
  fixes lookup :: "'m \<Rightarrow> record_type \<Rightarrow> 'o \<Rightarrow> ('n, 'o, 'l, 'e) lookup_result"
    and owner :: "'m \<Rightarrow> 'n"
  assumes never_continues: "lookup name rtype options \<noteq> Continue r"
    and answers_question: "lookup name rtype options = Break (Inr l) \<Longrightarrow> lookup_answers (owner name) rtype l"
begin

lemma decided: "lookup name rtype options = Skip \<or> (\<exists>r. lookup name rtype options = Break r)"
  using never_continues by (cases "lookup name rtype options") auto

lemma search_never_continues: "zone_search lookup info options \<noteq> Continue r"
  using never_continues by (simp add: zone_search_def split: sum.split prod.split)

lemma search_answers:
  "zone_search lookup (Inr (name, rtype)) options = Break (Inr l) \<Longrightarrow> lookup_answers (owner name) rtype l"
  using answers_question by (simp add: zone_search_def)

lemma no_foreign_records: "lookup name rtype options \<noteq> Break (Inr (LookupFrom x))"
  using answers_question [of name rtype options "LookupFrom x"] by auto

end

lemma override_records_answer:
  "lookup_answers (name_of_lower names name) rtype (override_lookup_records names name rule rtype options)"
  by (auto simp: override_lookup_records_def Let_def set_answers_def)

lemma ptr_records_answer:
  "lookup_answers (name_of_lower names name) rtype (ptr_lookup_records names name targets rtype options)"
  by (auto simp: ptr_lookup_records_def set_answers_def)

lemma block_records_answer:
  "lookup_answers (name_of_lower names name) rtype (block_lookup_records names name rtype options a b ttl)"
  by (auto simp: block_lookup_records_def Let_def set_answers_def)

lemmas records_answer = override_records_answer ptr_records_answer block_records_answer

interpretation overriding: local_handler "override_lookup names self" "name_of_lower names"
  by unfold_locales (auto simp: override_lookup_def Let_def records_answer split: option.splits)

interpretation rewriting: local_handler "rewrite_lookup names self" "name_of_lower names"
  by unfold_locales (auto simp: rewrite_lookup_def Let_def records_answer split: option.splits)

lemma block_response_breaks [simp]:
  "block_response names self name rtype options \<noteq> Skip"
  "block_response names self name rtype options \<noteq> Continue r"
  by (cases "ba_blocking_mode self"; simp add: block_response_def)+

lemma block_response_answers:
  "block_response names self name rtype options = Break (Inr l)
   \<Longrightarrow> lookup_answers (name_of_lower names name) rtype l"
  by (cases "ba_blocking_mode self") (auto simp: block_response_def block_records_answer)

interpretation blocking: local_handler "block_lookup libs names self" "name_of_lower names"
proof
  fix name rtype options r
  show "block_lookup libs names self name rtype options \<noteq> Continue r"
    by (simp add: block_lookup_def Let_def)
next
  fix name rtype options l
  assume "block_lookup libs names self name rtype options = Break (Inr l)"
  then show "lookup_answers (name_of_lower names name) rtype l"
    by (auto simp: block_lookup_def Let_def split: if_splits dest: block_response_answers)
qed

section \<open>The addresses of an answer\<close>

lemma override_records_ips:
  "lookup_ips (override_lookup_records names name rule rtype options) = {ip \<in> answer_ips rule. wants rtype ip}"
proof (rule set_eqI)
  fix ip
  show "ip \<in> lookup_ips (override_lookup_records names name rule rtype options)
      \<longleftrightarrow> ip \<in> {ip \<in> answer_ips rule. wants rtype ip}"
    by (cases ip) (auto simp: override_lookup_records_def Let_def answer_ips_def wants_def)
qed

lemma block_records_ips:
  "lookup_ips (block_lookup_records names name rtype options a b ttl) = {ip \<in> {V4 a, V6 b}. wants rtype ip}"
proof (rule set_eqI)
  fix ip
  show "ip \<in> lookup_ips (block_lookup_records names name rtype options a b ttl)
      \<longleftrightarrow> ip \<in> {ip \<in> {V4 a, V6 b}. wants rtype ip}"
    by (cases ip) (auto simp: block_lookup_records_def Let_def wants_def)
qed

section \<open>Blocking\<close>

definition listed :: "string set \<Rightarrow> string set \<Rightarrow> string \<Rightarrow> bool" where
  "listed exact subs d \<longleftrightarrow> d \<in> exact \<or> (\<exists>s\<in>subs. suffix_match d s)"

definition some_fires ::
    "('rx, 'net) rule_libs \<Rightarrow> 'rx compiled_match_rule set \<Rightarrow> string \<Rightarrow> record_type \<Rightarrow> bool" where
  "some_fires libs rules d t \<longleftrightarrow> (\<exists>r\<in>rules. complex_rule_matches libs r d t)"

text \<open>The decision: an important exception, then an important block rule, then any exception,
  then any block rule or list entry.\<close>

definition blocks_query ::
    "('rx, 'net) rule_libs \<Rightarrow> ('m, 'rx) block_authority \<Rightarrow> string \<Rightarrow> record_type \<Rightarrow> bool" where
  "blocks_query libs self d t \<longleftrightarrow>
     \<not> some_fires libs {r \<in> set (ba_allow_rules self). important r} d t
     \<and> (some_fires libs {r \<in> set (ba_block_rules self). important r} d t
        \<or> \<not> (listed (ba_allow_exact self) (ba_allow_subdomains self) d
               \<or> some_fires libs (set (ba_allow_rules self)) d t)
          \<and> (listed (ba_block_exact self) (ba_block_subdomains self) d
               \<or> some_fires libs (set (ba_block_rules self)) d t))"

lemma matches_rule_list_iff: "matches_rule_list libs rules d t = some_fires libs (set rules) d t"
  by (auto simp: matches_rule_list_def some_fires_def complex_rule_matches_def list_ex_iff)

lemma matches_list_iff:
  "matches_allowlist self d = listed (ba_allow_exact self) (ba_allow_subdomains self) d"
  "matches_blocklist self d = listed (ba_block_exact self) (ba_block_subdomains self) d"
  by (auto simp: matches_allowlist_def matches_blocklist_def listed_def domain_set_matches_iff)

lemma matches_important_iff:
  "matches_allowlist_important libs self d t
     = some_fires libs {r \<in> set (ba_allow_rules self). important r} d t"
  "matches_blocklist_important libs self d t
     = some_fires libs {r \<in> set (ba_block_rules self). important r} d t"
  by (auto simp: matches_allowlist_important_def matches_blocklist_important_def some_fires_def
      list_ex_iff)

lemma block_lookup_decision:
  "block_lookup libs names self name rtype options =
     (if blocks_query libs self (normalized_query_name names name) rtype
      then block_response names self name rtype options else Skip)"
  by (simp add: block_lookup_def Let_def blocks_query_def matches_rule_list_iff matches_list_iff
      matches_important_iff)

text \<open>A handler that is not built would never have answered.\<close>

lemma no_block_authority:
  assumes "block_exact compiled = {}" "block_subdomains compiled = {}" "block_rules compiled = []"
    "ba_block_exact self = block_exact compiled" "ba_block_subdomains self = block_subdomains compiled"
    "ba_block_rules self = block_rules compiled"
  shows "block_lookup libs names self name rtype options = Skip"
  using assms by (simp add: block_lookup_decision blocks_query_def some_fires_def listed_def)

section \<open>Overrides\<close>

text \<open>The key under which an override is stored.\<close>

definition override_key :: "('n, 'm) name_libs \<Rightarrow> string \<Rightarrow> 'm option" where
  "override_key names d = (case fqdn_of names d of Inl _ \<Rightarrow> None | Inr n \<Rightarrow> Some (lower_of_name names n))"

lemma insert_override_Inr:
  "insert_override names e m = Inr m' \<longleftrightarrow> (\<exists>k. override_key names (fst e) = Some k \<and> m' = m(k \<mapsto> snd e))"
  by (auto simp: insert_override_def override_key_def rbind_Inr_iff split: sum.splits)

lemma insert_overrides_Inr:
  assumes "fold_results (insert_override names) es m = Inr m'"
    and "distinct (map (\<lambda>e. override_key names (fst e)) es)"
  shows "\<forall>e\<in>set es. \<exists>k. override_key names (fst e) = Some k \<and> m' k = Some (snd e)"
    and "(\<forall>e\<in>set es. override_key names (fst e) \<noteq> Some k) \<Longrightarrow> m' k = m k"
proof -
  have "(\<forall>e\<in>set es. \<exists>k. override_key names (fst e) = Some k \<and> m' k = Some (snd e))
      \<and> (\<forall>k. (\<forall>e\<in>set es. override_key names (fst e) \<noteq> Some k) \<longrightarrow> m' k = m k)"
    using assms
  proof (induction es arbitrary: m)
    case (Cons e es)
    obtain k where k: "override_key names (fst e) = Some k"
      and rest: "fold_results (insert_override names) es (m(k \<mapsto> snd e)) = Inr m'"
      using Cons.prems(1) by (auto simp: insert_override_Inr split: sum.splits)
    have new: "\<forall>e'\<in>set es. override_key names (fst e') \<noteq> Some k"
      using Cons.prems(2) k by (auto simp: image_iff)
    have "m' k = Some (snd e)" using Cons.IH [OF rest] Cons.prems(2) new by simp
    then show ?case using Cons.IH [OF rest] Cons.prems(2) k by auto
  qed simp
  then show "\<forall>e\<in>set es. \<exists>k. override_key names (fst e) = Some k \<and> m' k = Some (snd e)"
    and "(\<forall>e\<in>set es. override_key names (fst e) \<noteq> Some k) \<Longrightarrow> m' k = m k" by blast+
qed

lemma override_authority_new_overrides:
  assumes "override_authority_new names read origin es ps lan = Inr self"
  shows "fold_results (insert_override names) es Map.empty = Inr (oa_overrides self)"
    and "oa_lan_hosts self = lan_source_new read lan"
  using assms by (auto simp: override_authority_new_def rbind_Inr_iff)

lemma override_lookup_hit:
  assumes "override_authority_new names read origin es ps lan = Inr self"
    and "distinct (map (\<lambda>e. override_key names (fst e)) es)"
    and "(d, rule) \<in> set es" and "override_key names d = Some name"
  shows "override_lookup names self name rtype options =
           Break (Inr (override_lookup_records names name rule rtype options))"
proof -
  have "oa_overrides self name = Some rule"
    using insert_overrides_Inr(1) [OF override_authority_new_overrides(1) [OF assms(1)] assms(2)]
      assms(3,4) by fastforce
  then show ?thesis by (simp add: override_lookup_def)
qed

text \<open>A name of the local network that no override mentions.\<close>

lemma override_lookup_lan:
  assumes "oa_overrides self name = None"
    and "lan_override_of (oa_lan_hosts self) (normalized_query_name names name) = Some rule"
  shows "override_lookup names self name rtype options =
           Break (Inr (override_lookup_records names name rule rtype options))"
  using assms by (simp add: override_lookup_def Let_def)

lemma lan_refresh_last:
  "list_all fst ticks \<Longrightarrow> ticks \<noteq> [] \<Longrightarrow>
   refresh_lan_host_cache_loop config ticks cache = load_lan_host_overrides (snd (last ticks)) config"
  by (induction config ticks cache rule: refresh_lan_host_cache_loop.induct) auto

section \<open>The chain\<close>

text \<open>What a handler of the chain answers; \<open>forward\<close> is the forwarder's lookup.\<close>

fun handler_lookup ::
    "('rx, 'net) rule_libs \<Rightarrow> ('n, 'm) name_libs
     \<Rightarrow> ('f \<Rightarrow> 'm \<Rightarrow> record_type \<Rightarrow> 'o \<Rightarrow> ('n, 'o, 'l, 'e) lookup_result)
     \<Rightarrow> ('n, 'm, 'rx, 'net, 'f) handler \<Rightarrow> 'm \<Rightarrow> record_type \<Rightarrow> 'o \<Rightarrow> ('n, 'o, 'l, 'e) lookup_result" where
  "handler_lookup libs names forward (H_Override self) = override_lookup names self"
| "handler_lookup libs names forward (H_Rewrite self) = rewrite_lookup names self"
| "handler_lookup libs names forward (H_Block self) = block_lookup libs names self"
| "handler_lookup libs names forward (H_Forwarder f) = forward f"

text \<open>What a handler does when it is consulted about another handler's result: only the rewrite
  handler overrides the library's default, which keeps the result.\<close>

fun handler_consult ::
    "('rx, 'net) rule_libs \<Rightarrow> ('n, 'm) name_libs \<Rightarrow> (('n, 'o, 'l) auth_lookup \<Rightarrow> 'n dns_record list)
     \<Rightarrow> ('n, 'm, 'rx, 'net, 'f) handler \<Rightarrow> 'm \<Rightarrow> record_type \<Rightarrow> 'o
     \<Rightarrow> ('n, 'o, 'l, 'e) lookup_result \<Rightarrow> ('n, 'o, 'l, 'e) lookup_result" where
  "handler_consult libs names lookup_iter (H_Rewrite self) name rtype options last_result =
     rewrite_consult libs names lookup_iter self name rtype options last_result"
| "handler_consult libs names lookup_iter h name rtype options last_result = last_result"

text \<open>The documented rule of the server's catalog. Handlers are asked in order while they give
  \<open>Skip\<close>; a \<open>Break\<close> is the answer; after a \<open>Continue\<close> every other handler is consulted about the
  result, in order. Nothing is said of a chain in which every handler skips.\<close>

definition catalog_documented ::
    "('h \<Rightarrow> 'q \<Rightarrow> ('e, 'a) control_flow) \<Rightarrow> ('h \<Rightarrow> 'q \<Rightarrow> ('e, 'a) control_flow \<Rightarrow> ('e, 'a) control_flow)
     \<Rightarrow> ('h list \<Rightarrow> 'q \<Rightarrow> ('e, 'a) control_flow) \<Rightarrow> bool" where
  "catalog_documented ask consult catalog \<longleftrightarrow>
     (\<forall>before h after q.
        (\<forall>h'\<in>set before. ask h' q = Skip) \<longrightarrow>
        (\<forall>r. ask h q = Break r \<longrightarrow> catalog (before @ h # after) q = Break r)
        \<and> (\<forall>r. ask h q = Continue r \<longrightarrow>
             catalog (before @ h # after) q = fold (\<lambda>h'. consult h' q) (before @ after) (Continue r)))"

lemma catalog_Break:
  "catalog_documented ask consult catalog \<Longrightarrow> \<forall>h'\<in>set before. ask h' q = Skip \<Longrightarrow> ask h q = Break r \<Longrightarrow>
   catalog (before @ h # after) q = Break r"
  by (simp add: catalog_documented_def)

lemma catalog_Continue:
  "catalog_documented ask consult catalog \<Longrightarrow> \<forall>h'\<in>set before. ask h' q = Skip \<Longrightarrow> ask h q = Continue r \<Longrightarrow>
   catalog (before @ h # after) q = fold (\<lambda>h'. consult h' q) (before @ after) (Continue r)"
  by (simp add: catalog_documented_def)

text \<open>The first handler of a list that does not skip.\<close>

fun first_decision :: "('h \<Rightarrow> 'q \<Rightarrow> ('e, 'a) control_flow) \<Rightarrow> 'h list \<Rightarrow> 'q \<Rightarrow> ('e, 'a) control_flow" where
  "first_decision ask [] q = Skip"
| "first_decision ask (h # hs) q = (case ask h q of Skip \<Rightarrow> first_decision ask hs q | x \<Rightarrow> x)"

lemma first_decision_append [simp]:
  "first_decision ask (hs @ hs') q =
     (case first_decision ask hs q of Skip \<Rightarrow> first_decision ask hs' q | x \<Rightarrow> x)"
  by (induction hs) (simp_all split: control_flow.split)

lemma first_decision_Skip: "first_decision ask hs q = Skip \<longleftrightarrow> (\<forall>h\<in>set hs. ask h q = Skip)"
  by (induction hs) (auto split: control_flow.split)

lemma first_decision_split:
  "first_decision ask hs q \<noteq> Skip \<Longrightarrow>
   \<exists>before h after. hs = before @ h # after \<and> (\<forall>h'\<in>set before. ask h' q = Skip)
     \<and> ask h q = first_decision ask hs q"
proof (induction hs)
  case (Cons h hs)
  show ?case
  proof (cases "ask h q = Skip")
    case True
    then obtain before h1 after where
      "hs = before @ h1 # after" "\<forall>h'\<in>set before. ask h' q = Skip" "ask h1 q = first_decision ask hs q"
      using Cons by auto
    then show ?thesis using True by (intro exI [of _ "h # before"] exI [of _ h1] exI [of _ after]) auto
  next
    case False
    then show ?thesis
      by (intro exI [of _ "[]"] exI [of _ h] exI [of _ hs]) (auto split: control_flow.split)
  qed
qed simp

lemma catalog_first_Break:
  assumes "catalog_documented ask consult catalog" and "first_decision ask hs q = Break r"
  shows "catalog (hs @ hs') q = Break r"
proof -
  obtain before h after where "hs = before @ h # after" "\<forall>h'\<in>set before. ask h' q = Skip" "ask h q = Break r"
    using first_decision_split [of ask hs q] assms(2) by auto
  then show ?thesis using catalog_Break [OF assms(1)] by simp
qed

definition ask_handler where
  "ask_handler libs names forward h q =
     (case q of (name, rtype, options) \<Rightarrow> handler_lookup libs names forward h name rtype options)"

definition consult_handler where
  "consult_handler libs names lookup_iter h q last_result =
     (case q of (name, rtype, options) \<Rightarrow>
        handler_consult libs names lookup_iter h name rtype options last_result)"

text \<open>The handlers in front of the forwarder.\<close>

definition local_handlers ::
    "('n, 'm) name_libs \<Rightarrow> 'n \<Rightarrow> ('n, 'm) override_authority option \<Rightarrow> ('rx, 'net) compiled_rule_sets
     \<Rightarrow> ('n, 'm, 'rx, 'net, 'f) handler list" where
  "local_handlers names origin oa compiled =
     opt_handler H_Override oa @ opt_handler H_Rewrite (rewrite_authority_of names origin compiled)
     @ opt_handler H_Block (block_authority_of names origin compiled)"

lemma build_authorities_chain:
  assumes "build_authorities names orders read origin forwarder compiled = Inr hs"
  obtains oa where "override_authority_of names orders read origin compiled = Inr oa"
    and "hs = local_handlers names origin oa compiled @ [H_Forwarder forwarder]"
  using assms by (auto simp: build_authorities_def rbind_Inr_iff local_handlers_def)

lemma local_decision_not_Continue:
  "first_decision (ask_handler libs names forward) (local_handlers names origin oa compiled) q \<noteq> Continue r"
proof -
  have "ask_handler libs names forward h q \<noteq> Continue r"
    if "h \<in> set (local_handlers names origin oa compiled)" for h
    using that
    by (auto simp: local_handlers_def opt_handler_def ask_handler_def overriding.never_continues
        rewriting.never_continues blocking.never_continues split: option.splits prod.splits)
  then show ?thesis
    using first_decision_split [of "ask_handler libs names forward" "local_handlers names origin oa compiled" q]
    by fastforce
qed

text \<open>Consulting the local handlers applies the rewrites, if there are any.\<close>

lemma consult_local_handlers:
  "fold (\<lambda>h. consult_handler libs names lookup_iter h (name, rtype, options))
     (local_handlers names origin oa compiled) result =
   (case rewrite_authority_of names origin compiled of
      None \<Rightarrow> result
    | Some self \<Rightarrow> rewrite_consult libs names lookup_iter self name rtype options result)"
  by (simp add: local_handlers_def opt_handler_def consult_handler_def split: option.split)

text \<open>The block handler as it would be built without the emptiness test.\<close>

definition full_block_authority where
  "full_block_authority names origin compiled =
     \<lparr>ba_origin = lower_of_name names origin,
      ba_block_exact = block_exact compiled, ba_block_subdomains = block_subdomains compiled,
      ba_allow_exact = allow_exact compiled, ba_allow_subdomains = allow_subdomains compiled,
      ba_block_rules = block_rules compiled, ba_allow_rules = allow_rules compiled,
      ba_blocking_mode = blocking_mode compiled,
      ba_blocking_ipv4 = (case blocking_ipv4 compiled of Some a \<Rightarrow> a | None \<Rightarrow> 0),
      ba_blocking_ipv6 = (case blocking_ipv6 compiled of Some a \<Rightarrow> a | None \<Rightarrow> 0),
      ba_ttl = block_ttl compiled\<rparr>"

lemma block_stage:
  fixes compiled :: "('rx, 'net) compiled_rule_sets"
  shows "first_decision (ask_handler libs names forward)
           (opt_handler H_Block (block_authority_of names origin compiled)) (name, rtype, options)
       = (if blocks_query libs (full_block_authority names origin compiled)
               (normalized_query_name names name) rtype
          then block_response names (full_block_authority names origin compiled) name rtype options
          else Skip)"
proof (cases "block_authority_of names origin compiled")
  case None
  then have "\<not> blocks_query libs (full_block_authority names origin compiled)
               (normalized_query_name names name) rtype"
    by (auto simp: block_authority_of_def blocks_query_def full_block_authority_def some_fires_def
        listed_def split: if_splits)
  then show ?thesis using None by (simp add: opt_handler_def)
next
  case (Some self)
  then have "self = full_block_authority names origin compiled"
    by (auto simp: block_authority_of_def full_block_authority_def split: if_splits)
  then show ?thesis
    by (simp add: opt_handler_def Some ask_handler_def block_lookup_decision split: control_flow.split)
qed

text \<open>The overrides and the rewrites, when their handlers are built.\<close>

definition override_decision where
  "override_decision names oa name rtype options =
     (case oa of None \<Rightarrow> Skip | Some self \<Rightarrow> override_lookup names self name rtype options)"

definition rewrite_decision where
  "rewrite_decision names ra name rtype options =
     (case ra of None \<Rightarrow> Skip | Some self \<Rightarrow> rewrite_lookup names self name rtype options)"

lemma local_decision:
  fixes compiled :: "('rx, 'net) compiled_rule_sets"
  shows "first_decision (ask_handler libs names forward) (local_handlers names origin oa compiled)
           (name, rtype, options)
       = (case override_decision names oa name rtype options of
            Skip \<Rightarrow>
              (case rewrite_decision names (rewrite_authority_of names origin compiled) name rtype options of
                 Skip \<Rightarrow>
                   if blocks_query libs (full_block_authority names origin compiled)
                        (normalized_query_name names name) rtype
                   then block_response names (full_block_authority names origin compiled) name rtype options
                   else Skip
               | x \<Rightarrow> x)
          | x \<Rightarrow> x)"
  unfolding local_handlers_def first_decision_append block_stage
  by (simp add: opt_handler_def ask_handler_def override_decision_def rewrite_decision_def
      split: option.split control_flow.split)

text \<open>The whole chain: the local handlers decide first, then the forwarder answers and the rewrites
  are consulted about its answer.\<close>

lemma chain_decides:
  fixes compiled :: "('rx, 'net) compiled_rule_sets"
    and hs :: "('n, 'm, 'rx, 'net, 'f) handler list"
  assumes "build_authorities names orders read origin forwarder compiled = Inr hs"
    and "override_authority_of names orders read origin compiled = Inr oa"
    and "catalog_documented (ask_handler libs names forward) (consult_handler libs names lookup_iter) catalog"
    and "forward forwarder name rtype options = Continue upstream"
  shows "catalog hs (name, rtype, options) =
     (case override_decision names oa name rtype options of
        Skip \<Rightarrow>
          (case rewrite_decision names (rewrite_authority_of names origin compiled) name rtype options of
             Skip \<Rightarrow>
               if blocks_query libs (full_block_authority names origin compiled)
                    (normalized_query_name names name) rtype
               then block_response names (full_block_authority names origin compiled) name rtype options
               else (case rewrite_authority_of names origin compiled of
                       None \<Rightarrow> Continue upstream
                     | Some self \<Rightarrow>
                         rewrite_consult libs names lookup_iter self name rtype options (Continue upstream))
           | x \<Rightarrow> x)
      | x \<Rightarrow> x)"
proof -
  let ?q = "(name, rtype, options)"
  let ?ask = "ask_handler libs names forward"
  have hs: "hs = local_handlers names origin oa compiled @ [H_Forwarder forwarder]"
    using assms(1,2) by (auto elim: build_authorities_chain)
  have fwd: "?ask (H_Forwarder forwarder) ?q = Continue upstream"
    using assms(4) by (simp add: ask_handler_def)
  note decision = local_decision [of libs names forward origin oa compiled name rtype options]
  show ?thesis
  proof (cases "first_decision ?ask (local_handlers names origin oa compiled) ?q")
    case (Break r)
    then show ?thesis
      using catalog_first_Break [OF assms(3) Break, of "[H_Forwarder forwarder]"] decision
      by (auto simp: hs split: control_flow.splits if_splits)
  next
    case (Continue r)
    then show ?thesis by (simp add: local_decision_not_Continue)
  next
    case Skip
    have "catalog hs ?q = fold (\<lambda>h. consult_handler libs names lookup_iter h ?q)
        (local_handlers names origin oa compiled :: ('n, 'm, 'rx, 'net, 'f) handler list) (Continue upstream)"
      using catalog_Continue [OF assms(3) _ fwd, of "local_handlers names origin oa compiled" "[]"] Skip
      by (simp add: hs first_decision_Skip)
    then show ?thesis
      using Skip decision unfolding consult_local_handlers
      by (auto split: control_flow.splits if_splits option.splits)
  qed
qed

end
