(* ===== verification/Rule_Properties.thy ===== *)
theory Rule_Properties
  imports Rule_Build Lan_Hosts "HOL-Library.List_Lexorder" "HOL-Library.Char_ord"
begin

text \<open>
  The properties of the rule language and of the compiled rule sets: lookup, order independence,
  the invariant, pattern semantics, disabled rules, rewrites, and the filter cache. The witnesses
  use \<open>fragment_libs\<close>, an instance of the third-party interfaces whose regular expressions are the
  fragment of Pattern_Regex.
\<close>

section \<open>An instance of the third-party interfaces\<close>

definition fragment_libs :: "(rx_item list, ip_addr) rule_libs" where
  "fragment_libs =
     \<lparr>regex_new = \<lambda>s. case read_rx s of None \<Rightarrow> Inl ''unsupported'' | Some items \<Rightarrow> Inr items,
      regex_is_match = \<lambda>items s. rx_search items True s,
      record_type_from_str = \<lambda>s. if s = ''A'' then Some RT_A else if s = ''AAAA'' then Some RT_AAAA else None,
      ipnet_parse = \<lambda>s. ok_or ''bad network'' (parse_ip_addr s),
      ipnet_contains = \<lambda>net ip. net = ip\<rparr>"

lemma fragment_libs_documented: "engine_documented fragment_libs"
  by (simp add: engine_documented_def fragment_libs_def read_rx_render)

definition set_orders :: hash_orders where
  "set_orders = \<lparr>disabled_order = sorted_list_of_set, rewrite_order = rev\<rparr>"

lemma set_orders_ok: "hash_orders_ok set_orders"
  by (simp add: hash_orders_ok_def set_orders_def)

text \<open>A network whose server answers every request with the same list, and a disk without
  files.\<close>

definition serving_env :: "string \<Rightarrow> (unit, string) fetch_env" where
  "serving_env body =
     \<lparr>url_hash = \<lambda>url. of_nat (length url), client_build = \<lambda>_ _. Inr (), http_get = \<lambda>_ url. Inr body,
      error_for_status = Inr, response_bytes = Inr, mkdir_fails = \<lambda>_. None, write_fails = \<lambda>_ _. None\<rparr>"

definition empty_disk :: disk where
  "empty_disk = \<lparr>read_file = \<lambda>_. Inl NotFound\<rparr>"

definition sample_filter :: filter_config where
  "sample_filter = \<lparr>fc_enabled = True, fc_url = ''https://lists.example/a'', fc_name = None, fc_id = Some 7\<rparr>"

definition sample_config :: adblock_runtime_config where
  "sample_config =
     \<lparr>ac_filters = [sample_filter], ac_user_rules = [''@@||ok.ads.com^''],
      ac_filtering = \<lparr>fg_blocking_ipv4 = None, fg_blocking_ipv6 = None, fg_blocking_mode = BM_Default,
                      fg_rewrites = []\<rparr>,
      ac_filter_cache_dir = ''/tmp/cache'', ac_lan_hosts = lan_hosts_default\<rparr>"

section \<open>Lookup and order\<close>

text \<open>
  Walking up the labels of a name in two hash sets finds exactly what a scan of all
  entries finds: the name itself in the exact set, or some entry of the subdomain set that is the
  name or a parent of it.
\<close>

theorem domain_set_lookup:
  "domain_set_matches exact subdomains domain \<longleftrightarrow>
     domain \<in> exact \<or> (\<exists>s. s \<in> subdomains \<and> suffix_match domain s)"
  by (auto simp: domain_set_matches_iff)

text \<open>
  Claim C19. Whether the simple rules of a sequence of lines block a name depends on the rules,
  not on their order: the rule sets block it exactly if some block rule covers it and no
  exception does, although reading an exception deletes block rules and a block rule may be
  dropped when it is read. Any other sequence with the same lines that is accepted decides the
  same.
\<close>

theorem simple_rules_order_independent:
  assumes "parse_inputs libs ins (rule_sets_default, {}) = Inr st"
    and "parse_inputs libs ins' (rule_sets_default, {}) = Inr st'"
    and "set ins' = set ins"
  shows "(index_blocks (fst st) d \<longleftrightarrow>
            some_rule_covers Block (input_ops ins) d \<and> \<not> some_rule_covers Allow (input_ops ins) d)
       \<and> index_blocks (fst st') d = index_blocks (fst st) d"
proof -
  have decision: "index_blocks (fst s) d \<longleftrightarrow>
      some_rule_covers Block (input_ops xs) d \<and> \<not> some_rule_covers Allow (input_ops xs) d"
    if "parse_inputs libs xs (rule_sets_default, {}) = Inr s" for xs s
    using index_blocks_domain_part [OF parse_inputs_ops [OF that]]
      apply_domain_ops_decision [OF input_ops_trees] by simp
  have "set (input_ops ins') = set (input_ops ins)" using assms(3) by (simp add: input_ops_def)
  then have "some_rule_covers disp (input_ops ins') d = some_rule_covers disp (input_ops ins) d" for disp
    by (simp add: some_rule_covers_def)
  then show ?thesis using decision [OF assms(1)] decision [OF assms(2)] by simp
qed

abbreviation sample_lines :: "(rule_origin \<times> string) list" where
  "sample_lines \<equiv> [(RemoteFilter, ''||ads.com^''), (UserRule, ''@@||ok.ads.com^'')]"

lemma sample_lines_parse:
  "is_ok (parse_inputs fragment_libs sample_lines (rule_sets_default, {}))"
  "is_ok (parse_inputs fragment_libs (rev sample_lines) (rule_sets_default, {}))"
  "input_ops sample_lines = [(Block, ''ads.com'', True), (Allow, ''ok.ads.com'', True)]"
  by code_simp+

lemma some_rule_covers_list:
  "some_rule_covers disp ops d = list_ex (\<lambda>(disp', x, sub). disp' = disp \<and> covers (x, sub) d) ops"
  by (auto simp: some_rule_covers_def list_ex_iff)

lemma sample_decision:
  "covers (''ads.com'', True) ''x.ads.com''" "\<not> covers (''ok.ads.com'', True) ''x.ads.com''"
  "covers (''ok.ads.com'', True) ''x.ok.ads.com''"
  by code_simp+

theorem simple_rules_order_independent_witness:
  "index_blocks (fst (projr (parse_inputs fragment_libs sample_lines (rule_sets_default, {})))) ''x.ads.com''
   \<and> \<not> index_blocks (fst (projr (parse_inputs fragment_libs sample_lines (rule_sets_default, {})))) ''x.ok.ads.com''"
  using simple_rules_order_independent [OF is_okD [OF sample_lines_parse(1)]
      is_okD [OF sample_lines_parse(2)] set_rev] sample_decision
  unfolding sample_lines_parse(3) some_rule_covers_list by simp

text \<open>
  Claim C35. Reading any lines keeps the rule sets well formed: every stored name is a normal
  domain name, every subdomain entry is also an exact entry, exceptions always cover their
  subdomains, and no name is both blocked and allowed.
\<close>

theorem parse_inputs_wf:
  assumes "parse_inputs libs ins st = Inr st'" and "rule_sets_wf (fst st)"
  shows "rule_sets_wf (fst st')"
  using assms
proof (induction ins arbitrary: st)
  case (Cons x xs)
  obtain origin line where x: "x = (origin, line)" by (cases x)
  from Cons.prems(1) obtain st1 where
    st1: "parse_rule_line libs origin line st = Inr st1" and rest: "parse_inputs libs xs st1 = Inr st'"
    by (auto simp: parse_inputs_def x split: sum.splits)
  show ?case using Cons.IH [OF rest] parse_rule_line_wf_lemma [OF Cons.prems(2) st1] by simp
qed (simp add: parse_inputs_def)

theorem parse_inputs_wf_witness:
  "rule_sets_wf (fst (projr (parse_inputs fragment_libs sample_lines (rule_sets_default, {}))))"
  by (rule parse_inputs_wf [OF is_okD [OF sample_lines_parse(1)]]) simp

section \<open>The rule language\<close>

text \<open>
  A block rule or an exception written in the usual form is recognised, for every name
  in normal form, as a rule for exactly that name and its subdomains.
\<close>

theorem canonical_rule_recognised:
  assumes "normal_domain d" and "hd d \<noteq> CHR ''.''"
  shows "parse_simple_adblock_domain_rule (''||'' @ d @ ''^'') = Some (Block, d, True)
       \<and> parse_simple_adblock_domain_rule (''@@||'' @ d @ ''^'') = Some (Allow, d, True)"
  using parse_simple_canonical [OF assms] by simp

theorem canonical_rule_recognised_witness:
  "parse_simple_adblock_domain_rule (''||'' @ ''ads.com'' @ ''^'') = Some (Block, ''ads.com'', True)"
  using canonical_rule_recognised [of "''ads.com''"] by (simp add: normal_domain_def domain_char_def
      ascii_alphanumeric_def ascii_upper_def)

text \<open>
  Splitting a rule into its pattern and its modifiers loses nothing: joined with the
  dollar sign the two parts give the line back, and the pattern of a regular-expression rule runs
  from its first slash to a closing slash.
\<close>

theorem split_pattern_lossless:
  assumes "split_pattern_and_modifiers line = Inr (pattern, modifiers)"
  shows "rejoin (pattern, modifiers) = line
       \<and> (prefix ''/'' line \<longrightarrow> prefix ''/'' pattern \<and> suffix ''/'' pattern \<and> 2 \<le> length pattern)"
  using split_pattern_rejoin [OF assms] split_pattern_regex [OF assms] by blast

lemma sample_split: "split_pattern_and_modifiers ''/a/$important'' = Inr (''/a/'', Some ''important'')"
  by code_simp

theorem split_pattern_lossless_witness:
  "rejoin (''/a/'', Some ''important'') = ''/a/$important'' \<and> suffix ''/'' ''/a/''"
  using split_pattern_lossless [OF sample_split] by simp

text \<open>
  Disabled rules are kept in a hash set, whose order is arbitrary; the rule sets that
  remain after removing them do not depend on that order.
\<close>

theorem badfilter_order_irrelevant:
  assumes "mset disabled = mset disabled'"
  shows "apply_badfilters disabled rules = apply_badfilters disabled' rules"
  using apply_badfilters_order [OF assms] .

theorem badfilter_order_irrelevant_witness:
  "apply_badfilters [''||a.com^'', ''b.com''] (rule_sets_default :: rx_item list rule_sets) =
   apply_badfilters [''b.com'', ''||a.com^''] rule_sets_default"
  by (rule badfilter_order_irrelevant) simp

text \<open>
  Claim C18. The regular expression generated for a wildcard pattern anchored at a label, such as
  \<^verbatim>\<open>||ads*.example.com^\<close>, matches exactly the names of which some suffix, starting at a label,
  is described by the wildcards, for an engine that behaves as documented.
\<close>

theorem wildcard_pattern_matches:
  assumes "engine_documented libs"
    and "adblock_pattern_to_regex libs (''||'' @ g @ ''^'') = Inr rx"
    and "list_all glob_char g" and "ascii_line name"
  shows "regex_is_match libs rx name \<longleftrightarrow> (\<exists>t. at_label name t \<and> glob g t)"
proof -
  have "newline \<notin> set name" using assms(4) by (auto simp: ascii_line_def)
  then show ?thesis
    using pattern_match [OF assms(1,2,4)] anchored_pattern_sem [of g name] assms(3)
    by (simp add: list_all_iff)
qed

lemma sample_wildcard:
  "adblock_pattern_to_regex fragment_libs (''||'' @ ''ads*.com'' @ ''^'') =
     Inr [Bol, SubAlt, Chr CHR ''a'', Chr CHR ''d'', Chr CHR ''s'', AnyStar, Chr CHR ''.'', Chr CHR ''c'',
          Chr CHR ''o'', Chr CHR ''m'', Eol]"
  by code_simp

lemma sample_names:
  "list_all glob_char ''ads*.com''" "ascii_line ''x.ads7.com''" "normal_domain ''ads.com''"
  by code_simp+

theorem wildcard_pattern_matches_witness:
  "\<exists>t. at_label ''x.ads7.com'' t \<and> glob ''ads*.com'' t"
proof -
  have "regex_is_match fragment_libs
     [Bol, SubAlt, Chr CHR ''a'', Chr CHR ''d'', Chr CHR ''s'', AnyStar, Chr CHR ''.'', Chr CHR ''c'',
      Chr CHR ''o'', Chr CHR ''m'', Eol] ''x.ads7.com''" by code_simp
  then show ?thesis
    using wildcard_pattern_matches [OF fragment_libs_documented sample_wildcard sample_names(1,2)] by simp
qed

text \<open>
  Claim C17. The two implementations of a domain rule agree: the regular expression a rule such as
  \<^verbatim>\<open>||example.com^\<close> gets when it carries modifiers matches exactly the names the hash sets match
  for the same rule without modifiers.
\<close>

theorem rule_with_modifiers_agrees:
  assumes "engine_documented libs"
    and "adblock_pattern_to_regex libs (''||'' @ d @ ''^'') = Inr rx"
    and "normal_domain d" and "ascii_line name"
  shows "regex_is_match libs rx name =
           sets_match (block_index (add_domain_rule Block d True rule_sets_default)) name"
proof -
  have "newline \<notin> set name" using assms(4) by (auto simp: ascii_line_def)
  then have "regex_is_match libs rx name \<longleftrightarrow> suffix_match name d"
    using pattern_match [OF assms(1,2,4)] literal_pattern_sem [OF assms(3)] by simp
  also have "\<dots> = sets_match (block_index (add_domain_rule Block d True rule_sets_default)) name"
    by (auto simp: sets_match_def block_index_def domain_set_matches_iff is_allowed_def rule_sets_default_def)
  finally show ?thesis .
qed

lemma sample_literal:
  "is_ok (adblock_pattern_to_regex fragment_libs (''||'' @ ''ads.com'' @ ''^''))"
  by code_simp

theorem rule_with_modifiers_agrees_witness:
  "regex_is_match fragment_libs (projr (adblock_pattern_to_regex fragment_libs (''||'' @ ''ads.com'' @ ''^'')))
     ''x.ads7.com''
   = sets_match (block_index (add_domain_rule Block ''ads.com'' True rule_sets_default)) ''x.ads7.com''"
  by (rule rule_with_modifiers_agrees [OF fragment_libs_documented is_okD [OF sample_literal] sample_names(3,2)])

text \<open>
  A hosts line, an address followed by names, means two things. In a downloaded list
  it blocks the names and changes no answer; among the user's own rules it makes the address an
  answer for each of the names and blocks nothing.
\<close>

theorem hosts_line_by_origin:
  assumes "parse_rule_line libs origin line st = Inr st'"
    and "trim (strip_comments line) \<noteq> []"
    and "parse_simple_adblock_domain_rule (trim (strip_comments line)) = None"
    and "parse_hosts_rule (trim (strip_comments line)) = Some (ip, domains)"
  shows "case origin of
           UserRule \<Rightarrow>
             domain_part (fst st') = domain_part (fst st)
             \<and> stored_ips (overrides (fst st')) d =
                 (if d \<in> set domains then {ip} else {}) \<union> stored_ips (overrides (fst st)) d
         | RemoteFilter \<Rightarrow>
             overrides (fst st') = overrides (fst st)
             \<and> domain_part (fst st') =
                 domain_part (apply_domain_ops (map (\<lambda>x. (Block, x, False)) domains) (fst st))"
proof -
  have st': "st' = (file_hosts_rule origin ip domains (fst st), snd st)"
    using assms by (simp add: parse_rule_line_def Let_def)
  have blocked: "overrides (apply_domain_ops (map (\<lambda>x. (Block, x, False)) ds) r) = overrides r"
    for ds and r :: "'a rule_sets"
    by (induction ds arbitrary: r) (simp_all add: apply_domain_ops_def)
  have answered: "stored_ips (overrides (fold (add_override ip) ds r)) d =
      (if d \<in> set ds then {ip} else {}) \<union> stored_ips (overrides r) d" for ds and r :: "'a rule_sets"
    by (induction ds arbitrary: r) (auto simp: add_override_def)
  show ?thesis
    by (cases origin)
      (simp_all add: st' file_hosts_rule_def domain_part_overrides_fold answered blocked file_hosts_remote)
qed

lemma sample_hosts:
  "is_ok (parse_rule_line fragment_libs UserRule ''10.0.0.1 nas.lan'' (rule_sets_default, {}))"
  "trim (strip_comments ''10.0.0.1 nas.lan'') \<noteq> []"
  "parse_simple_adblock_domain_rule (trim (strip_comments ''10.0.0.1 nas.lan'')) = None"
  "parse_hosts_rule (trim (strip_comments ''10.0.0.1 nas.lan'')) = Some (V4 0x0A000001, [''nas.lan''])"
  by code_simp+

theorem hosts_line_by_origin_witness:
  "V4 0x0A000001 \<in> stored_ips (overrides (fst (projr
     (parse_rule_line fragment_libs UserRule ''10.0.0.1 nas.lan'' (rule_sets_default, {}))))) ''nas.lan''"
  using hosts_line_by_origin [OF is_okD [OF sample_hosts(1)] sample_hosts(2-4), of "''nas.lan''"] by simp

section \<open>Addresses\<close>

text \<open>
  Reverse lookup names identify their address, across both families: the name under
  which the PTR targets of an address are stored is never that of another address.
\<close>

theorem reverse_lookup_name_injective:
  "(reverse_lookup_name ip = reverse_lookup_name ip') = (ip = ip')"
  by (rule reverse_lookup_name_eq_iff)

section \<open>Rewrites\<close>

text \<open>
  Compiling the domain rewrites yields one rule for each pattern the configuration
  names, whatever the iteration order of the hash map; its answer holds exactly the addresses
  all rewrites of that pattern list together, each once.
\<close>

theorem domain_rewrites_compiled:
  assumes "compile_domain_rewrites orders rws = Inr compiled" and "hash_orders_ok orders"
  shows "distinct (map dr_pattern compiled) \<and> set (map dr_pattern compiled) = rewrite_patterns rws
       \<and> list_all (\<lambda>r. answer_distinct (dr_answer r)
                        \<and> answer_ips (dr_answer r) = rewrite_ips rws (dr_pattern r)) compiled"
  using compile_domain_rewrites_spec [OF assms] by (simp add: list_all_iff)

definition sample_rewrites :: "rewrite_config list" where
  "sample_rewrites =
     [\<lparr>rw_domain = Some ''*.lan'', rw_ip = [], rw_cname = [], rw_answer = AnswerSingle ''10.0.0.1''\<rparr>,
      \<lparr>rw_domain = Some ''*.lan'', rw_ip = [], rw_cname = [], rw_answer = AnswerSingle ''10.0.0.2''\<rparr>]"

lemma sample_rewrites_compile:
  "is_ok (compile_domain_rewrites set_orders sample_rewrites)"
  "map dr_pattern (projr (compile_domain_rewrites set_orders sample_rewrites)) = [WildcardSuffix ''lan'']"
  by code_simp+

theorem domain_rewrites_compiled_witness:
  "rewrite_patterns sample_rewrites = {WildcardSuffix ''lan''}"
  using domain_rewrites_compiled [OF is_okD [OF sample_rewrites_compile(1)] set_orders_ok]
  unfolding sample_rewrites_compile(2) by simp

section \<open>Filter lists\<close>

text \<open>
  Claim C23. A successful refresh leaves the disk such that a restart, which reads only the
  cache, compiles the same rule sets without touching the network or the disk, provided the
  enabled filters have different cache files.
\<close>

theorem refresh_survives_restart:
  assumes "compiled_refresh libs orders env config d = (Inr compiled, d')"
    and "distinct (map (cache_path_for env (filter_fetch_options_new (ac_filter_cache_dir config)))
           (enabled_filters config))"
  shows "compiled_build libs orders env config d' = (Inr compiled, d')"
proof -
  let ?o = "filter_fetch_options_new (ac_filter_cache_dir config)"
  obtain st where st: "load_filters libs env ?o Refresh (enabled_filters config) d (rule_sets_default, {}) = (Inr st, d')"
    and build: "map_err RuleError
        (rbind (parse_user_rules libs (ac_user_rules config) st) (finish_build libs orders config)) = Inr compiled"
    using assms(1)
    by (auto simp: compiled_refresh_def build_with_fetch_mode_def split: prod.splits sum.splits)
  show ?thesis
    using load_filters_restart [OF st assms(2)] build
    by (simp add: compiled_build_def build_with_fetch_mode_def)
qed

lemma sample_refresh:
  "is_ok (fst (compiled_refresh fragment_libs set_orders (serving_env ''||ads.com^'') sample_config empty_disk))"
  "distinct (map (cache_path_for (serving_env ''||ads.com^'')
     (filter_fetch_options_new (ac_filter_cache_dir sample_config))) (enabled_filters sample_config))"
  by code_simp+

theorem refresh_survives_restart_witness:
  "\<exists>compiled d'. compiled_refresh fragment_libs set_orders (serving_env ''||ads.com^'') sample_config empty_disk
       = (Inr compiled, d')
     \<and> compiled_build fragment_libs set_orders (serving_env ''||ads.com^'') sample_config d' = (Inr compiled, d')"
proof -
  let ?r = "compiled_refresh fragment_libs set_orders (serving_env ''||ads.com^'') sample_config empty_disk"
  have "?r = (Inr (projr (fst ?r)), snd ?r)"
    using is_okD [OF sample_refresh(1)] by (simp add: prod_eq_iff)
  then show ?thesis using refresh_survives_restart [OF _ sample_refresh(2)] by blast
qed

text \<open>
  Startup reads only the cache: building without a refresh leaves the disk as it is,
  and two environments that agree on the cache file names give the same rules, whatever their
  network does.
\<close>

theorem startup_offline:
  assumes "url_hash env' = url_hash env"
  shows "snd (compiled_build libs orders env config d) = d
       \<and> compiled_build libs orders env' config d = compiled_build libs orders env config d"
proof -
  have path: "cache_path_for env' o' f = cache_path_for env o' f" for o' f
    unfolding cache_path_for_def cache_key_def assms ..
  have fetch: "fetch_filter env' o' CacheOnly f d = fetch_filter env o' CacheOnly f d" for o' f
    by (simp add: fetch_filter_def path)
  have "load_filters libs env' o' CacheOnly fs d st = load_filters libs env o' CacheOnly fs d st" for o' fs st
  proof (induction fs arbitrary: st)
    case (Cons f fs)
    have "snd (fetch_filter env o' CacheOnly f d) = d" by (rule store.cache_only_reads)
    then show ?case using Cons.IH
      by (cases "fetch_filter env o' CacheOnly f d") (simp add: fetch split: sum.split)
  qed simp
  then show ?thesis
    using load_filters_cache_only_disk [of libs env _ "enabled_filters config" d]
    by (simp add: compiled_build_def build_with_fetch_mode_def Let_def split: prod.split sum.split)
      (metis snd_conv)
qed

theorem startup_offline_witness:
  "compiled_build fragment_libs set_orders (serving_env ''<html>error</html>'') sample_config empty_disk =
   compiled_build fragment_libs set_orders (serving_env ''||ads.com^'') sample_config empty_disk"
  by (rule startup_offline [THEN conjunct2]) (simp add: serving_env_def)

text \<open>
  Claim C33. A refresh of one filter: a successful download whose copy is stored answers with the
  downloaded text and leaves it in the cache; a failed download answers with the cached copy and
  changes nothing on disk; with no cached copy it is an error, and so is a download that cannot
  be stored. No case touches another filter's cache file.
\<close>

theorem refresh_of_one_filter:
  "(case download_filter_body env filt (fo_connect_timeout options) (fo_read_timeout options) of
      Inl err \<Rightarrow>
        fetch_filter env options Refresh filt d =
          (case read_file d (cache_path_for env options filt) of
             Inr contents \<Rightarrow> Inr contents
           | Inl _ \<Rightarrow> Inl (DownloadFailed (fc_url filt) err), d)
    | Inr contents \<Rightarrow>
        (case fetch_filter env options Refresh filt d of
           (Inr c, d') \<Rightarrow> c = contents \<and> read_file d' (cache_path_for env options filt) = Inr contents
         | (Inl e, d') \<Rightarrow>
             \<exists>p err. e = CacheDirFailed p err \<or> e = CacheWriteFailed p err))
   \<and> (path = cache_path_for env options filt
      \<or> peek_file (snd (fetch_filter env options Refresh filt d)) path = peek_file d path)"
proof
  show "case download_filter_body env filt (fo_connect_timeout options) (fo_read_timeout options) of
      Inl err \<Rightarrow>
        fetch_filter env options Refresh filt d =
          (case read_file d (cache_path_for env options filt) of
             Inr contents \<Rightarrow> Inr contents
           | Inl _ \<Rightarrow> Inl (DownloadFailed (fc_url filt) err), d)
    | Inr contents \<Rightarrow>
        (case fetch_filter env options Refresh filt d of
           (Inr c, d') \<Rightarrow> c = contents \<and> read_file d' (cache_path_for env options filt) = Inr contents
         | (Inl e, d') \<Rightarrow>
             \<exists>p err. e = CacheDirFailed p err \<or> e = CacheWriteFailed p err)"
    by (auto simp: fetch_filter_def persist_cached_filter_def write_file_def Let_def split: sum.split option.split)
  show "path = cache_path_for env options filt
      \<or> peek_file (snd (fetch_filter env options Refresh filt d)) path = peek_file d path"
    using store.refresh_keeps [of env options Refresh filt d _ _ path]
    by (cases "fetch_filter env options Refresh filt d") auto
qed

section \<open>Errors in rule lines\<close>

text \<open>Whether a line is refused does not depend on what was read before it.\<close>

lemma parse_rule_line_error_state:
  "parse_rule_line libs origin line st = Inl e \<Longrightarrow> parse_rule_line libs origin line st' = Inl e"
  by (auto simp: parse_rule_line_def Let_def rbind_def split: if_splits option.splits sum.splits)

lemma fold_results_error:
  assumes "x \<in> set xs" and "\<And>s. \<not> is_ok (f x s)"
  shows "\<not> is_ok (fold_results f xs s)"
  using assms(1)
proof (induction xs arbitrary: s)
  case (Cons y ys)
  then show ?case using assms(2) [of s] by (cases "f y s") auto
qed simp

lemma load_filters_bad_line:
  assumes "f \<in> set filters" and "read_file d (cache_path_for env options f) = Inr contents"
    and "\<And>st. \<not> is_ok (parse_rule_lines libs RemoteFilter contents st)"
  shows "\<not> is_ok (fst (load_filters libs env options CacheOnly filters d st))"
  using assms(1)
proof (induction filters arbitrary: st)
  case (Cons g fs)
  have same: "snd (fetch_filter env options CacheOnly g d) = d" by (rule store.cache_only_reads)
  show ?case
  proof (cases "g = f")
    case True
    have "fetch_filter env options CacheOnly f d = (Inr contents, d)"
      using assms(2) by (simp add: fetch_filter_def Let_def)
    then show ?thesis using assms(3) [of st] True
      by (cases "parse_rule_lines libs RemoteFilter contents st") simp_all
  next
    case False
    then have "f \<in> set fs" using Cons.prems by simp
    then show ?thesis using Cons.IH same
      by (cases "fetch_filter env options CacheOnly g d") (auto split: sum.split)
  qed
qed simp

text \<open>
  Claim C40. One line that the rule language refuses, such as a rule with a modifier the program
  does not know, anywhere in the cached copy of any enabled list, makes the whole build fail: no
  rule set is compiled at startup, the user's own rules included.
\<close>

theorem refused_line_fails_build:
  assumes "f \<in> set (enabled_filters config)"
    and "read_file d (cache_path_for env (filter_fetch_options_new (ac_filter_cache_dir config)) f) = Inr contents"
    and "line \<in> set (lines_of contents)"
    and "parse_rule_line libs RemoteFilter line (rule_sets_default, {}) = Inl e"
  shows "\<not> is_ok (fst (compiled_build libs orders env config d))"
proof -
  let ?o = "filter_fetch_options_new (ac_filter_cache_dir config)"
  have "\<not> is_ok (parse_rule_line libs RemoteFilter line st)" for st
    using parse_rule_line_error_state [OF assms(4), of st] by simp
  then have "\<not> is_ok (parse_rule_lines libs RemoteFilter contents st)" for st
    unfolding parse_rule_lines_def by (rule fold_results_error [OF assms(3)])
  then have "\<not> is_ok (fst (load_filters libs env ?o CacheOnly (enabled_filters config) d (rule_sets_default, {})))"
    by (rule load_filters_bad_line [OF assms(1,2)])
  then show ?thesis
    by (auto simp: compiled_build_def build_with_fetch_mode_def Let_def split: prod.split sum.split)
qed

definition third_party_disk :: disk where
  "third_party_disk = \<lparr>read_file = \<lambda>_. Inr ''||ads.com^$third-party''\<rparr>"

lemma sample_refused:
  "case parse_rule_line fragment_libs RemoteFilter ''||ads.com^$third-party'' (rule_sets_default, {}) of
     Inl e \<Rightarrow> e = UnsupportedModifier ''third-party'' | Inr _ \<Rightarrow> False"
  by code_simp

theorem refused_line_fails_build_witness:
  "\<not> is_ok (fst (compiled_build fragment_libs set_orders (serving_env []) sample_config third_party_disk))"
proof (rule refused_line_fails_build)
  show "sample_filter \<in> set (enabled_filters sample_config)"
    by (simp add: enabled_filters_def sample_config_def sample_filter_def)
  show "read_file third_party_disk (cache_path_for (serving_env [])
      (filter_fetch_options_new (ac_filter_cache_dir sample_config)) sample_filter)
    = Inr ''||ads.com^$third-party''" by (simp add: third_party_disk_def)
  show "''||ads.com^$third-party'' \<in> set (lines_of ''||ads.com^$third-party'')" by code_simp
  show "parse_rule_line fragment_libs RemoteFilter ''||ads.com^$third-party'' (rule_sets_default, {})
    = Inl (UnsupportedModifier ''third-party'')" using sample_refused by (simp split: sum.splits)
qed

end
