(* ===== verification/Authority_Properties.thy ===== *)
theory Authority_Properties
  imports Authority_Facts Rule_Properties
begin

text \<open>
  The properties of the zone handlers: the precedence of block rules and exceptions, what the
  chain of handlers answers, that local answers fit the question, overrides, local hosts and
  rewrites of upstream answers. The witnesses use names that are strings (\<open>string_names\<close>) and a
  catalog that follows the documented rule (\<open>run_catalog\<close>).
\<close>

section \<open>Instances of the third-party interfaces\<close>

definition string_names :: "(string, string) name_libs" where
  "string_names =
     \<lparr>name_from_ascii = \<lambda>s. if s = [] then Inl ''empty'' else Inr s,
      name_set_fqdn = \<lambda>s. if suffix ''.'' s then s else s @ ''.'',
      name_to_ascii = id, lower_of_name = to_ascii_lowercase, name_of_lower = id\<rparr>"

fun run_catalog where
  "run_catalog ask consult seen [] q = Skip"
| "run_catalog ask consult seen (h # hs) q =
     (case ask h q of
        Skip \<Rightarrow> run_catalog ask consult (seen @ [h]) hs q
      | Break r \<Rightarrow> Break r
      | Continue r \<Rightarrow> fold (\<lambda>h'. consult h' q) (seen @ hs) (Continue r))"

lemma run_catalog_documented: "catalog_documented ask consult (run_catalog ask consult [])"
proof -
  have "\<forall>h'\<in>set before. ask h' q = Skip \<Longrightarrow>
      run_catalog ask consult seen (before @ hs) q = run_catalog ask consult (seen @ before) hs q"
    for before seen hs q
    by (induction before arbitrary: seen) simp_all
  then show ?thesis by (simp add: catalog_documented_def)
qed

definition order_lists :: map_orders where
  "order_lists =
     \<lparr>override_entries = \<lambda>m. List.map_filter (\<lambda>k. map_option (Pair k) (m k)) [''nas.lan''],
      ptr_entries = \<lambda>m. []\<rparr>"

section \<open>Blocking\<close>

text \<open>
  Claim C2. The block handler blocks a query exactly if no important exception fires and either
  an important block rule fires, or no exception matches and some block rule or list entry does;
  otherwise it leaves the query to the next handler. The lists are matched as a scan of all
  entries would.
\<close>

theorem block_precedence:
  "block_lookup libs names self name rtype options =
     (if blocks_query libs self (normalized_query_name names name) rtype
      then (case ba_blocking_mode self of
              BM_Nxdomain \<Rightarrow> Break (Inl (LE_ResponseCode RC_NXDomain))
            | BM_Default \<Rightarrow>
                Break (Inr (block_lookup_records names name rtype options (ba_blocking_ipv4 self)
                              (ba_blocking_ipv6 self) (ba_ttl self))))
      else Skip)"
  by (simp add: block_lookup_decision block_response_def split: blocking_mode.split)

text \<open>
  Claim C1. What a chain of handlers built for a configuration answers. Overrides and local hosts
  come before domain rewrites, those before blocking, and each of them that applies is the whole
  answer. Only a query none of them takes reaches the forwarder; the rewrites by address and by
  CNAME are then applied to what the forwarder answered, and to nothing else. A handler that is
  left out because it would have no rules makes no difference.
\<close>

theorem chain_answer:
  fixes compiled :: "('rx, 'net) compiled_rule_sets"
    and hs :: "('n, 'm, 'rx, 'net, 'f) handler list"
  assumes "build_authorities names orders read origin forwarder compiled = Inr hs"
    and "override_authority_of names orders read origin compiled = Inr oa"
    and "catalog_documented (ask_handler libs names forward) (consult_handler libs names lookup_iter) catalog"
    and "forward forwarder name rtype options = Continue upstream"
  shows "catalog hs (name, rtype, options) =
     (case override_decision names oa name rtype options of
        Skip \<Rightarrow>
          (case rewrite_decision names (rewrite_authority_of names origin compiled) name rtype options of
             Skip \<Rightarrow>
               if blocks_query libs (full_block_authority names origin compiled)
                    (normalized_query_name names name) rtype
               then block_response names (full_block_authority names origin compiled) name rtype options
               else (case rewrite_authority_of names origin compiled of
                       None \<Rightarrow> Continue upstream
                     | Some self \<Rightarrow>
                         rewrite_consult libs names lookup_iter self name rtype options (Continue upstream))
           | x \<Rightarrow> x)
      | x \<Rightarrow> x)"
  by (rule chain_decides [OF assms])

definition sample_compiled :: "(rx_item list, ip_addr) compiled_rule_sets" where
  "sample_compiled =
     \<lparr>overrides = [''nas.lan'' \<mapsto> \<lparr>or_ipv4 = [0x0A000001], or_ipv6 = []\<rparr>], ptr_overrides = Map.empty,
      block_exact = {''ads.com''}, block_subdomains = {''ads.com''}, allow_exact = {''ok.ads.com''},
      allow_subdomains = {''ok.ads.com''}, block_rules = [], allow_rules = [],
      domain_rewrites = [], answer_ip_rewrites = [], cname_rewrites = [],
      blocking_mode = BM_Default, blocking_ipv4 = None, blocking_ipv6 = None, block_ttl = 60,
      lan_hosts = lan_hosts_default\<lparr>lh_enabled := False\<rparr>\<rparr>"

definition sample_forward ::
    "unit \<Rightarrow> string \<Rightarrow> record_type \<Rightarrow> unit \<Rightarrow> (string, unit, unit, string) lookup_result" where
  "sample_forward f name rtype options = Continue (Inr (LookupFrom ()))"

abbreviation sample_chain where
  "sample_chain \<equiv> build_authorities string_names order_lists (\<lambda>_. Inl NotFound) ''.'' () sample_compiled"

abbreviation sample_override_authority where
  "sample_override_authority \<equiv>
     override_authority_of string_names order_lists (\<lambda>_. Inl NotFound) ''.'' sample_compiled"

abbreviation sample_ask where
  "sample_ask \<equiv> ask_handler fragment_libs string_names sample_forward"

abbreviation sample_consult where
  "sample_consult \<equiv> consult_handler fragment_libs string_names (\<lambda>_. [])"

lemma sample_chain_ok:
  "is_ok sample_chain" "is_ok sample_override_authority"
  by code_simp+

lemma sample_chain_decision:
  "override_decision string_names (projr sample_override_authority) ''x.ads.com.'' RT_A () =
     (Skip :: (string, unit, unit, string) lookup_result)"
  "rewrite_authority_of string_names ''.'' sample_compiled = None"
  "blocks_query fragment_libs (full_block_authority string_names ''.'' sample_compiled) ''x.ads.com'' RT_A"
  "normalized_query_name string_names ''x.ads.com.'' = ''x.ads.com''"
  "block_response string_names (full_block_authority string_names ''.'' sample_compiled) ''x.ads.com.'' RT_A () =
     (Break (Inr (LookupMany () [\<lparr>rs_name = ''x.ads.com.'', rs_type = RT_A, rs_ttl = 60, rs_rdatas = [RD_A 0]\<rparr>]))
        :: (string, unit, unit, string) lookup_result)"
  by code_simp+

theorem chain_answer_witness:
  "run_catalog sample_ask sample_consult [] (projr sample_chain) (''x.ads.com.'', RT_A, ()) =
     Break (Inr (LookupMany () [\<lparr>rs_name = ''x.ads.com.'', rs_type = RT_A, rs_ttl = 60, rs_rdatas = [RD_A 0]\<rparr>]))"
  by (subst chain_answer [OF is_okD [OF sample_chain_ok(1)] is_okD [OF sample_chain_ok(2)] run_catalog_documented])
    (simp_all add: sample_forward_def sample_chain_decision rewrite_decision_def)

text \<open>
  Claim C36. Whatever one of the handlers in front of the forwarder answers with records, they are
  owned by the name in the question and of the type asked for, and hold data of that type; the
  handlers never ask the chain to continue.
\<close>

theorem local_answers_fit:
  assumes "h \<in> set (local_handlers names origin oa compiled)"
  shows "ask_handler libs names forward h (name, rtype, options) \<noteq> Continue r
       \<and> (ask_handler libs names forward h (name, rtype, options) = Break (Inr l) \<longrightarrow>
            lookup_answers (name_of_lower names name) rtype l)"
  using assms overriding.answers_question rewriting.answers_question blocking.answers_question
  by (auto simp: local_handlers_def opt_handler_def ask_handler_def overriding.never_continues
      rewriting.never_continues blocking.never_continues split: option.splits)

theorem local_answers_fit_witness:
  "\<exists>l. sample_ask (H_Block (full_block_authority string_names ''.'' sample_compiled)) (''x.ads.com.'', RT_A, ())
         = Break (Inr l)
     \<and> lookup_answers (name_of_lower string_names ''x.ads.com.'') RT_A l"
proof -
  let ?h = "H_Block (full_block_authority string_names ''.'' sample_compiled)
              :: (string, string, _, _, unit) handler"
  have h: "?h \<in> set (local_handlers string_names ''.'' None sample_compiled)"
    by (simp add: local_handlers_def opt_handler_def block_authority_of_def rewrite_authority_of_def
        sample_compiled_def full_block_authority_def)
  have b: "sample_ask ?h (''x.ads.com.'', RT_A, ()) =
      Break (Inr (LookupMany () [\<lparr>rs_name = ''x.ads.com.'', rs_type = RT_A, rs_ttl = 60, rs_rdatas = [RD_A 0]\<rparr>]))"
    by code_simp
  show ?thesis
    by (intro exI conjI, rule b) (rule local_answers_fit [OF h, THEN conjunct2, rule_format, OF b])
qed

text \<open>From the configuration to the decision: what the user's simple rules compile to.\<close>

lemma parse_user_rules_inputs:
  "parse_user_rules libs lines st = parse_inputs libs (map (Pair UserRule) lines) st"
  by (induction lines arbitrary: st) (auto simp: parse_user_rules_def parse_inputs_def split: sum.split)

lemma finish_build_no_badfilter:
  assumes "finish_build libs orders config (rules, {}) = Inr compiled" and "hash_orders_ok orders"
  shows "domain_part compiled = domain_part rules" "block_rules compiled = block_rules rules"
    "allow_rules compiled = allow_rules rules"
proof -
  have "disabled_order orders {} = []" using assms(2) by (force simp: hash_orders_ok_def)
  then show "domain_part compiled = domain_part rules" "block_rules compiled = block_rules rules"
    "allow_rules compiled = allow_rules rules"
    using assms(1)
    by (auto simp: finish_build_def rbind_Inr_iff apply_badfilters_def domain_part_def block_index_def
        allow_index_def Let_def)
qed

lemma blocks_query_simple:
  fixes compiled :: "('rx, 'net) compiled_rule_sets"
  assumes "block_rules compiled = []" and "allow_rules compiled = []"
  shows "blocks_query libs (full_block_authority names origin compiled) d t = index_blocks compiled d"
  using assms
  by (auto simp: blocks_query_def full_block_authority_def some_fires_def listed_def index_blocks_def
      sets_match_def block_index_def allow_index_def domain_set_matches_iff)

lemma finish_build_decides:
  fixes compiled :: "('rx, 'net) compiled_rule_sets"
  assumes "finish_build libs orders config (rules, {}) = Inr compiled" and "hash_orders_ok orders"
    and "parse_inputs libs ins (rule_sets_default, {}) = Inr (rules, {})"
    and "block_rules rules = []" and "allow_rules rules = []"
  shows "blocks_query libs (full_block_authority names origin compiled) d t \<longleftrightarrow>
           some_rule_covers Block (input_ops ins) d \<and> \<not> some_rule_covers Allow (input_ops ins) d"
proof -
  note built = finish_build_no_badfilter [OF assms(1,2)]
  have "blocks_query libs (full_block_authority names origin compiled) d t = index_blocks compiled d"
    by (rule blocks_query_simple) (simp_all add: built assms(4,5))
  also have "\<dots> = index_blocks rules d"
    using built(1) by (simp add: domain_part_def index_blocks_def)
  also have "\<dots> = index_blocks (apply_domain_ops (input_ops ins) (rule_sets_default :: 'rx rule_sets)) d"
    using index_blocks_domain_part [OF parse_inputs_ops [OF assms(3)]] by simp
  finally show ?thesis using apply_domain_ops_decision [OF input_ops_trees] by simp
qed

section \<open>Overrides and local hosts\<close>

text \<open>
  A name with an override is answered locally with exactly the override's addresses of
  the family asked for; the answer does not depend on the order in which the hash map of
  overrides was walked.
\<close>

theorem override_answers:
  assumes "override_authority_new names read origin entries ptrs lan = Inr self"
    and "distinct (map (\<lambda>e. override_key names (fst e)) entries)"
    and "(domain, rule) \<in> set entries" and "override_key names domain = Some name"
  shows "\<exists>l. override_lookup names self name rtype options = Break (Inr l)
     \<and> lookup_ips l = {ip \<in> answer_ips rule. wants rtype ip}"
  using override_lookup_hit [OF assms] override_records_ips by fastforce

abbreviation sample_overrides :: "(string \<times> override_rule) list" where
  "sample_overrides \<equiv> [(''nas.lan'', \<lparr>or_ipv4 = [0x0A000001], or_ipv6 = [1]\<rparr>)]"

lemma sample_overrides_ok:
  "is_ok (override_authority_new string_names (\<lambda>_. Inl NotFound) ''.'' sample_overrides [] lan_hosts_default)"
  "override_key string_names ''nas.lan'' = Some ''nas.lan.''"
  by code_simp+

theorem override_answers_witness:
  "\<exists>l. override_lookup string_names
         (projr (override_authority_new string_names (\<lambda>_. Inl NotFound) ''.'' sample_overrides [] lan_hosts_default))
         ''nas.lan.'' RT_A () = (Break (Inr l) :: (string, unit, unit, string) lookup_result)
     \<and> lookup_ips l = {V4 0x0A000001}"
proof -
  have "{ip \<in> answer_ips \<lparr>or_ipv4 = [0x0A000001], or_ipv6 = [1]\<rparr>. wants RT_A ip} = {V4 0x0A000001}"
    by (auto simp: answer_ips_def wants_def)
  then show ?thesis
    using override_answers [OF is_okD [OF sample_overrides_ok(1)] _ _ sample_overrides_ok(2),
        where rule = "\<lparr>or_ipv4 = [0x0A000001], or_ipv6 = [1]\<rparr>" and rtype = RT_A and options = "()"]
    by simp
qed

lemma file_lease_stored:
  assumes "lh_enabled config" and "read_to_string (lh_source config) = Inr contents"
  shows "stored_ips (lo_overrides (load_lan_host_overrides read_to_string config)) d =
           {lease_ip l |l. l \<in> set (file_leases config contents) \<and> d \<in> set (lease_domains l)}"
  using assms by (simp add: load_lan_host_overrides_eq stored_ips_leases lan_host_overrides_default_def)

text \<open>
  Claim C25. Local hosts follow the lease file: with a refresh interval, and once the refresh loop
  has run, a name without an override that some lease of the file now names is answered with
  exactly the addresses, of the family asked for, of the leases that name it, whatever the file
  held at start-up.
\<close>

theorem lan_answers_follow_leases:
  assumes "list_all fst ticks" and "ticks \<noteq> []"
    and "lh_enabled config" and "0 < lh_refresh_interval_secs config"
    and "snd (last ticks) (lh_source config) = Inr contents"
    and "oa_overrides self name = None"
    and "oa_lan_hosts self = lan_source_after True read ticks config"
    and "lease \<in> set (file_leases config contents)"
    and "normalized_query_name names name \<in> set (lease_domains lease)"
  shows "\<exists>l. override_lookup names self name rtype options = Break (Inr l)
     \<and> lookup_ips l = {lease_ip lease |lease. lease \<in> set (file_leases config contents)
          \<and> normalized_query_name names name \<in> set (lease_domains lease) \<and> wants rtype (lease_ip lease)}"
proof -
  let ?d = "normalized_query_name names name"
  let ?m = "lo_overrides (load_lan_host_overrides (snd (last ticks)) config)"
  have ips: "stored_ips ?m ?d = {lease_ip l |l. l \<in> set (file_leases config contents) \<and> ?d \<in> set (lease_domains l)}"
    using file_lease_stored [of config "snd (last ticks)"] assms(3,5) by simp
  then have "stored_ips ?m ?d \<noteq> {}" using assms(8,9) by blast
  then obtain rule where rule: "?m ?d = Some rule" by (auto simp: stored_ips_def split: option.splits)
  then have hit: "lan_override_of (oa_lan_hosts self) ?d = Some rule"
    using assms(3,4,7) lan_refresh_last [OF assms(1,2)]
    by (simp add: lan_override_of_def lan_source_after_def lan_source_new_def spawn_lan_host_refresh_def)
  have "answer_ips rule = stored_ips ?m ?d" using rule by (simp add: stored_ips_def)
  then show ?thesis
    unfolding override_lookup_lan [OF assms(6) hit] ips by (auto simp: override_records_ips)
qed

abbreviation sample_leases :: string where
  "sample_leases \<equiv> ''1700000000 00:11:22:33:44:55 10.0.0.9 laptop *''"

lemma sample_lease:
  "file_leases lan_hosts_default sample_leases =
     [\<lparr>lease_ip = V4 0x0A000009, lease_domains = [''laptop'', ''laptop.lan''], lease_ptr_domain = ''laptop.lan''\<rparr>]"
  "normalized_query_name string_names ''laptop.lan.'' = ''laptop.lan''"
  by code_simp+

definition sample_lan_authority :: "(string, string) override_authority" where
  "sample_lan_authority =
     \<lparr>oa_origin = ''.'', oa_overrides = Map.empty, oa_ptr_overrides = Map.empty,
      oa_lan_hosts = lan_source_after True (\<lambda>_. Inl NotFound) [(True, \<lambda>_. Inr sample_leases)] lan_hosts_default,
      oa_lan_config = lan_hosts_default\<rparr>"

theorem lan_answers_follow_leases_witness:
  "\<exists>l. override_lookup string_names sample_lan_authority ''laptop.lan.'' RT_A ()
         = (Break (Inr l) :: (string, unit, unit, string) lookup_result)
     \<and> lookup_ips l = {V4 0x0A000009}"
  using lan_answers_follow_leases [where ticks = "[(True, \<lambda>_. Inr sample_leases)]"
      and config = lan_hosts_default and contents = sample_leases and self = sample_lan_authority
      and read = "\<lambda>_. Inl NotFound" and names = string_names and name = "''laptop.lan.''"
      and rtype = RT_A and options = "()"
      and lease = "\<lparr>lease_ip = V4 0x0A000009, lease_domains = [''laptop'', ''laptop.lan''],
                     lease_ptr_domain = ''laptop.lan''\<rparr>"]
  by (simp add: sample_lease sample_lan_authority_def wants_def) (simp add: lan_hosts_default_def)

section \<open>Rewrites of upstream answers\<close>

definition answer_in_networks where
  "answer_in_networks libs records nets \<longleftrightarrow>
     (\<exists>r ip net. r \<in> set records \<and> record_ip r = Some ip \<and> net \<in> set nets \<and> ipnet_contains libs net ip)"

definition answer_has_alias where
  "answer_has_alias names records patterns \<longleftrightarrow>
     (\<exists>r target p. r \<in> set records \<and> record_cname names r = Some target \<and> p \<in> set patterns
        \<and> domain_pattern_matches p target)"

lemma ip_rewrite_applies_iff:
  "ip_rewrite_applies libs records rule = answer_in_networks libs records (ar_nets rule)"
  by (fastforce simp: ip_rewrite_applies_def answer_in_networks_def list_ex_iff split: option.splits)

lemma cname_rewrite_applies_iff:
  "cname_rewrite_applies names records rule = answer_has_alias names records (cr_patterns rule)"
  by (fastforce simp: cname_rewrite_applies_def answer_has_alias_def list_ex_iff split: option.splits)

text \<open>
  Claim C24. Consulted about an upstream answer, the rewrite handler replaces it if and only if
  one of its records holds an address in a listed network or points to a listed alias; it then
  answers with addresses of such a rule, of the family asked for. Any other answer, and every
  error, is passed on unchanged.
\<close>

theorem consult_replaces_only_listed:
  "(case rewrite_consult libs names lookup_iter self name rtype options (Continue (Inr lookup)) of
      Break (Inr l) \<Rightarrow>
        (\<exists>rule. rule \<in> set (ra_answer_ip_rewrites self)
            \<and> answer_in_networks libs (lookup_iter lookup) (ar_nets rule)
            \<and> lookup_ips l = {ip \<in> answer_ips (ar_answer rule). wants rtype ip})
        \<or> (\<exists>rule. rule \<in> set (ra_cname_rewrites self)
            \<and> answer_has_alias names (lookup_iter lookup) (cr_patterns rule)
            \<and> lookup_ips l = {ip \<in> answer_ips (cr_answer rule). wants rtype ip})
    | Continue r \<Rightarrow>
        r = Inr lookup
        \<and> (\<nexists>rule. rule \<in> set (ra_answer_ip_rewrites self)
              \<and> answer_in_networks libs (lookup_iter lookup) (ar_nets rule))
        \<and> (\<nexists>rule. rule \<in> set (ra_cname_rewrites self)
              \<and> answer_has_alias names (lookup_iter lookup) (cr_patterns rule))
    | _ \<Rightarrow> False)
   \<and> rewrite_consult libs names lookup_iter self name rtype options (Continue (Inl err)) = Continue (Inl err)"
proof -
  let ?records = "lookup_iter lookup"
  consider (ip) rule where "find (ip_rewrite_applies libs ?records) (ra_answer_ip_rewrites self) = Some rule"
    | (cname) rule where "find (ip_rewrite_applies libs ?records) (ra_answer_ip_rewrites self) = None"
        "find (cname_rewrite_applies names ?records) (ra_cname_rewrites self) = Some rule"
    | (none) "find (ip_rewrite_applies libs ?records) (ra_answer_ip_rewrites self) = None"
        "find (cname_rewrite_applies names ?records) (ra_cname_rewrites self) = None"
    by fastforce
  then show ?thesis
  proof cases
    case (ip rule)
    then have "rule \<in> set (ra_answer_ip_rewrites self)" "answer_in_networks libs ?records (ar_nets rule)"
      by (auto simp: find_Some_iff ip_rewrite_applies_iff)
    then show ?thesis using ip by (auto simp: rewrite_consult_def Let_def override_records_ips)
  next
    case (cname rule)
    then have "rule \<in> set (ra_cname_rewrites self)" "answer_has_alias names ?records (cr_patterns rule)"
      by (auto simp: find_Some_iff cname_rewrite_applies_iff)
    then show ?thesis using cname by (auto simp: rewrite_consult_def Let_def override_records_ips)
  next
    case none
    then have "\<nexists>rule. rule \<in> set (ra_answer_ip_rewrites self) \<and> answer_in_networks libs ?records (ar_nets rule)"
      "\<nexists>rule. rule \<in> set (ra_cname_rewrites self) \<and> answer_has_alias names ?records (cr_patterns rule)"
      by (auto simp: find_None_iff ip_rewrite_applies_iff cname_rewrite_applies_iff)
    with none show ?thesis by (simp add: rewrite_consult_def Let_def)
  qed
qed

end
