(* ===== verification/Server_Properties.thy ===== *)
theory Server_Properties
  imports Reload_Facts Upstream_Properties Authority_Properties
begin

text \<open>
  The properties of starting, reloading and supervising the server: what a failed reload leaves,
  what never changes while the server runs, the refresh timer, start-up and its sockets,
  privileges. The witnesses use \<open>sample_system\<close>, which reads one fixed configuration.
\<close>

section \<open>An instance of the environment\<close>

definition sample_server_config :: server_config where
  "sample_server_config =
     \<lparr>cfg_listen_addrs_ipv4 = [], cfg_listen_addrs_ipv6 = [], cfg_listen_port = None,
      cfg_disable_tcp = None, cfg_disable_udp = None, cfg_disable_tls = None, cfg_disable_https = None,
      cfg_disable_quic = None, cfg_tcp_request_timeout = None, cfg_log_level = None,
      cfg_filter_cache_dir = None, cfg_filter_refresh_interval_secs = None,
      cfg_user = Some ''dns'', cfg_group = Some ''dns'', cfg_zones = [],
      cfg_dns = Some \<lparr>dns_upstream_dns = [Address ''1.1.1.1''], dns_bootstrap_ips = [], dns_cache_size = None,
                      dns_cache_ttl_min = None, dns_cache_ttl_max = None\<rparr>,
      cfg_filters = [sample_filter], cfg_user_rules = [''||ads.com^''],
      cfg_filtering = ac_filtering sample_config, cfg_lan_hosts = lan_hosts_default\<lparr>lh_enabled := False\<rparr>\<rparr>"

text \<open>Names are printed with their blanks and backslashes escaped.\<close>

fun sample_name_text :: "string \<Rightarrow> string" where
  "sample_name_text [] = []"
| "sample_name_text (c # cs) =
     (if c = CHR '' '' then [CHR 0x5C, CHR ''s''] else if c = CHR 0x5C then [c, c] else [c]) @ sample_name_text cs"

lemma sample_name_text_blank: "CHR '' '' \<notin> set (sample_name_text s)"
  by (induction s) auto

lemma sample_name_text_inj: "sample_name_text s = sample_name_text s' \<Longrightarrow> s = s'"
proof (induction s arbitrary: s')
  case Nil
  then show ?case by (cases s') (auto split: if_splits)
next
  case (Cons c cs)
  then show ?case by (cases s') (auto split: if_splits)
qed

definition sample_system where
  "sample_system =
     \<lparr>sys_rules = fragment_libs, sys_hash = set_orders, sys_fetch = serving_env ''||ads.com^'',
      sys_net = sample_net, sys_names = string_names, sys_maps = order_lists,
      sys_texts = \<lparr>dt_name = sample_name_text, dt_str = \<lambda>s. CHR 0x22 # s @ [CHR 0x22],
                   dt_server = \<lambda>_. ''NameServerConfig'', dt_options = \<lambda>_. ''ResolverOpts''\<rparr>,
      sys_yaml = \<lambda>s. if s = ''ok'' then Inr sample_server_config else Inl s,
      sys_level_from_str = \<lambda>_. None, sys_log_reload = \<lambda>_ _. Inr (), sys_config_path = ''/etc/named.yaml''\<rparr>"

definition config_disk :: "string \<Rightarrow> disk" where
  "config_disk contents = \<lparr>read_file = \<lambda>p. if p = ''/etc/named.yaml'' then Inr contents else Inl NotFound\<rparr>"

definition sample_accounts :: os_accounts where
  "sample_accounts =
     \<lparr>os_getpwnam = \<lambda>_. Some 1000, os_getgrnam = \<lambda>_. Some 1001,
      os_setgid = \<lambda>g cr. (0, cr\<lparr>cr_gid := g, cr_egid := g\<rparr>),
      os_setuid = \<lambda>u cr. (0, cr\<lparr>cr_uid := u, cr_euid := u\<rparr>)\<rparr>"

definition root_creds :: creds where
  "root_creds = \<lparr>cr_uid = 0, cr_euid = 0, cr_gid = 0, cr_egid = 0, cr_groups = [0]\<rparr>"

abbreviation sample_boot where
  "sample_boot \<equiv> async_run sample_system (\<lambda>_. None) sample_accounts False (config_disk ''ok'') root_creds"

lemma sample_boot_started:
  "case fst sample_boot of Started x \<Rightarrow> ms_phase (main_start (fst x) 0) = Serving | _ \<Rightarrow> False"
  "snd sample_boot = \<lparr>cr_uid = 1000, cr_euid = 1000, cr_gid = 1001, cr_egid = 1001, cr_groups = [0]\<rparr>"
  by code_simp+

lemma sample_boot_Started: "\<exists>sv ls. sample_boot = (Started (sv, ls), snd sample_boot)"
  using sample_boot_started(1) by (auto split: startup.splits) (metis prod.collapse)

section \<open>Reloading\<close>

text \<open>
  Claim C9. A reload is all or nothing. If it succeeds, the new catalog was built to the end from
  the configuration on disk, and the settings that need a restart are the old ones; if it fails in
  any way, the catalog that answers queries, the settings and the log level are exactly what they
  were.
\<close>

theorem reload_atomic:
  assumes "reload_runtime_config sys mode sv = (r, sv')"
  shows "if r = Finished (Inr ())
         then \<exists>cfg. read_config sys (sv_disk sv) = Finished (Inr cfg)
              \<and> build_catalog sys mode cfg (sv_disk sv) (sv_registry sv)
                  = (Inr (sv_catalog sv'), sv_disk sv', sv_registry sv')
              \<and> settings_from_config sys (sv_disk sv') cfg = Inr (sv_settings sv')
              \<and> changed_settings (sv_settings sv) (sv_settings sv') = []
         else sv_catalog sv' = sv_catalog sv \<and> sv_settings sv' = sv_settings sv
              \<and> sv_log_level sv' = sv_log_level sv"
proof (cases "r = Finished (Inr ())")
  case True
  then have "reload_runtime_config sys mode sv = (Finished (Inr ()), sv')" using assms by simp
  then show ?thesis
    by (rule reload_succeeded) (auto simp: True same_listening_iff)
next
  case False
  then show ?thesis using reload_failed [OF assms] by (simp add: active_view_def)
qed

definition sample_settings :: reload_settings where
  "sample_settings =
     \<lparr>rs_listen_addrs = [V4 0, V6 0], rs_listen_port = 53, rs_udp_enabled = True, rs_tcp_enabled = True,
      rs_tcp_request_timeout_secs = 5, rs_user = Some ''dns'', rs_group = Some ''dns'',
      rs_filter_refresh_interval_secs = 86400, rs_missing_filter_cache = False\<rparr>"

definition sample_server :: "disk \<Rightarrow> (string, string, rx_item list, ip_addr, forward_config) server" where
  "sample_server d =
     \<lparr>sv_catalog = [], sv_settings = sample_settings, sv_log_level = L_Info, sv_disk = d,
      sv_registry = registry_empty\<rparr>"

theorem reload_atomic_witness:
  "sv_catalog (snd (reload_runtime_config sample_system LoadRefresh (sample_server (config_disk ''bad'')))) = []"
proof -
  let ?r = "reload_runtime_config sample_system LoadRefresh (sample_server (config_disk ''bad''))"
  have "fst ?r = Finished (Inl (ConfigParse ''bad''))" by code_simp
  then show ?thesis
    using reload_atomic [of sample_system LoadRefresh "sample_server (config_disk ''bad'')" "fst ?r" "snd ?r"]
    unfolding prod.collapse by (simp add: sample_server_def)
qed

lemma compiled_build_disk [simp]: "snd (compiled_build libs orders env rc d) = d"
proof -
  obtain r where "load_filters libs env (filter_fetch_options_new (ac_filter_cache_dir rc)) CacheOnly
      (enabled_filters rc) d (rule_sets_default, {}) = (r, d)"
    using load_filters_cache_only_disk by (metis prod.collapse)
  then show ?thesis by (simp add: compiled_build_def build_with_fetch_mode_def split: sum.split)
qed

lemma build_catalog_disk [simp]: "fst (snd (build_catalog sys LoadCacheFirst cfg d rg)) = d"
proof -
  have "snd (build_rules sys LoadCacheFirst cfg d) = d"
  proof (cases "adblock_runtime_config_of cfg")
    case (Some rc)
    have "snd (compiled_build (sys_rules sys) (sys_hash sys) (sys_fetch sys) rc d) = d" by simp
    then show ?thesis
      by (cases "compiled_build (sys_rules sys) (sys_hash sys) (sys_fetch sys) rc d")
        (simp add: build_rules_def Some)
  qed (simp add: build_rules_def)
  then show ?thesis
    by (cases "build_rules sys LoadCacheFirst cfg d") (simp add: build_catalog_def split: prod.split sum.split)
qed

lemma load_cache_first_disk: "fst (snd (load_runtime_config sys LoadCacheFirst d rg)) = d"
proof (cases "read_config sys d")
  case (Finished x)
  then show ?thesis
  proof (cases x)
    case (Inr cfg)
    then show ?thesis
      using Finished build_catalog_disk [of sys cfg d rg]
      by (cases "build_catalog sys LoadCacheFirst cfg d rg") (simp add: load_runtime_config_def)
  qed (simp add: load_runtime_config_def)
qed (simp add: load_runtime_config_def)

lemma install_loaded_disk: "sv_disk (snd (install_loaded sys cfg catalog sv)) = sv_disk sv"
  by (simp add: install_loaded_def Let_def split: sum.split)

text \<open>
  A reload by signal uses the cached filter lists: it leaves the disk as it is.
\<close>

theorem signal_reload_keeps_disk:
  "sv_disk (snd (reload_runtime_config sys LoadCacheFirst sv)) = sv_disk sv"
proof -
  obtain loaded d rg where l: "load_runtime_config sys LoadCacheFirst (sv_disk sv) (sv_registry sv) = (loaded, d, rg)"
    by (metis prod_cases3)
  then have "d = sv_disk sv" using load_cache_first_disk [of sys "sv_disk sv" "sv_registry sv"] by simp
  then show ?thesis
    using l by (auto simp: reload_runtime_config_def Let_def install_loaded_disk split: outcome.split sum.split)
qed

section \<open>The running server\<close>

text \<open>
  Claim C14. Over the whole life of a started server, through reloads, refreshes, failures and
  changes of its files: the settings it listens with are those it was started with, the catalog
  that answers queries was always built completely from some configuration, and the retry delay
  stays between one and thirty seconds.
\<close>

theorem running_server_invariant:
  assumes "async_run sys fails os validate d cr = (Started (sv, listeners), cr')"
    and "main_reachable sys (main_start sv t) ms"
  shows "changed_settings (sv_settings sv) (sv_settings (ms_server ms)) = []
       \<and> complete_catalog sys (sv_catalog (ms_server ms))
       \<and> 1 \<le> ms_retry_secs ms \<and> ms_retry_secs ms \<le> 30"
proof -
  have "complete_catalog sys (sv_catalog sv)"
    using assms(1) unfolding complete_catalog_def by (elim async_run_started) blast
  then have "main_ok sys (sv_settings sv) (main_start sv t)"
    by (simp add: main_ok_def main_start_def)
  from main_reachable_ok [OF assms(2) this] show ?thesis
    by (simp add: main_ok_def same_listening_iff)
qed

theorem running_server_invariant_witness:
  "\<exists>sv. complete_catalog sample_system (sv_catalog (ms_server (on_reload_signal sample_system 5 (main_start sv 0))))
      \<and> (\<exists>ls. sample_boot = (Started (sv, ls), snd sample_boot))"
proof -
  obtain sv ls where b: "sample_boot = (Started (sv, ls), snd sample_boot)" using sample_boot_Started by blast
  have "main_step sample_system (main_start sv 0) (on_reload_signal sample_system 5 (main_start sv 0))"
    by (rule main_step.reload_signal) (simp_all add: main_start_def)
  then have "main_reachable sample_system (main_start sv 0) (on_reload_signal sample_system 5 (main_start sv 0))"
    by (rule main_reachable.step [OF main_reachable.boot])
  then show ?thesis using running_server_invariant [OF b] b by blast
qed

text \<open>
  Claim C32. The refresh timer never spins and never waits too long: after every refresh of the
  filters the next one is at least a second away; while a list is missing from the cache it is at
  most thirty seconds away, and a failure doubles the delay up to that.
\<close>

theorem refresh_timer_bounds:
  assumes "async_run sys fails os validate d cr = (Started (sv, listeners), cr')"
    and "main_reachable sys (main_start sv start_time) ms"
  shows "t + 1 \<le> ms_timer (on_refresh_timer sys t ms)
       \<and> (rs_missing_filter_cache (sv_settings (ms_server (on_refresh_timer sys t ms))) \<longrightarrow>
            ms_timer (on_refresh_timer sys t ms) \<le> t + 30)
       \<and> (fst (reload_runtime_config sys LoadRefresh (ms_server ms)) \<noteq> Finished (Inr ()) \<longrightarrow>
            unat (ms_retry_secs (on_refresh_timer sys t ms)) = min (unat (ms_retry_secs ms) * 2) 30)"
proof -
  let ?r = "reload_runtime_config sys LoadRefresh (ms_server ms)"
  let ?retry = "if fst ?r = Finished (Inr ()) then 1 else next_retry (ms_retry_secs ms)"
  have "complete_catalog sys (sv_catalog sv)"
    using assms(1) unfolding complete_catalog_def by (elim async_run_started) blast
  then have "main_ok sys (sv_settings sv) (main_start sv start_time)"
    by (simp add: main_ok_def main_start_def)
  from main_reachable_ok [OF assms(2) this]
  have b: "1 \<le> ms_retry_secs ms" "ms_retry_secs ms \<le> 30" by (simp_all add: main_ok_def)
  have n: "unat (ms_retry_secs ms) \<le> 30" using b(2) by (simp add: word_le_nat_alt)
  have retry: "1 \<le> ?retry" "?retry \<le> 30" using next_retry_bounds [OF b] by simp_all
  then have max: "unat (max ?retry 1) \<le> 30" by (simp add: max_def word_le_nat_alt)
  have timer: "ms_timer (on_refresh_timer sys t ms) = t + next_filter_refresh ?retry (sv_settings (snd ?r))"
    and server: "ms_server (on_refresh_timer sys t ms) = snd ?r"
    and secs: "ms_retry_secs (on_refresh_timer sys t ms) = ?retry"
    by (simp_all add: on_refresh_timer_def Let_def after_reload_def split: prod.split)
  have "t + 1 \<le> ms_timer (on_refresh_timer sys t ms)"
    unfolding timer using next_filter_refresh_pos [of ?retry "sv_settings (snd ?r)"] by linarith
  moreover have "ms_timer (on_refresh_timer sys t ms) \<le> t + 30"
    if "rs_missing_filter_cache (sv_settings (ms_server (on_refresh_timer sys t ms)))"
    using that max unfolding timer server by (simp add: next_filter_refresh_def filter_refresh_delay_def)
  moreover have "unat (ms_retry_secs (on_refresh_timer sys t ms)) = min (unat (ms_retry_secs ms) * 2) 30"
    if "fst ?r \<noteq> Finished (Inr ())"
    unfolding secs using that unat_next_retry [OF n] by simp
  ultimately show ?thesis by blast
qed

theorem refresh_timer_bounds_witness:
  "\<exists>sv ls. sample_boot = (Started (sv, ls), snd sample_boot)
      \<and> 8 \<le> ms_timer (on_refresh_timer sample_system 7 (main_start sv 0))"
proof -
  obtain sv ls where b: "sample_boot = (Started (sv, ls), snd sample_boot)" using sample_boot_Started by blast
  show ?thesis
    using refresh_timer_bounds [OF b main_reachable.boot, where start_time = 0 and t = 7] b by auto
qed

text \<open>
  A configuration file that cannot be read when the server is told to reload, or when a
  refresh is due, does not fail the reload: it ends the running server by a panic.
\<close>

theorem unreadable_config_crashes_server:
  assumes "ms_phase ms = Serving" and "ms_now ms \<le> t"
    and "read_file (sv_disk (ms_server ms)) (sys_config_path sys) = Inl e"
  shows "main_step sys ms (on_reload_signal sys t ms) \<and> ms_phase (on_reload_signal sys t ms) = Crashed
       \<and> ms_phase (on_refresh_timer sys t ms) = Crashed"
proof -
  have "\<exists>sv. reload_runtime_config sys mode (ms_server ms) = (Panicked, sv)" for mode
    using assms(3) by (simp add: reload_runtime_config_def load_runtime_config_def read_config_def Let_def)
  then obtain sv sv' where
    r: "reload_runtime_config sys LoadCacheFirst (ms_server ms) = (Panicked, sv)"
      "reload_runtime_config sys LoadRefresh (ms_server ms) = (Panicked, sv')" by metis
  have "main_step sys ms (on_reload_signal sys t ms)" by (rule main_step.reload_signal [OF assms(1,2)])
  then show ?thesis by (simp add: on_reload_signal_def on_refresh_timer_def after_reload_def r)
qed

theorem unreadable_config_crashes_server_witness:
  "ms_phase (on_reload_signal sample_system 9 (main_start (sample_server empty_disk) 0)) = Crashed"
proof -
  let ?ms = "main_start (sample_server empty_disk) 0"
  have "read_file (sv_disk (ms_server ?ms)) (sys_config_path sample_system) = Inl NotFound"
    by (simp add: main_start_def sample_server_def empty_disk_def)
  then show ?thesis
    using unreadable_config_crashes_server [of ?ms 9 sample_system NotFound]
    by (simp add: main_start_def)
qed

section \<open>Start-up\<close>

lemma settings_from_configD:
  assumes "settings_from_config sys d cfg = Inr settings"
  shows "rs_listen_port settings = listen_port cfg" "effective_listen_addrs cfg = Inr (rs_listen_addrs settings)"
proof -
  obtain addrs where "effective_listen_addrs cfg = Inr addrs"
    using assms by (cases "effective_listen_addrs cfg") (auto simp: settings_from_config_def)
  then show "rs_listen_port settings = listen_port cfg" "effective_listen_addrs cfg = Inr (rs_listen_addrs settings)"
    using assms by (auto simp: settings_from_config_def)
qed

text \<open>The addresses a configuration asks for: those its texts denote, or the two unspecified ones if
  it lists none.\<close>

definition configured_addrs :: "server_config \<Rightarrow> ip_addr set" where
  "configured_addrs cfg =
     (if cfg_listen_addrs_ipv4 cfg = [] \<and> cfg_listen_addrs_ipv6 cfg = [] then {V4 0, V6 0}
      else V4 ` {a. \<exists>s\<in>set (cfg_listen_addrs_ipv4 cfg). parse_ipv4 s = Some a}
           \<union> V6 ` {a. \<exists>s\<in>set (cfg_listen_addrs_ipv6 cfg). parse_ipv6 s = Some a})"

lemma collect_parsed:
  assumes "collect_results (\<lambda>s. ok_or (e s) (parse s)) ss = Inr xs"
  shows "set xs = {a. \<exists>s\<in>set ss. parse s = Some a}" and "xs = [] \<longleftrightarrow> ss = []"
    and "\<forall>s\<in>set ss. parse s \<noteq> None"
proof -
  have "set xs = {a. \<exists>s\<in>set ss. parse s = Some a} \<and> (xs = [] \<longleftrightarrow> ss = []) \<and> (\<forall>s\<in>set ss. parse s \<noteq> None)"
    using assms
  proof (induction ss arbitrary: xs)
    case (Cons s ss)
    obtain x where x: "parse s = Some x" using Cons.prems by (cases "parse s") (simp_all add: ok_or_def)
    obtain ys where "collect_results (\<lambda>s. ok_or (e s) (parse s)) ss = Inr ys" "xs = x # ys"
      using Cons.prems x by (auto simp: ok_or_def split: sum.splits)
    then show ?case using Cons.IH x by auto
  qed simp
  then show "set xs = {a. \<exists>s\<in>set ss. parse s = Some a}" "xs = [] \<longleftrightarrow> ss = []" "\<forall>s\<in>set ss. parse s \<noteq> None"
    by blast+
qed

lemma effective_listen_addrs_configured:
  assumes "effective_listen_addrs cfg = Inr addrs"
  shows "set addrs = configured_addrs cfg"
    and "\<forall>s\<in>set (cfg_listen_addrs_ipv4 cfg). parse_ipv4 s \<noteq> None"
    and "\<forall>s\<in>set (cfg_listen_addrs_ipv6 cfg). parse_ipv6 s \<noteq> None"
proof -
  obtain v4 v6 where v: "listen_addrs_ipv4 cfg = Inr v4" "listen_addrs_ipv6 cfg = Inr v6"
    and addrs: "addrs = sort (if map V4 v4 @ map V6 v6 = [] then [V4 0, V6 0] else map V4 v4 @ map V6 v6)"
    using assms by (auto simp: effective_listen_addrs_def rbind_Inr_iff Let_def)
  note parsed = collect_parsed [OF v(1) [unfolded listen_addrs_ipv4_def]] collect_parsed [OF v(2) [unfolded listen_addrs_ipv6_def]]
  show "set addrs = configured_addrs cfg"
    unfolding addrs configured_addrs_def using parsed(1,2,4,5) by auto
  show "\<forall>s\<in>set (cfg_listen_addrs_ipv4 cfg). parse_ipv4 s \<noteq> None" "\<forall>s\<in>set (cfg_listen_addrs_ipv6 cfg). parse_ipv6 s \<noteq> None"
    by (fact parsed)+
qed

text \<open>
  Claim C30. When the server has started, every address its configuration lists is valid and has its
  UDP and its TCP socket, unless that protocol is disabled, and there is no other socket; a
  configuration without addresses listens on the two unspecified ones. All calls for these sockets
  succeeded, the lookups of their local addresses included, and an IPv6 socket is restricted to IPv6
  before it is bound, so that it never takes IPv4 traffic.
\<close>

theorem started_listeners:
  assumes "async_run sys fails os validate d cr = (Started (sv, listeners), cr')"
  shows "\<exists>cfg. read_config sys d = Finished (Inr cfg)
     \<and> (\<forall>s\<in>set (cfg_listen_addrs_ipv4 cfg). parse_ipv4 s \<noteq> None)
     \<and> (\<forall>s\<in>set (cfg_listen_addrs_ipv6 cfg). parse_ipv6 s \<noteq> None)
     \<and> (UdpListener ip \<in> set listeners) = (\<not> disable_udp cfg \<and> ip \<in> configured_addrs cfg)
     \<and> (TcpListener ip \<in> set listeners) = (\<not> disable_tcp cfg \<and> ip \<in> configured_addrs cfg)
     \<and> set (rs_listen_addrs (sv_settings sv)) = configured_addrs cfg
     \<and> (l \<in> set listeners \<longrightarrow> c \<in> set (listener_calls (listen_port cfg) l) \<longrightarrow> fails c = None)
     \<and> (listener_ip l = V6 a \<longrightarrow>
          (\<exists>before after. listener_calls (listen_port cfg) l = before @ BindTo (sock_new (V6 a) (listen_port cfg)) # after
             \<and> SetOnlyV6 True \<in> set before))"
proof -
  obtain cfg where cfg: "read_config sys d = Finished (Inr cfg)"
    and settings: "settings_from_config sys (sv_disk sv) cfg = Inr (sv_settings sv)"
    and ls: "listeners = planned_listeners cfg (sv_settings sv)"
    and bind: "bind_all fails (rs_listen_port (sv_settings sv)) listeners = Inr ()"
    using assms by (rule async_run_started)
  note port = settings_from_configD(1) [OF settings]
  note addrs = effective_listen_addrs_configured [OF settings_from_configD(2) [OF settings]]
  have "fails c = None" if "l \<in> set listeners" "c \<in> set (listener_calls (listen_port cfg) l)"
    using bind that unfolding bind_all_Inr port by blast
  then show ?thesis
    using cfg addrs listener_calls_v6_only [of l a "listen_port cfg"]
    by (intro exI [of _ cfg]) (auto simp: ls planned_listeners_def)
qed

lemma sample_boot_listeners:
  "case fst sample_boot of
     Started x \<Rightarrow> snd x = [UdpListener (V4 0), UdpListener (V6 0), TcpListener (V4 0), TcpListener (V6 0)]
   | _ \<Rightarrow> False"
  by code_simp

theorem started_listeners_witness:
  "\<exists>sv ls. sample_boot = (Started (sv, ls), snd sample_boot) \<and> V6 0 \<in> set (rs_listen_addrs (sv_settings sv))"
proof -
  obtain sv ls where b: "sample_boot = (Started (sv, ls), snd sample_boot)" using sample_boot_Started by blast
  then have "fst sample_boot = Started (sv, ls)" by (metis fst_conv)
  then have "UdpListener (V6 0) \<in> set ls" using sample_boot_listeners by simp
  then show ?thesis using started_listeners [OF b, of "V6 0"] b by blast
qed

text \<open>
  Claim C39. A server started by root with a user and a group configured runs with exactly the
  ids of those accounts, its real and effective ids both, and both system calls succeeded; but its
  supplementary groups are still those of root. The calls may fail, for root too; a server that
  could not drop its privileges does not start.
\<close>

theorem privileges_dropped:
  assumes "async_run sys fails os validate d cr = (Started (sv, listeners), cr')"
    and "posix_accounts os" and "cr_euid cr = 0" and "read_config sys d = Finished (Inr cfg)"
    and "cfg_user cfg = Some user"
  shows "\<exists>grp. cfg_group cfg = Some grp
     \<and> os_getpwnam os user = Some (cr_uid cr') \<and> cr_euid cr' = cr_uid cr'
     \<and> os_getgrnam os grp = Some (cr_gid cr') \<and> cr_egid cr' = cr_gid cr'
     \<and> cr_groups cr' = cr_groups cr
     \<and> (\<exists>cr1. os_setgid os (cr_gid cr') cr = (0, cr1) \<and> os_setuid os (cr_uid cr') cr1 = (0, cr'))"
proof -
  have drop: "drop_privileges os cfg cr = (Inr (), cr')"
    using assms(1,4) by (elim async_run_started) auto
  then obtain grp where "cfg_group cfg = Some grp" "check_drop_privs os user grp cr = (Inr (), cr')"
    using assms(5) by (auto simp: drop_privileges_def split: option.splits)
  then show ?thesis using check_drop_privs_root [OF assms(2,3)] by blast
qed

lemma sample_accounts_posix: "posix_accounts sample_accounts"
  by (simp add: posix_accounts_def sample_accounts_def)

lemma sample_config_read:
  "case read_config sample_system (config_disk ''ok'') of
     Finished r \<Rightarrow> is_ok r \<and> cfg_user (projr r) = Some ''dns'' | Panicked \<Rightarrow> False"
  by code_simp

theorem privileges_dropped_witness:
  "cr_euid (snd sample_boot) = cr_uid (snd sample_boot) \<and> cr_groups (snd sample_boot) = [0]"
proof -
  obtain sv ls where b: "sample_boot = (Started (sv, ls), snd sample_boot)" using sample_boot_Started by blast
  obtain cfg where "read_config sample_system (config_disk ''ok'') = Finished (Inr cfg)" "cfg_user cfg = Some ''dns''"
    using sample_config_read by (auto split: outcome.splits dest: is_okD)
  then show ?thesis
    using privileges_dropped [OF b sample_accounts_posix, of cfg "''dns''"] by (auto simp: root_creds_def)
qed

text \<open>
  Validating a configuration has no effects: it binds nothing, changes no credentials
  and its verdict depends neither on the sockets nor on the accounts of the machine. So it also
  accepts a configuration with a user and no group, with which the server refuses to start.
\<close>

theorem validate_has_no_effects:
  "snd (async_run sys fails os True d cr) = cr
   \<and> fst (async_run sys fails os True d cr) = fst (async_run sys fails' os' True d cr')
   \<and> fst (async_run sys fails os True d cr) \<noteq> Started x"
  by (auto simp: async_run_def Let_def split: outcome.split sum.split prod.split)

text \<open>
  The listeners live and die together: the server's run ends well if and only if every
  listener ended without an error after shutdown had been requested; the first listener that
  fails, or ends on its own, makes the supervisor request the shutdown of all the others.
\<close>

theorem listeners_supervised:
  "(fst (supervise tasks) = Inr ()) = list_all (\<lambda>(cancelled, r). cancelled \<and> r = Inr ()) tasks
   \<and> snd (supervise tasks) = (fst (supervise tasks) \<noteq> Inr ())
   \<and> is_ok (finish_server_run version (fst (supervise tasks))) = (fst (supervise tasks) = Inr ())"
  using supervise_Inr [of tasks] supervise_cancels [of tasks]
  by (auto simp: list_all_iff finish_server_run_def split: sum.split)

end
