(* ===== verification/System_Facts.thy ===== *)
theory System_Facts
  imports Server_Properties
begin

text \<open>
  Facts that span components: the lines a start-up build reads, from the cached lists and from the
  user, the catalog of a server with one zone, and what its chain answers.
\<close>

section \<open>The lines a build reads\<close>

text \<open>A list without a readable cached copy contributes nothing.\<close>

definition cached_lines ::
    "('c, 'r) fetch_env \<Rightarrow> filter_fetch_options \<Rightarrow> disk \<Rightarrow> filter_config \<Rightarrow> (rule_origin \<times> string) list" where
  "cached_lines env options d filt =
     (case read_file d (cache_path_for env options filt) of
        Inl _ \<Rightarrow> []
      | Inr contents \<Rightarrow> map (Pair RemoteFilter) (lines_of contents))"

definition config_lines ::
    "('c, 'r) fetch_env \<Rightarrow> adblock_runtime_config \<Rightarrow> disk \<Rightarrow> (rule_origin \<times> string) list" where
  "config_lines env config d =
     concat (map (cached_lines env (filter_fetch_options_new (ac_filter_cache_dir config)) d)
               (enabled_filters config))
     @ map (Pair UserRule) (ac_user_rules config)"

lemma parse_inputs_append:
  "parse_inputs libs (xs @ ys) st = rbind (parse_inputs libs xs st) (parse_inputs libs ys)"
  by (simp add: parse_inputs_def fold_results_append)

lemma parse_rule_lines_inputs:
  "parse_rule_lines libs origin contents st = parse_inputs libs (map (Pair origin) (lines_of contents)) st"
proof -
  have "fold_results (parse_rule_line libs origin) ls st = parse_inputs libs (map (Pair origin) ls) st" for ls
    by (induction ls arbitrary: st) (auto simp: parse_inputs_def split: sum.split)
  then show ?thesis by (simp add: parse_rule_lines_def)
qed

lemma load_filters_cached_lines:
  "load_filters libs env options CacheOnly filters d st =
     (map_err RuleError (parse_inputs libs (concat (map (cached_lines env options d) filters)) st), d)"
proof (induction filters arbitrary: st)
  case Nil
  show ?case by (simp add: parse_inputs_def)
next
  case (Cons f fs)
  show ?case
  proof (cases "read_file d (cache_path_for env options f)")
    case (Inl e)
    then show ?thesis using Cons by (simp add: fetch_filter_def Let_def cached_lines_def)
  next
    case (Inr contents)
    then show ?thesis
      using Cons
      by (cases "parse_rule_lines libs RemoteFilter contents st")
        (simp_all add: fetch_filter_def Let_def cached_lines_def parse_inputs_append parse_rule_lines_inputs)
  qed
qed

lemma compiled_build_lines:
  "compiled_build libs orders env config d =
     (map_err RuleError
        (rbind (parse_inputs libs (config_lines env config d) (rule_sets_default, {}))
           (finish_build libs orders config)), d)"
  unfolding compiled_build_def build_with_fetch_mode_def load_filters_cached_lines config_lines_def
    parse_inputs_append
  by (cases "parse_inputs libs (concat (map (cached_lines env
        (filter_fetch_options_new (ac_filter_cache_dir config)) d) (enabled_filters config))) (rule_sets_default, {})")
    (simp_all add: parse_user_rules_inputs Let_def)

text \<open>What a build without complex rules decides.\<close>

lemma compiled_build_decides:
  fixes compiled :: "('rx, 'net) compiled_rule_sets"
  assumes "compiled_build libs orders env config d = (Inr compiled, d')" and "hash_orders_ok orders"
    and "parse_inputs libs (config_lines env config d) (rule_sets_default, {}) = Inr (rules, {})"
    and "block_rules rules = []" and "allow_rules rules = []"
  shows "blocks_query libs (full_block_authority names origin compiled) name t \<longleftrightarrow>
           some_rule_covers Block (input_ops (config_lines env config d)) name
           \<and> \<not> some_rule_covers Allow (input_ops (config_lines env config d)) name"
proof (rule finish_build_decides [OF _ assms(2-5)])
  show "finish_build libs orders config (rules, {}) = Inr compiled"
    using assms(1) unfolding compiled_build_lines assms(3) by simp
qed

section \<open>A server with one zone\<close>

lemma build_catalog_single_zone:
  assumes "build_catalog sys LoadCacheFirst cfg d rg = (Inr catalog, d', rg')"
    and "cfg_zones cfg = [zone]" and "zone_stores zone = [store]"
    and "adblock_runtime_config_of cfg = Some rc"
  obtains compiled origin forwarder hs where
    "compiled_build (sys_rules sys) (sys_hash sys) (sys_fetch sys) rc d = (Inr compiled, d')"
    "build_authorities (sys_names sys) (sys_maps sys) (read_file d') origin forwarder compiled = Inr hs"
    "catalog = [(lower_of_name (sys_names sys) origin, hs)]"
  using assms
  by (auto simp: build_catalog_def build_rules_def zone_load_def rbind_Inr_iff split: prod.splits sum.splits)

text \<open>The answer to a blocked query, as configured.\<close>

definition configured_block_response ::
    "('n, 'm) name_libs \<Rightarrow> filtering_config \<Rightarrow> 'm \<Rightarrow> record_type \<Rightarrow> 'o \<Rightarrow> ('n, 'o, 'l, 'e) lookup_result" where
  "configured_block_response names filtering name rtype options =
     (case fg_blocking_mode filtering of
        BM_Default \<Rightarrow>
          Break (Inr (block_lookup_records names name rtype options
                        (unwrap_or 0 (fg_blocking_ipv4 filtering)) (unwrap_or 0 (fg_blocking_ipv6 filtering)) 60))
      | BM_Nxdomain \<Rightarrow> Break (Inl (LE_ResponseCode RC_NXDomain)))"

lemma finish_build_parts:
  assumes "finish_build libs orders config (rules, {}) = Inr compiled" and "hash_orders_ok orders"
  shows "overrides compiled = overrides rules" "ptr_overrides compiled = ptr_overrides rules"
    "lan_hosts compiled = ac_lan_hosts config"
    "block_response names (full_block_authority names origin compiled) name rtype options
       = configured_block_response names (ac_filtering config) name rtype options"
proof -
  have none: "disabled_order orders {} = []" using assms(2) by (force simp: hash_orders_ok_def)
  then show "overrides compiled = overrides rules" "ptr_overrides compiled = ptr_overrides rules"
    "lan_hosts compiled = ac_lan_hosts config"
    using assms(1) by (auto simp: finish_build_def rbind_Inr_iff apply_badfilters_def Let_def)
  show "block_response names (full_block_authority names origin compiled) name rtype options
       = configured_block_response names (ac_filtering config) name rtype options"
    using assms(1)
    by (auto simp: finish_build_def rbind_Inr_iff Let_def block_response_def full_block_authority_def
        configured_block_response_def unwrap_or_def split: blocking_mode.split option.split)
qed

lemma finish_build_no_rewrites:
  assumes "finish_build libs orders config st = Inr compiled" and "fg_rewrites (ac_filtering config) = []"
    and "hash_orders_ok orders"
  shows "rewrite_authority_of names origin compiled = None"
proof -
  have "mset (rewrite_order orders []) = mset []" using assms(3) unfolding hash_orders_ok_def by blast
  then have "rewrite_order orders [] = []" by simp
  then show ?thesis
    using assms(1,2)
    by (auto simp: finish_build_def rbind_Inr_iff Let_def rewrite_authority_of_def compile_domain_rewrites_def
        compile_answer_ip_rewrites_def compile_cname_rewrites_def split: prod.splits)
qed

section \<open>A sample server\<close>

text \<open>A server that knows one list it has not downloaded yet and one rule of the user's.\<close>

abbreviation sample_boot_cfg :: server_config where
  "sample_boot_cfg \<equiv> case read_config sample_system (config_disk ''ok'') of Finished r \<Rightarrow> projr r"

abbreviation sample_boot_rc :: adblock_runtime_config where
  "sample_boot_rc \<equiv> the (adblock_runtime_config_of sample_boot_cfg)"

lemma sample_boot_config:
  "case read_config sample_system (config_disk ''ok'') of Finished r \<Rightarrow> is_ok r | _ \<Rightarrow> False"
  "length (cfg_zones sample_boot_cfg) = 1" "length (zone_stores (hd (cfg_zones sample_boot_cfg))) = 1"
  "\<not> Option.is_none (adblock_runtime_config_of sample_boot_cfg)"
  "config_lines (sys_fetch sample_system) sample_boot_rc (config_disk ''ok'') = [(UserRule, ''||ads.com^'')]"
  "\<not> lh_enabled (ac_lan_hosts sample_boot_rc)" "fg_rewrites (ac_filtering sample_boot_rc) = []"
  by code_simp+

end
