(* ===== verification/Query_Forwarding.thy ===== *)
theory Query_Forwarding
  imports Serving Forwarder_System System_Facts
begin

text \<open>
  The running server and its forwarders as one system (src/bin/astra-dns.rs, src/lib.rs,
  src/upstream.rs). A query takes the catalog in service when it arrives; the handlers of its zone
  are asked in order, each as it is when its turn comes, for the refresh tasks of the override
  handlers keep loading the leases anew; when they come to a recovering forwarder, a lookup starts
  there, which runs with all others and with the workers of that forwarder; its answer is the one the
  query gets. Reloads create forwarders, and drop those no catalog holds any more.
\<close>

section \<open>The server library\<close>

text \<open>The handlers a walk over a chain asks.\<close>

fun asked_handlers :: "('h \<Rightarrow> 'q \<Rightarrow> ('e, 'a) control_flow) \<Rightarrow> 'h list \<Rightarrow> 'q \<Rightarrow> 'h list" where
  "asked_handlers ask [] q = []"
| "asked_handlers ask (h # hs) q = h # (if ask h q = Skip then asked_handlers ask hs q else [])"

lemma asked_handlers_append:
  "\<forall>h\<in>set before. ask h q = Skip \<Longrightarrow>
   asked_handlers ask (before @ hs) q = before @ asked_handlers ask hs q"
  by (induction before) simp_all

text \<open>What the library does: \<open>sl_find\<close> gives the handlers of a name's zone, \<open>sl_walk\<close> walks
  over them, \<open>sl_replies\<close> says what a forwarder of the library may answer.\<close>

type_synonym ('m, 'o) question = "'m \<times> record_type \<times> 'o"

record ('n, 'm, 'rx, 'net, 'f, 'o, 'l, 'e) server_lib =
  sl_find :: "('n, 'm, 'rx, 'net, 'f) catalog \<Rightarrow> 'm \<Rightarrow> ('n, 'm, 'rx, 'net, 'f forwarder_ref) handler list option"
  sl_walk :: "('f forwarder_ref \<Rightarrow> 'm \<Rightarrow> record_type \<Rightarrow> 'o \<Rightarrow> ('n, 'o, 'l, 'e) lookup_result)
                \<Rightarrow> ('n, 'm, 'rx, 'net, 'f forwarder_ref) handler list \<Rightarrow> ('m, 'o) question \<Rightarrow> ('n, 'o, 'l, 'e) lookup_result"
  sl_replies :: "'f \<Rightarrow> ('m, 'o) question \<Rightarrow> ('n, 'o, 'l, 'e) lookup_result \<Rightarrow> bool"
  sl_iter :: "('n, 'o, 'l) auth_lookup \<Rightarrow> 'n dns_record list"

abbreviation sys_ask where
  "sys_ask sys forward \<equiv> ask_handler (sys_rules sys) (sys_names sys) forward"

definition server_lib_documented ::
    "('rx, 'net, 'c, 'r, 'res, 'n, 'm, 'f) system \<Rightarrow> ('n, 'm, 'rx, 'net, 'f, 'o, 'l, 'e) server_lib \<Rightarrow> bool" where
  "server_lib_documented sys lib \<longleftrightarrow>
     (\<forall>catalog name hs. sl_find lib catalog name = Some hs \<longrightarrow> hs \<in> snd ` set catalog)
     \<and> (\<forall>forward. catalog_documented (sys_ask sys forward)
                    (consult_handler (sys_rules sys) (sys_names sys) (sl_iter lib)) (sl_walk lib forward))"

section \<open>Forwarders in the server\<close>

text \<open>Queries are numbered as they arrive.\<close>

type_synonym ('m, 'o) query = "nat \<times> ('m, 'o) question"

record ('n, 'm, 'f, 'o, 'l, 'e) running_forwarder =
  fo_origin :: 'n
  fo_options :: resolver_opts
  fo_state :: "(('m, 'o) query, 'f, 'e, ('n, 'o, 'l) auth_lookup) forwarder_state"

type_synonym ('n, 'm, 'rx, 'net, 'f) chain = "('n, 'm, 'rx, 'net, 'f forwarder_ref) handler list"

text \<open>The catalogs are numbered too, as they are installed. \<open>fw_views\<close> gives the handlers of an
  installed catalog as they are now, for each chain as it was built: its override handlers share
  their lease caches with their refresh tasks. \<open>fw_taken\<close> is the number of the catalog a query took,
  \<open>fw_asked\<close> are the handlers it has asked so far, as they were when it asked them.\<close>

record ('n, 'm, 'rx, 'net, 'f, 'o, 'l, 'e) forwarding_state =
  fw_serving :: "('n, 'm, 'rx, 'net, 'f, ('m, 'o) query, ('n, 'o, 'l, 'e) lookup_result option) serving_state"
  fw_running :: "nat \<Rightarrow> ('n, 'm, 'f, 'o, 'l, 'e) running_forwarder option"
  fw_next :: nat
  fw_generation :: nat
  fw_views :: "nat \<Rightarrow> ('n, 'm, 'rx, 'net, 'f) chain \<Rightarrow> ('n, 'm, 'rx, 'net, 'f) chain"
  fw_taken :: "nat \<Rightarrow> nat"
  fw_asked :: "nat \<Rightarrow> ('n, 'm, 'rx, 'net, 'f) chain"

abbreviation fw_disk :: "('n, 'm, 'rx, 'net, 'f, 'o, 'l, 'e) forwarding_state \<Rightarrow> disk" where
  "fw_disk s \<equiv> sv_disk (ms_server (sg_main (fw_serving s)))"

text \<open>The queries a forwarder was asked.\<close>

definition asked_queries :: "('q, 'f, 'e, 'a) forwarder_state \<Rightarrow> 'q multiset" where
  "asked_queries fs = mset (map lk_query (fs_lookups fs)) + mset (map fl_query (fs_answers fs))"

definition query_replies where
  "query_replies lib f query x = sl_replies lib f (snd query) x"

text \<open>What a forwarder does by itself: its workers and the loops of its lookups. Lookups start
  and are given up only for the queries, and it stops only when it is dropped.\<close>

definition forwarder_works ::
    "('res, 'n, 'f) net_libs \<Rightarrow> recovery_timing \<Rightarrow> 'n \<Rightarrow> resolver_opts
     \<Rightarrow> ('f \<Rightarrow> 'q \<Rightarrow> ('e, 'a) control_flow \<Rightarrow> bool)
     \<Rightarrow> ('q, 'f, 'e, 'a) forwarder_state \<Rightarrow> ('q, 'f, 'e, 'a) forwarder_state \<Rightarrow> bool" where
  "forwarder_works net timing origin options replies fs fs' \<longleftrightarrow>
     forwarder_step net timing origin options replies fs fs' \<and> asked_queries fs' = asked_queries fs
     \<and> (\<forall>w. Recovered w \<in> set (fs_slots fs') \<longrightarrow> wk_phase w \<noteq> Stopped)"

text \<open>A query that is done or cancelled takes its lookups with it.\<close>

definition drop_lookups :: "('q \<Rightarrow> bool) \<Rightarrow> ('q, 'f, 'e, 'a) forwarder_state \<Rightarrow> ('q, 'f, 'e, 'a) forwarder_state" where
  "drop_lookups keep fs = fs\<lparr>fs_lookups := filter (\<lambda>lk. keep (lk_query lk)) (fs_lookups fs)\<rparr>"

definition abandon ::
    "(('m, 'o) query \<Rightarrow> bool) \<Rightarrow> (nat \<Rightarrow> ('n, 'm, 'f, 'o, 'l, 'e) running_forwarder option)
     \<Rightarrow> nat \<Rightarrow> ('n, 'm, 'f, 'o, 'l, 'e) running_forwarder option" where
  "abandon keep running = map_option (\<lambda>fo. fo\<lparr>fo_state := drop_lookups keep (fo_state fo)\<rparr>) \<circ> running"

definition lookup_begun ::
    "('m, 'o) query \<Rightarrow> ('n, 'm, 'f, 'o, 'l, 'e) running_forwarder \<Rightarrow> ('n, 'm, 'f, 'o, 'l, 'e) running_forwarder" where
  "lookup_begun query fo =
     fo\<lparr>fo_state := (fo_state fo)\<lparr>fs_lookups :=
          fs_lookups (fo_state fo) @ [lookup_start query (map current_slot (fs_slots (fo_state fo)))]\<rparr>\<rparr>"

text \<open>The registry's key says for which zone and configuration a forwarder was made.\<close>

definition made_forwarder ::
    "('rx, 'net, 'c, 'r, 'res, 'n, 'm, 'f) system \<Rightarrow> 'n \<Rightarrow> compact_forward_config
     \<Rightarrow> string \<times> ('m, 'f) recovering_forwarder \<Rightarrow> bool" where
  "made_forwarder sys origin config entry \<longleftrightarrow>
     fst entry = sys_key_text sys origin config
     \<and> recovering_new (sys_net sys) (lower_of_name (sys_names sys)) origin config = Inr (snd entry)"

definition new_forwarder ::
    "('rx, 'net, 'c, 'r, 'res, 'n, 'm, 'f) system \<Rightarrow> string \<times> ('m, 'f) recovering_forwarder
     \<Rightarrow> ('n, 'm, 'f, 'o, 'l, 'e) running_forwarder \<Rightarrow> bool" where
  "new_forwarder sys entry fo \<longleftrightarrow>
     (\<exists>origin config t. made_forwarder sys origin config entry
        \<and> fo = \<lparr>fo_origin = origin, fo_options = recovering_options (sys_net sys) config,
                fo_state = forwarder_start recovery_timing_default t (snd entry)\<rparr>)"

definition forwarders_follow ::
    "('rx, 'net, 'c, 'r, 'res, 'n, 'm, 'f) system \<Rightarrow> ('m, 'f) registry \<Rightarrow> ('m, 'f) registry
     \<Rightarrow> (nat \<Rightarrow> ('n, 'm, 'f, 'o, 'l, 'e) running_forwarder option)
     \<Rightarrow> (nat \<Rightarrow> ('n, 'm, 'f, 'o, 'l, 'e) running_forwarder option) \<Rightarrow> bool" where
  "forwarders_follow sys rg rg' running running' \<longleftrightarrow>
     (\<forall>i. if rg_live rg' i = rg_live rg i then running' i = running i
          else (case rg_live rg' i of
                  None \<Rightarrow> running' i = None
                | Some entry \<Rightarrow> \<exists>fo. running' i = Some fo \<and> new_forwarder sys entry fo))"

text \<open>The answers of the forwarders among \<open>hs\<close> to a query are known.\<close>

definition upstream_answer ::
    "('n, 'm, 'rx, 'net, 'f, 'o, 'l, 'e) server_lib
     \<Rightarrow> (nat \<Rightarrow> ('n, 'm, 'f, 'o, 'l, 'e) running_forwarder option) \<Rightarrow> ('m, 'o) query \<Rightarrow> 'f forwarder_ref
     \<Rightarrow> ('n, 'o, 'l, 'e) lookup_result \<Rightarrow> bool" where
  "upstream_answer lib running query forwarder x =
     (case forwarder of
        OwnForwarder f \<Rightarrow> sl_replies lib f (snd query) x
      | SharedForwarder i \<Rightarrow>
          \<exists>fo fl. running i = Some fo \<and> fl \<in> set (fs_answers (fo_state fo))
            \<and> fl_query fl = query \<and> fl_answer fl = x)"

definition answers_known where
  "answers_known answer query forward hs \<longleftrightarrow>
     (\<forall>f. H_Forwarder f \<in> set hs \<longrightarrow>
        answer query f (forward f (fst (snd query)) (fst (snd (snd query))) (snd (snd (snd query)))))"

section \<open>The system\<close>

text \<open>The main loop keeps its catalog, or a reload has installed one.\<close>

definition catalog_installed ::
    "('rx, 'net, 'c, 'r, 'res, 'n, 'm, 'f) system \<Rightarrow> ('n, 'm, 'rx, 'net, 'f) main_state
     \<Rightarrow> ('n, 'm, 'rx, 'net, 'f) main_state \<Rightarrow> bool" where
  "catalog_installed sys ms ms' \<longleftrightarrow>
     (\<exists>mode. reload_runtime_config sys mode (ms_server ms) = (Finished (Inr ()), ms_server ms'))"

definition generation_after ::
    "('rx, 'net, 'c, 'r, 'res, 'n, 'm, 'f) system \<Rightarrow> ('n, 'm, 'rx, 'net, 'f) main_state
     \<Rightarrow> ('n, 'm, 'rx, 'net, 'f) main_state \<Rightarrow> nat \<Rightarrow> nat \<Rightarrow> bool" where
  "generation_after sys ms ms' g g' \<longleftrightarrow>
     g' = g \<and> sv_catalog (ms_server ms') = sv_catalog (ms_server ms)
     \<or> g' = Suc g \<and> catalog_installed sys ms ms'"

text \<open>\<open>leases_refreshed\<close> is one tick of the refresh task of an override handler. \<open>asks\<close> is the next
  handler's turn; when it is a shared forwarder, \<open>asks_forwarder\<close> starts the lookup there. \<open>answers\<close>
  ends the walk, when the last handler asked has decided or none is left.\<close>

inductive forwarding_step ::
    "('rx, 'net, 'c, 'r, 'res, 'n, 'm, 'f) system \<Rightarrow> ('n, 'm, 'rx, 'net, 'f, 'o, 'l, 'e) server_lib
     \<Rightarrow> ('n, 'm, 'rx, 'net, 'f, 'o, 'l, 'e) forwarding_state
     \<Rightarrow> ('n, 'm, 'rx, 'net, 'f, 'o, 'l, 'e) forwarding_state \<Rightarrow> bool"
  for sys lib where
  main_loop: "main_step sys (sg_main (fw_serving s)) ms \<Longrightarrow>
     dropped (current_registry (fw_serving s)) (sv_registry (ms_server ms)) \<inter> in_use (fw_serving s) = {} \<Longrightarrow>
     forwarders_follow sys (current_registry (fw_serving s)) (sv_registry (ms_server ms)) (fw_running s) running \<Longrightarrow>
     generation_after sys (sg_main (fw_serving s)) ms (fw_generation s) generation \<Longrightarrow>
     forwarding_step sys lib s
       (s\<lparr>fw_serving := (fw_serving s)\<lparr>sg_main := ms\<rparr>, fw_running := running, fw_generation := generation\<rparr>)"
| leases_refreshed: "in_operation (fw_serving s) \<Longrightarrow> generation \<le> fw_generation s \<Longrightarrow>
     fw_views s generation hs = before @ h # after \<Longrightarrow>
     forwarding_step sys lib s
       (s\<lparr>fw_views := (fw_views s)(generation := (fw_views s generation)
            (hs := before @ refreshed_handler (read_file (fw_disk s)) h # after))\<rparr>)"
| forwarder: "fw_running s i = Some fo \<Longrightarrow>
     forwarder_works (sys_net sys) recovery_timing_default (fo_origin fo) (fo_options fo) (query_replies lib)
       (fo_state fo) fs \<Longrightarrow>
     forwarding_step sys lib s (s\<lparr>fw_running := (fw_running s)(i \<mapsto> fo\<lparr>fo_state := fs\<rparr>)\<rparr>)"
| arrives: "in_operation (fw_serving s) \<Longrightarrow>
     forwarding_step sys lib s
       (s\<lparr>fw_serving := catalog_request (fw_next s, q) (fw_serving s), fw_next := Suc (fw_next s),
          fw_taken := (fw_taken s)(fw_next s := fw_generation s), fw_asked := (fw_asked s)(fw_next s := [])\<rparr>)"
| asks: "in_operation (fw_serving s) \<Longrightarrow> (query, catalog) \<in> set (sg_inflight (fw_serving s)) \<Longrightarrow>
     sl_find lib catalog (fst (snd query)) = Some hs \<Longrightarrow> fw_asked s (fst query) = asked \<Longrightarrow>
     length asked < length hs \<Longrightarrow>
     (\<And>h. h \<in> set asked \<Longrightarrow> sys_ask sys forward h (snd query) = Skip) \<Longrightarrow>
     answers_known (upstream_answer lib (fw_running s)) query forward asked \<Longrightarrow>
     forwarding_step sys lib s
       (s\<lparr>fw_asked := (fw_asked s)(fst query :=
            asked @ [fw_views s (fw_taken s (fst query)) hs ! length asked])\<rparr>)"
| asks_forwarder: "in_operation (fw_serving s) \<Longrightarrow> (query, catalog) \<in> set (sg_inflight (fw_serving s)) \<Longrightarrow>
     sl_find lib catalog (fst (snd query)) = Some hs \<Longrightarrow>
     fw_asked s (fst query) = before @ [H_Forwarder (SharedForwarder i)] \<Longrightarrow>
     fw_running s i = Some fo \<Longrightarrow> query \<notin># asked_queries (fo_state fo) \<Longrightarrow>
     forwarding_step sys lib s (s\<lparr>fw_running := (fw_running s)(i \<mapsto> lookup_begun query fo)\<rparr>)"
| answers: "in_operation (fw_serving s) \<Longrightarrow>
     sg_inflight (fw_serving s) = before @ (query, catalog) # after \<Longrightarrow>
     sl_find lib catalog (fst (snd query)) = Some hs \<Longrightarrow> fw_asked s (fst query) = asked \<Longrightarrow>
     asked_handlers (sys_ask sys forward) (asked @ drop (length asked) hs) (snd query) = asked \<Longrightarrow>
     answers_known (upstream_answer lib (fw_running s)) query forward asked \<Longrightarrow>
     forwarding_step sys lib s
       (s\<lparr>fw_serving := (fw_serving s)\<lparr>sg_inflight := before @ after,
            sg_answered := (query, catalog, Some (sl_walk lib forward (asked @ drop (length asked) hs) (snd query)))
              # sg_answered (fw_serving s)\<rparr>,
          fw_running := abandon (\<lambda>query'. query' \<noteq> query) (fw_running s)\<rparr>)"
| refuses: "in_operation (fw_serving s) \<Longrightarrow>
     sg_inflight (fw_serving s) = before @ (query, catalog) # after \<Longrightarrow>
     sl_find lib catalog (fst (snd query)) = None \<Longrightarrow>
     forwarding_step sys lib s
       (s\<lparr>fw_serving := (fw_serving s)\<lparr>sg_inflight := before @ after,
            sg_answered := (query, catalog, None) # sg_answered (fw_serving s)\<rparr>\<rparr>)"
| gives_up: "forwarding_step sys lib s
     (s\<lparr>fw_serving := (fw_serving s)\<lparr>sg_inflight := filter keep (sg_inflight (fw_serving s))\<rparr>,
        fw_running := abandon (\<lambda>query. query \<in> fst ` set (filter keep (sg_inflight (fw_serving s)))) (fw_running s)\<rparr>)"

inductive forwarding_reachable ::
    "('rx, 'net, 'c, 'r, 'res, 'n, 'm, 'f) system \<Rightarrow> ('n, 'm, 'rx, 'net, 'f, 'o, 'l, 'e) server_lib
     \<Rightarrow> ('n, 'm, 'rx, 'net, 'f, 'o, 'l, 'e) forwarding_state
     \<Rightarrow> ('n, 'm, 'rx, 'net, 'f, 'o, 'l, 'e) forwarding_state \<Rightarrow> bool"
  for sys lib start where
  boot: "forwarding_reachable sys lib start start"
| step: "forwarding_reachable sys lib start s \<Longrightarrow> forwarding_step sys lib s s' \<Longrightarrow>
     forwarding_reachable sys lib start s'"

text \<open>When the server starts, the forwarders of its catalog start, and its handlers are as built.\<close>

definition forwarding_start ::
    "('rx, 'net, 'c, 'r, 'res, 'n, 'm, 'f) system \<Rightarrow> ('n, 'm, 'rx, 'net, 'f) main_state
     \<Rightarrow> ('n, 'm, 'rx, 'net, 'f, 'o, 'l, 'e) forwarding_state \<Rightarrow> bool" where
  "forwarding_start sys ms s \<longleftrightarrow>
     fw_serving s = serving_start ms \<and> fw_next s = 0
     \<and> fw_generation s = 0 \<and> fw_views s = (\<lambda>_ hs. hs) \<and> fw_taken s = (\<lambda>_. 0) \<and> fw_asked s = (\<lambda>_. [])
     \<and> forwarders_follow sys registry_empty (sv_registry (ms_server ms)) Map.empty (fw_running s)"

interpretation forwarding_runs: run_system "forwarding_step sys lib" "forwarding_reachable sys lib" for sys lib
  by unfold_locales
    (fact forwarding_reachable.boot, fact forwarding_reachable.step, erule forwarding_reachable.induct, auto)

text \<open>Seen from the catalogs, the system runs as the serving system does.\<close>

definition lib_answers where
  "lib_answers lib catalog query answer \<longleftrightarrow>
     (case sl_find lib catalog (fst (snd query)) of
        None \<Rightarrow> answer = None
      | Some hs \<Rightarrow> \<exists>forward hs'. answer = Some (sl_walk lib forward hs' (snd query)))"

interpretation forwarding_serving: simulation "forwarding_step sys lib" "forwarding_reachable sys lib"
    "serving_step sys (lib_answers lib)" "serving_reachable sys (lib_answers lib)" fw_serving for sys lib
proof
  show "fw_serving s' = fw_serving s \<or> serving_step sys (lib_answers lib) (fw_serving s) (fw_serving s')"
    if "forwarding_step sys lib s s'" for s s'
    using that
  proof cases
    case (answers before query catalog after hs asked forward)
    have "lib_answers lib catalog query (Some (sl_walk lib forward (asked @ drop (length asked) hs) (snd query)))"
      using answers(4) by (auto simp: lib_answers_def)
    then have "serving_step sys (lib_answers lib) (fw_serving s) (fw_serving s')"
      unfolding answers(1) by simp (rule serving_step.answer [OF answers(2,3)])
    then show ?thesis ..
  next
    case (refuses before query catalog after)
    have "lib_answers lib catalog query None" using refuses(4) by (simp add: lib_answers_def)
    then have "serving_step sys (lib_answers lib) (fw_serving s) (fw_serving s')"
      unfolding refuses(1) by simp (rule serving_step.answer [OF refuses(2,3)])
    then show ?thesis ..
  qed (auto intro: serving_step.intros)
qed

section \<open>Every forwarder in the server runs as it runs alone\<close>

lemma drop_lookups_reachable:
  assumes "forwarder_reachable net timing origin options replies start fs"
  shows "forwarder_reachable net timing origin options replies start (drop_lookups keep fs)"
proof -
  have "forwarder_reachable net timing origin options replies start
      (fs\<lparr>fs_lookups := lks @ filter (\<lambda>lk. keep (lk_query lk)) lks'\<rparr>)"
    if "forwarder_reachable net timing origin options replies start fs" "fs_lookups fs = lks @ lks'" for fs lks lks'
    using that
  proof (induction lks' arbitrary: fs lks)
    case (Cons lk lks')
    show ?case
    proof (cases "keep (lk_query lk)")
      case True
      then show ?thesis using Cons.IH [of fs "lks @ [lk]"] Cons.prems by simp
    next
      case False
      have "forwarder_reachable net timing origin options replies start (fs\<lparr>fs_lookups := lks @ lks'\<rparr>)"
        by (rule forwarder_reachable.step [OF Cons.prems(1) forwarder_step.lookup_cancelled [OF Cons.prems(2)]])
      from Cons.IH [OF this, of lks] show ?thesis using False by simp
    qed
  qed (metis append_Nil2 filter.simps(1) forwarder_state.surjective forwarder_state.update_convs(3))
  from this [OF assms, of "[]"] show ?thesis by (simp add: drop_lookups_def)
qed

definition forwarder_run ::
    "('rx, 'net, 'c, 'r, 'res, 'n, 'm, 'f) system \<Rightarrow> ('n, 'm, 'rx, 'net, 'f, 'o, 'l, 'e) server_lib
     \<Rightarrow> string \<times> ('m, 'f) recovering_forwarder \<Rightarrow> ('n, 'm, 'f, 'o, 'l, 'e) running_forwarder \<Rightarrow> bool" where
  "forwarder_run sys lib entry fo \<longleftrightarrow>
     (\<exists>config t. made_forwarder sys (fo_origin fo) config entry
        \<and> fo_options fo = recovering_options (sys_net sys) config
        \<and> forwarder_reachable (sys_net sys) recovery_timing_default (fo_origin fo) (fo_options fo) (query_replies lib)
            (forwarder_start recovery_timing_default t (snd entry)) (fo_state fo))"

lemma new_forwarder_run: "new_forwarder sys entry fo \<Longrightarrow> forwarder_run sys lib entry fo"
  by (fastforce simp: new_forwarder_def forwarder_run_def intro: forwarder_reachable.boot)

lemma forwarder_run_state:
  assumes "forwarder_run sys lib entry fo"
    and "\<And>start. forwarder_reachable (sys_net sys) recovery_timing_default (fo_origin fo) (fo_options fo)
           (query_replies lib) start (fo_state fo) \<Longrightarrow>
         forwarder_reachable (sys_net sys) recovery_timing_default (fo_origin fo) (fo_options fo)
           (query_replies lib) start fs"
  shows "forwarder_run sys lib entry (fo\<lparr>fo_state := fs\<rparr>)"
  using assms by (auto simp: forwarder_run_def)

definition running_ok where
  "running_ok sys lib rg running \<longleftrightarrow>
     (\<forall>i. case rg_live rg i of
            None \<Rightarrow> running i = None
          | Some entry \<Rightarrow> \<exists>fo. running i = Some fo \<and> forwarder_run sys lib entry fo)"

lemma running_okD:
  assumes "running_ok sys lib rg running"
  shows "running i = Some fo \<Longrightarrow> \<exists>entry. rg_live rg i = Some entry \<and> forwarder_run sys lib entry fo"
    and "rg_live rg i = Some entry \<Longrightarrow> \<exists>fo. running i = Some fo \<and> forwarder_run sys lib entry fo"
  using assms [unfolded running_ok_def, THEN spec, of i] by (auto split: option.splits)

lemma running_okI:
  assumes "\<And>i. rg_live rg i = None \<Longrightarrow> running i = None"
    and "\<And>i entry. rg_live rg i = Some entry \<Longrightarrow> \<exists>fo. running i = Some fo \<and> forwarder_run sys lib entry fo"
  shows "running_ok sys lib rg running"
  using assms by (simp add: running_ok_def split: option.split)

lemma running_ok_follow:
  assumes "running_ok sys lib rg running" and "forwarders_follow sys rg rg' running running'"
  shows "running_ok sys lib rg' running'"
  unfolding running_ok_def
proof
  fix i
  show "case rg_live rg' i of
          None \<Rightarrow> running' i = None
        | Some entry \<Rightarrow> \<exists>fo. running' i = Some fo \<and> forwarder_run sys lib entry fo"
    using assms(1) [unfolded running_ok_def, THEN spec, of i] new_forwarder_run [of sys _ _ lib]
      assms(2) [unfolded forwarders_follow_def, THEN spec, of i]
    by (cases "rg_live rg' i = rg_live rg i") (auto split: option.splits)
qed

lemma running_ok_update:
  assumes "running_ok sys lib rg running" and "running i = Some fo"
    and "\<And>entry. forwarder_run sys lib entry fo \<Longrightarrow> forwarder_run sys lib entry fo'"
  shows "running_ok sys lib rg (running(i \<mapsto> fo'))"
proof (rule running_okI)
  show "(running(i \<mapsto> fo')) j = None" if "rg_live rg j = None" for j
    using that assms(1,2) by (auto simp: running_ok_def dest: spec [of _ j])
  show "\<exists>fo. (running(i \<mapsto> fo')) j = Some fo \<and> forwarder_run sys lib entry fo"
    if "rg_live rg j = Some entry" for j entry
    using running_okD(2) [OF assms(1) that] assms(2) assms(3) [of entry] by (cases "j = i") simp_all
qed

lemma running_ok_abandon:
  assumes "running_ok sys lib rg running"
  shows "running_ok sys lib rg (abandon keep running)"
  unfolding running_ok_def
proof
  fix i
  show "case rg_live rg i of
          None \<Rightarrow> abandon keep running i = None
        | Some entry \<Rightarrow> \<exists>fo. abandon keep running i = Some fo \<and> forwarder_run sys lib entry fo"
    using assms [unfolded running_ok_def, THEN spec, of i] forwarder_run_state [OF _ drop_lookups_reachable]
    by (auto simp: abandon_def split: option.splits)
qed

abbreviation fw_registry :: "('n, 'm, 'rx, 'net, 'f, 'o, 'l, 'e) forwarding_state \<Rightarrow> ('m, 'f) registry" where
  "fw_registry s \<equiv> current_registry (fw_serving s)"

lemma forwarding_step_running:
  assumes "forwarding_step sys lib s s'" and "running_ok sys lib (fw_registry s) (fw_running s)"
  shows "running_ok sys lib (fw_registry s') (fw_running s')"
  using assms(1)
proof cases
  case (main_loop ms running)
  then show ?thesis using running_ok_follow [OF assms(2)] by simp
next
  case (forwarder i fo fs)
  have "forwarder_run sys lib entry (fo\<lparr>fo_state := fs\<rparr>)" if "forwarder_run sys lib entry fo" for entry
    by (rule forwarder_run_state [OF that forwarder_reachable.step [OF _ conjunct1]])
      (use forwarder(3) in \<open>simp_all add: forwarder_works_def\<close>)
  then show ?thesis using running_ok_update [OF assms(2) forwarder(2)] by (simp add: forwarder(1))
next
  case (asks_forwarder query catalog hs before i fo)
  have "forwarder_run sys lib entry (lookup_begun query fo)" if "forwarder_run sys lib entry fo" for entry
    unfolding lookup_begun_def
    by (rule forwarder_run_state [OF that forwarder_reachable.step [OF _ forwarder_step.lookup_starts]])
  then show ?thesis using running_ok_update [OF assms(2) asks_forwarder(6)] by (simp add: asks_forwarder(1))
qed (use assms(2) running_ok_abandon [OF assms(2)] in \<open>simp_all add: catalog_request_def\<close>)

lemma forwarding_start_running:
  "forwarding_start sys ms s \<Longrightarrow> running_ok sys lib (fw_registry s) (fw_running s)"
  by (rule running_ok_follow [where rg = registry_empty and running = Map.empty])
    (auto simp: forwarding_start_def running_ok_def registry_empty_def)

lemma forwarding_reachable_running:
  assumes "forwarding_reachable sys lib start s" and "forwarding_start sys ms start"
  shows "running_ok sys lib (fw_registry s) (fw_running s)"
  using assms(1) forwarding_start_running [OF assms(2)] forwarding_step_running by (rule forwarding_runs.invariant)

end
