(* ===== verification/Query_Facts.thy ===== *)
theory Query_Facts
  imports Query_Forwarding
begin

text \<open>
  What the main loop keeps of the forwarders: the forwarder a catalog refers to was made for the zone
  it stands in and for that zone's configuration, through every reload.
\<close>

section \<open>What loading does to the registry\<close>

text \<open>A property of registries that sharing a forwarder keeps is kept by building a catalog.\<close>

definition kept_by_sharing ::
    "('rx, 'net, 'c, 'r, 'res, 'n, 'm, 'f) system \<Rightarrow> (('m, 'f) registry \<Rightarrow> bool) \<Rightarrow> bool" where
  "kept_by_sharing sys P \<longleftrightarrow>
     (\<forall>origin config rg. P rg \<longrightarrow>
        P (snd (shared_forwarder (sys_key_text sys origin config)
                  (recovering_new (sys_net sys) (lower_of_name (sys_names sys)) origin config) rg)))"

abbreviation sys_load_store ::
    "('rx, 'net, 'c, 'r, 'res, 'n, 'm, 'f) system \<Rightarrow> 'n \<Rightarrow> external_store_config \<Rightarrow> ('m, 'f) registry
     \<Rightarrow> (load_error + 'f forwarder_ref) \<times> ('m, 'f) registry" where
  "sys_load_store sys origin \<equiv>
     load_store (sys_net sys) (lower_of_name (sys_names sys)) (sys_key_text sys) origin"

lemma load_store_keeps:
  "kept_by_sharing sys P \<Longrightarrow> P rg \<Longrightarrow> P (snd (sys_load_store sys origin store rg))"
  by (cases store) (simp_all add: load_store_def kept_by_sharing_def split: prod.split, metis snd_conv)

lemma load_stores_keeps:
  assumes "kept_by_sharing sys P"
  shows "P rg \<Longrightarrow> P (snd (load_stores (sys_load_store sys origin) chain stores hs rg))"
proof (induction stores arbitrary: hs rg)
  case (Cons store stores)
  obtain r1 rg1 where l: "sys_load_store sys origin store rg = (r1, rg1)" by fastforce
  then have "P rg1" using load_store_keeps [OF assms Cons.prems, of origin store] by simp
  then show ?case using Cons.IH by (simp add: l split: sum.split)
qed simp

abbreviation sys_zone_load ::
    "('rx, 'net, 'c, 'r, 'res, 'n, 'm, 'f) system \<Rightarrow> disk \<Rightarrow> ('rx, 'net) compiled_rule_sets option
     \<Rightarrow> zone_config \<Rightarrow> ('m, 'f) registry
     \<Rightarrow> (load_error + ('n, 'm, 'rx, 'net, 'f forwarder_ref) handler list) \<times> ('m, 'f) registry" where
  "sys_zone_load sys d \<equiv>
     zone_load (sys_net sys) (sys_names sys) (sys_maps sys) (read_file d) (sys_key_text sys)"

lemma zone_load_keeps:
  assumes "kept_by_sharing sys P" and "P rg"
  shows "P (snd (sys_zone_load sys d rules zone rg))"
  by (cases "zone_name_parse (sys_net sys) (zone_name zone)")
    (simp_all add: zone_load_def assms(2) load_stores_keeps [OF assms])

lemma load_zones_keeps:
  assumes "kept_by_sharing sys P"
  shows "P rg \<Longrightarrow> P (snd (load_zones sys d rules zones catalog rg))"
proof (induction zones arbitrary: catalog rg)
  case (Cons zone zones)
  obtain r1 rg1 where z: "sys_zone_load sys d rules zone rg = (r1, rg1)" by fastforce
  then have "P rg1" using zone_load_keeps [OF assms Cons.prems, of d rules zone] by simp
  then show ?case using Cons.IH Cons.prems by (simp add: z split: sum.split)
qed simp

lemma build_catalog_keeps:
  assumes "kept_by_sharing sys P" and "P rg"
  shows "P (snd (snd (build_catalog sys mode cfg d rg)))"
proof (cases "build_rules sys mode cfg d")
  case (Pair r d')
  then show ?thesis
    by (cases r)
      (simp_all add: build_catalog_def case_prod_beta assms(2) load_zones_keeps [OF assms])
qed

lemma reload_keeps:
  assumes "kept_by_sharing sys P" and "P (sv_registry sv)"
  shows "P (sv_registry (snd (reload_runtime_config sys mode sv)))"
proof -
  obtain loaded d rg where l: "load_runtime_config sys mode (sv_disk sv) (sv_registry sv) = (loaded, d, rg)"
    by (metis prod_cases3)
  have "P rg"
    using l build_catalog_keeps [OF assms, of mode _ "sv_disk sv"] assms(2)
    by (auto simp: load_runtime_config_def split: outcome.splits sum.splits prod.splits)
      (metis snd_conv)+
  moreover have "sv_registry (snd (install_loaded sys cfg c (sv\<lparr>sv_disk := d, sv_registry := rg\<rparr>))) = rg" for cfg c
    using install_loaded_live(1) [OF surjective_pairing, of sys cfg c "sv\<lparr>sv_disk := d, sv_registry := rg\<rparr>"] by simp
  ultimately show ?thesis
    by (simp add: reload_runtime_config_def l Let_def split: outcome.split sum.split)
qed

text \<open>The forwarders in the registry were made from a configuration, so that a change of the
  registry can always be followed.\<close>

definition registry_made where
  "registry_made sys rg \<longleftrightarrow>
     (\<forall>i entry. rg_live rg i = Some entry \<longrightarrow> (\<exists>origin config. made_forwarder sys origin config entry))"

lemma sharing_keeps_made: "kept_by_sharing sys (registry_made sys)"
  by (auto simp: kept_by_sharing_def registry_made_def shared_forwarder_def Let_def made_forwarder_def
      split: option.split sum.split)

lemma main_step_made:
  assumes "main_step sys ms ms'" and "registry_made sys (sv_registry (ms_server ms))"
  shows "registry_made sys (sv_registry (ms_server ms'))"
  using assms(1)
  by cases (use assms(2) reload_keeps [OF sharing_keeps_made assms(2)] in
    \<open>auto simp: on_reload_signal_def on_refresh_timer_def Let_def after_reload_server registry_made_def
       release_forwarder_def\<close>)

lemma made_followed:
  assumes "registry_made sys rg'"
  shows "\<exists>running'. forwarders_follow sys rg rg' running running'"
proof -
  have "\<exists>next. if rg_live rg' i = rg_live rg i then next = running i
      else (case rg_live rg' i of None \<Rightarrow> next = None | Some entry \<Rightarrow> \<exists>fo. next = Some fo \<and> new_forwarder sys entry fo)"
    for i
  proof (cases "rg_live rg' i")
    case (Some entry)
    then obtain origin config where "made_forwarder sys origin config entry"
      using assms unfolding registry_made_def by blast
    then have "\<exists>fo. new_forwarder sys entry fo" unfolding new_forwarder_def by blast
    then show ?thesis using Some by auto
  qed auto
  then show ?thesis unfolding forwarders_follow_def by (rule choice [OF allI])
qed

section \<open>Which configuration a forwarder stands for\<close>

definition zone_forwarder ::
    "('rx, 'net, 'c, 'r, 'res, 'n, 'm, 'f) system \<Rightarrow> zone_config set \<Rightarrow> 'm \<Rightarrow> ('m, 'f) registry \<Rightarrow> nat \<Rightarrow> bool" where
  "zone_forwarder sys zones apex rg i \<longleftrightarrow>
     (\<exists>zone\<in>zones. \<exists>origin config h. zone_name_parse (sys_net sys) (zone_name zone) = Inr origin
        \<and> CompactForward config \<in> set (zone_stores zone) \<and> apex = lower_of_name (sys_names sys) origin
        \<and> rg_live rg i = Some (sys_key_text sys origin config, h))"

lemma zone_forwarder_kept:
  "zone_forwarder sys zones apex rg i \<Longrightarrow> zones \<subseteq> zones' \<Longrightarrow>
   (\<And>x. rg_live rg i = Some x \<Longrightarrow> rg_live rg' i = Some x) \<Longrightarrow> zone_forwarder sys zones' apex rg' i"
  unfolding zone_forwarder_def by blast

lemma shared_forwarder_keyed:
  assumes "registry_ok rg" and "shared_forwarder key new_handler rg = (Inr i, rg')"
  shows "\<exists>h. rg_live rg' i = Some (key, h)"
proof (cases "retain_live rg key")
  case (Some j)
  then have "rg_entries rg key = Some j" and "rg_live rg j \<noteq> None" by (simp_all add: retain_live_iff)
  then show ?thesis
    using assms(2) Some registry_okD4 [OF assms(1), of key j] by (auto simp: shared_forwarder_def Let_def)
qed (use assms(2) in \<open>auto simp: shared_forwarder_def Let_def split: sum.splits\<close>)

lemma load_store_keyed:
  assumes "registry_ok rg" and "load_store net lower key_text origin store rg = (Inr (SharedForwarder i), rg')"
  shows "\<exists>config h. store = CompactForward config \<and> rg_live rg' i = Some (key_text origin config, h)"
proof (cases store)
  case (CompactForward config)
  then obtain r where "shared_forwarder (key_text origin config) (recovering_new net lower origin config) rg = (r, rg')"
    "r = Inr i"
    using assms(2) by (auto simp: load_store_def rbind_Inr_iff split: prod.splits)
  then show ?thesis using shared_forwarder_keyed [OF assms(1)] CompactForward by blast
qed (use assms(2) in \<open>auto simp: load_store_def rbind_Inr_iff\<close>)

lemma sharing_keeps_live: "kept_by_sharing sys (\<lambda>rg'. registry_ok rg' \<and> live_kept rg rg')"
proof -
  have "registry_ok (snd (shared_forwarder key new_handler rg')) \<and> live_kept rg (snd (shared_forwarder key new_handler rg'))"
    if "registry_ok rg'" "live_kept rg rg'" for key new_handler rg'
    using shared_forwarder_ok [OF that(1)] shared_forwarder_live(1) [OF that(1) surjective_pairing]
      live_kept_trans [OF that(2)] by blast
  then show ?thesis by (simp add: kept_by_sharing_def)
qed

lemmas loading_keeps_live = sharing_keeps_live [THEN load_stores_keeps]

lemma load_stores_keyed:
  assumes "load_stores (sys_load_store sys origin) chain stores hs rg = (Inr hs', rg')"
    and "registry_ok rg" and "i \<in> shared_refs hs'"
    and "\<And>forwarder hs i. chain forwarder = Inr hs \<Longrightarrow> i \<in> shared_refs hs \<Longrightarrow> forwarder = SharedForwarder i"
  shows "i \<in> shared_refs hs \<or>
     (\<exists>config h. CompactForward config \<in> set stores \<and> rg_live rg' i = Some (sys_key_text sys origin config, h))"
  using assms(1-3)
proof (induction stores arbitrary: hs rg)
  case (Cons store stores)
  obtain forwarder rg1 chained where l: "sys_load_store sys origin store rg = (Inr forwarder, rg1)"
    and c: "chain forwarder = Inr chained"
    and r: "load_stores (sys_load_store sys origin) chain stores (hs @ chained) rg1 = (Inr hs', rg')"
    using Cons.prems(1) by (auto split: prod.splits sum.splits)
  have ok: "registry_ok rg1" by (rule load_store_live(1) [OF Cons.prems(2) l])
  have kept: "live_kept rg1 rg'"
    using loading_keeps_live [of rg1 rg1 sys origin chain stores "hs @ chained"] ok by (simp add: r)
  from Cons.IH [OF r ok Cons.prems(3)]
  consider "i \<in> shared_refs hs" | "forwarder = SharedForwarder i"
    | config h where "CompactForward config \<in> set stores" "rg_live rg' i = Some (sys_key_text sys origin config, h)"
    using assms(4) [OF c] by auto
  then show ?case
  proof cases
    case 2
    then obtain config h where "store = CompactForward config" "rg_live rg1 i = Some (sys_key_text sys origin config, h)"
      using load_store_keyed [OF Cons.prems(2) l [unfolded 2]] by blast
    moreover have "rg_live rg' i = rg_live rg1 i" using calculation(2) kept by (simp add: live_kept_def)
    ultimately show ?thesis by auto
  qed auto
qed simp

lemma zone_load_keyed:
  fixes hs :: "('n, 'm, 'rx, 'net, 'f forwarder_ref) handler list"
  assumes "sys_zone_load sys d rules zone rg = (Inr hs, rg')" and "registry_ok rg" and "i \<in> shared_refs hs"
    and "zone_name_parse (sys_net sys) (zone_name zone) = Inr origin"
  shows "zone_forwarder sys {zone} (lower_of_name (sys_names sys) origin) rg' i"
proof -
  have "i \<in> shared_refs ([] :: ('n, 'm, 'rx, 'net, 'f forwarder_ref) handler list) \<or> (\<exists>config h. CompactForward config \<in> set (zone_stores zone)
      \<and> rg_live rg' i = Some (sys_key_text sys origin config, h))"
    using assms(1) [unfolded zone_load_def assms(4), simplified] assms(2,3)
    by (rule load_stores_keyed)
      (auto split: option.splits dest: build_authorities_refs simp: shared_refs_def)
  then show ?thesis using assms(4) by (auto simp: zone_forwarder_def)
qed

text \<open>Every forwarder of a catalog stands for a configured store of the zone it is in.\<close>

definition catalog_keyed ::
    "('rx, 'net, 'c, 'r, 'res, 'n, 'm, 'f) system \<Rightarrow> zone_config set \<Rightarrow> ('n, 'm, 'rx, 'net, 'f) catalog
     \<Rightarrow> ('m, 'f) registry \<Rightarrow> bool" where
  "catalog_keyed sys zones catalog rg \<longleftrightarrow>
     (\<forall>(apex, hs)\<in>set catalog. \<forall>i\<in>shared_refs hs. zone_forwarder sys zones apex rg i)"

lemma catalog_keyed_simps [simp]:
  "catalog_keyed sys zones [] rg"
  "catalog_keyed sys zones (c @ c') rg \<longleftrightarrow> catalog_keyed sys zones c rg \<and> catalog_keyed sys zones c' rg"
  "catalog_keyed sys zones [(apex, hs)] rg \<longleftrightarrow> (\<forall>i\<in>shared_refs hs. zone_forwarder sys zones apex rg i)"
  by (auto simp: catalog_keyed_def)

lemma catalog_keyed_kept:
  assumes "catalog_keyed sys zones catalog rg" and "zones \<subseteq> zones'"
    and "\<And>i x. i \<in> catalog_refs catalog \<Longrightarrow> rg_live rg i = Some x \<Longrightarrow> rg_live rg' i = Some x"
  shows "catalog_keyed sys zones' catalog rg'"
  unfolding catalog_keyed_def
proof (intro ballI, clarify)
  fix apex hs i
  assume "(apex, hs) \<in> set catalog" and "i \<in> shared_refs hs"
  moreover have "i \<in> catalog_refs catalog" using calculation by (force simp: catalog_refs_def)
  ultimately show "zone_forwarder sys zones' apex rg' i"
    using assms(1) zone_forwarder_kept [OF _ assms(2) assms(3)] by (fastforce simp: catalog_keyed_def)
qed

lemma load_zones_keyed:
  assumes "load_zones sys d rules zones catalog rg = (Inr catalog', rg')" and "registry_ok rg"
    and "catalog_keyed sys done catalog rg"
  shows "catalog_keyed sys (done \<union> set zones) catalog' rg'"
  using assms
proof (induction zones arbitrary: catalog rg "done")
  case (Cons zone zones)
  obtain origin hs rg1 where n: "zone_name_parse (sys_net sys) (zone_name zone) = Inr origin"
    and z: "sys_zone_load sys d rules zone rg = (Inr hs, rg1)"
    and r: "load_zones sys d rules zones (catalog @ [(lower_of_name (sys_names sys) origin, hs)]) rg1 = (Inr catalog', rg')"
    using Cons.prems(1) by (auto split: sum.splits prod.splits)
  have live: "registry_ok rg1" "live_kept rg rg1" using zone_load_live [OF z Cons.prems(2)] by auto
  have "catalog_keyed sys (insert zone done) catalog rg1"
    by (rule catalog_keyed_kept [OF Cons.prems(3)]) (use live(2) in \<open>auto simp: live_kept_def\<close>)
  moreover have "zone_forwarder sys (insert zone done) (lower_of_name (sys_names sys) origin) rg1 i"
    if "i \<in> shared_refs hs" for i
    by (rule zone_forwarder_kept [OF zone_load_keyed [OF z Cons.prems(2) that n]]) auto
  ultimately show ?case using Cons.IH [OF r live(1), of "insert zone done"] by simp
qed simp

lemma build_catalog_keyed:
  assumes "build_catalog sys mode cfg d rg = (Inr catalog, d', rg')" and "registry_ok rg"
  shows "catalog_keyed sys (set (cfg_zones cfg)) catalog rg'"
  using assms load_zones_keyed [of sys _ _ "cfg_zones cfg" "[]" rg catalog rg' "{}"]
  by (auto simp: build_catalog_def split: prod.splits sum.splits)

text \<open>A catalog built from a configuration, with its forwarders in the registry as it is now.\<close>

definition catalog_stands ::
    "('rx, 'net, 'c, 'r, 'res, 'n, 'm, 'f) system \<Rightarrow> ('m, 'f) registry \<Rightarrow> ('n, 'm, 'rx, 'net, 'f) catalog \<Rightarrow> bool" where
  "catalog_stands sys rg catalog \<longleftrightarrow>
     (\<exists>mode cfg d rg0 d' rg1. build_catalog sys mode cfg d rg0 = (Inr catalog, d', rg1)
        \<and> catalog_keyed sys (set (cfg_zones cfg)) catalog rg)"

lemma catalog_stands_kept:
  assumes "catalog_stands sys rg catalog"
    and "\<And>i x. i \<in> catalog_refs catalog \<Longrightarrow> rg_live rg i = Some x \<Longrightarrow> rg_live rg' i = Some x"
  shows "catalog_stands sys rg' catalog"
  using assms(1) catalog_keyed_kept [OF _ order_refl assms(2)] unfolding catalog_stands_def by blast

lemma build_catalog_stands:
  "build_catalog sys mode cfg d rg = (Inr catalog, d', rg') \<Longrightarrow> registry_ok rg \<Longrightarrow> catalog_stands sys rg' catalog"
  unfolding catalog_stands_def using build_catalog_keyed by blast

section \<open>Steps of the main loop\<close>

text \<open>A forwarder that is not dropped stays what it is.\<close>

lemma main_step_entries:
  assumes "main_step sys ms ms'" and "server_live (ms_server ms)"
    and "rg_live (sv_registry (ms_server ms)) i = Some x"
    and "i \<notin> dropped (sv_registry (ms_server ms)) (sv_registry (ms_server ms'))"
  shows "rg_live (sv_registry (ms_server ms')) i = Some x"
proof -
  have reload: "rg_live (sv_registry (snd (reload_runtime_config sys mode (ms_server ms)))) i = Some x" for mode
    using reload_live [OF surjective_pairing assms(2)] assms(3) unfolding live_kept_def by blast
  show ?thesis
    using assms(1)
    by cases (use assms(3,4) reload in
      \<open>auto simp: on_reload_signal_def on_refresh_timer_def Let_def after_reload_server release_forwarder_def
         dropped_def split: if_splits\<close>)
qed

lemma reload_stands:
  assumes "server_live sv" and "catalog_stands sys (sv_registry sv) (sv_catalog sv)"
  shows "catalog_stands sys (sv_registry (snd (reload_runtime_config sys mode sv)))
           (sv_catalog (snd (reload_runtime_config sys mode sv)))"
proof -
  obtain r sv' where r: "reload_runtime_config sys mode sv = (r, sv')" by fastforce
  have ok: "registry_ok (sv_registry sv)" using assms(1) by (simp add: server_live_def)
  show ?thesis
  proof (cases "r = Finished (Inr ())")
    case True
    then show ?thesis using r build_catalog_stands [OF _ ok] by (auto elim!: reload_succeeded)
  next
    case False
    then have "sv_catalog sv' = sv_catalog sv" using reload_failed [OF r] by (simp add: active_view_def)
    moreover have "live_kept (sv_registry sv) (sv_registry sv')" using reload_live [OF r assms(1)] by simp
    ultimately show ?thesis
      using catalog_stands_kept [OF assms(2)] by (auto simp: r live_kept_def)
  qed
qed

lemma main_step_stands:
  assumes "main_step sys ms ms'" and "server_live (ms_server ms)"
    and "catalog_stands sys (sv_registry (ms_server ms)) (sv_catalog (ms_server ms))"
    and "dropped (sv_registry (ms_server ms)) (sv_registry (ms_server ms')) \<inter> catalog_refs (sv_catalog (ms_server ms)) = {}"
  shows "catalog_stands sys (sv_registry (ms_server ms')) (sv_catalog (ms_server ms'))"
proof -
  have kept: "catalog_stands sys (sv_registry (ms_server ms')) (sv_catalog (ms_server ms))"
    by (rule catalog_stands_kept [OF assms(3)]) (use main_step_entries [OF assms(1,2)] assms(4) in blast)
  show ?thesis
    using assms(1)
    by cases (use kept reload_stands [OF assms(2,3)] in
      \<open>auto simp: on_reload_signal_def on_refresh_timer_def Let_def after_reload_server\<close>)
qed

end
