(* ===== verification/Query_Progress.thy ===== *)
theory Query_Progress
  imports Query_Facts
begin

text \<open>
  What a run of the running server keeps: every query that reaches a forwarder was left undecided by
  the handlers before it, as they were when it asked them, and every answer is explained by the
  handlers of the catalog the query arrived under, with leases the server has read.
\<close>

section \<open>What a run keeps\<close>

lemma forwarder_run_lookups: "forwarder_run sys lib entry fo \<Longrightarrow> lookups_ok (query_replies lib) (fo_state fo)"
  by (auto simp: forwarder_run_def dest: forwarder_reachable_lookups)

text \<open>A handler as it was built, after some ticks of its refresh task.\<close>

definition handler_version ::
    "(string \<Rightarrow> io_error + string) set \<Rightarrow> ('n, 'm, 'rx, 'net, 'f) handler \<Rightarrow> ('n, 'm, 'rx, 'net, 'f) handler \<Rightarrow> bool" where
  "handler_version reads h h' \<longleftrightarrow> (\<exists>rs. set rs \<subseteq> reads \<and> h' = fold refreshed_handler rs h)"

abbreviation chain_version where
  "chain_version reads \<equiv> list_all2 (handler_version reads)"

lemma refreshed_forwarder [simp]: "refreshed_handler read h = H_Forwarder f \<longleftrightarrow> h = H_Forwarder f"
  by (cases h) simp_all

lemma handler_version_refl: "handler_version reads h h"
  unfolding handler_version_def by (rule exI [of _ "[]"]) simp

lemma handler_version_forwarder: "handler_version reads h (H_Forwarder f) \<Longrightarrow> h = H_Forwarder f"
proof -
  have "fold refreshed_handler rs h = H_Forwarder f \<Longrightarrow> h = H_Forwarder f" for rs
    by (induction rs arbitrary: h) (simp, metis fold_simps(2) refreshed_forwarder)
  then show "handler_version reads h (H_Forwarder f) \<Longrightarrow> h = H_Forwarder f" by (auto simp: handler_version_def)
qed

lemma handler_version_refreshed:
  "handler_version reads h h' \<Longrightarrow> read \<in> reads \<Longrightarrow> handler_version reads h (refreshed_handler read h')"
  unfolding handler_version_def by (elim exE conjE) (rule_tac x = "rs @ [read]" in exI, simp)

lemma handler_version_mono: "handler_version reads h h' \<Longrightarrow> reads \<subseteq> reads' \<Longrightarrow> handler_version reads' h h'"
  unfolding handler_version_def by blast

lemma chain_version_refl: "chain_version reads hs hs"
  by (simp add: list.rel_refl handler_version_refl)

lemma chain_version_mono: "chain_version reads hs hs' \<Longrightarrow> reads \<subseteq> reads' \<Longrightarrow> chain_version reads' hs hs'"
  by (erule list_all2_mono, erule handler_version_mono)

lemma chain_version_refreshed:
  assumes "chain_version reads hs (before @ h # after)" and "read \<in> reads"
  shows "chain_version reads hs (before @ refreshed_handler read h # after)"
proof -
  obtain before' h' after' where "hs = before' @ h' # after'" "chain_version reads before' before"
    "handler_version reads h' h" "chain_version reads after' after"
    using assms(1) by (auto simp: list_all2_append2 list_all2_Cons2)
  then show ?thesis
    by (auto intro!: list_all2_appendI handler_version_refreshed [OF _ assms(2)])
qed

lemma chain_version_refs: "chain_version reads hs hs' \<Longrightarrow> shared_refs hs' \<subseteq> shared_refs hs"
  by (fastforce simp: shared_refs_def in_set_conv_nth list_all2_conv_all_nth dest: handler_version_forwarder)

lemma chain_version_extend:
  assumes "chain_version reads (take (length asked) hs) asked" and "length asked < length hs"
    and "chain_version reads hs views"
  shows "chain_version reads (take (Suc (length asked)) hs) (asked @ [views ! length asked])"
proof -
  have "take (Suc (length asked)) hs = take (length asked) hs @ [hs ! length asked]"
    using assms(2) by (rule take_Suc_conv_app_nth)
  moreover have "handler_version reads (hs ! length asked) (views ! length asked)"
    using assms(2,3) by (simp add: list_all2_conv_all_nth)
  ultimately show ?thesis using assms(1) by (simp add: list_all2_appendI)
qed

text \<open>What the server has found on its disk in a run.\<close>

definition disk_reads ::
    "('rx, 'net, 'c, 'r, 'res, 'n, 'm, 'f) system \<Rightarrow> ('n, 'm, 'rx, 'net, 'f, 'o, 'l, 'e) server_lib
     \<Rightarrow> ('n, 'm, 'rx, 'net, 'f, 'o, 'l, 'e) forwarding_state \<Rightarrow> ('n, 'm, 'rx, 'net, 'f, 'o, 'l, 'e) forwarding_state
     \<Rightarrow> (string \<Rightarrow> io_error + string) set" where
  "disk_reads sys lib start s =
     {read_file (fw_disk s') | s'. forwarding_reachable sys lib start s' \<and> forwarding_reachable sys lib s' s}"

lemma disk_reads_now: "forwarding_reachable sys lib start s \<Longrightarrow> read_file (fw_disk s) \<in> disk_reads sys lib start s"
  unfolding disk_reads_def using forwarding_reachable.boot by blast

lemma disk_reads_step:
  "forwarding_step sys lib s s' \<Longrightarrow> disk_reads sys lib start s \<subseteq> disk_reads sys lib start s'"
  unfolding disk_reads_def using forwarding_reachable.step by blast

text \<open>The handlers before the forwarder left the query undecided, as they were then.\<close>

definition forwarded ::
    "('rx, 'net, 'c, 'r, 'res, 'n, 'm, 'f) system \<Rightarrow> ('n, 'm, 'rx, 'net, 'f, 'o, 'l, 'e) server_lib
     \<Rightarrow> (string \<Rightarrow> io_error + string) set
     \<Rightarrow> (('m, 'o) query \<Rightarrow> ('n, 'm, 'rx, 'net, 'f) catalog \<Rightarrow> bool) \<Rightarrow> ('m, 'o) query \<Rightarrow> nat \<Rightarrow> bool" where
  "forwarded sys lib reads arrived query i \<longleftrightarrow>
     (\<exists>catalog built before after. \<exists>forward :: 'f forwarder_ref \<Rightarrow> 'm \<Rightarrow> record_type \<Rightarrow> 'o \<Rightarrow> ('n, 'o, 'l, 'e) lookup_result.
        arrived query catalog
        \<and> sl_find lib catalog (fst (snd query)) = Some (built @ H_Forwarder (SharedForwarder i) # after)
        \<and> chain_version reads built before
        \<and> (\<forall>h\<in>set before. sys_ask sys forward h (snd query) = Skip))"

lemma forwarded_mono:
  assumes "forwarded sys lib reads arrived query i" and "\<And>catalog. arrived query catalog \<Longrightarrow> arrived' query catalog"
    and "reads \<subseteq> reads'"
  shows "forwarded sys lib reads' arrived' query i"
  using assms(1,2) chain_version_mono [OF _ assms(3)] unfolding forwarded_def by blast

text \<open>The key is that of a configured store of the zone the handlers are for.\<close>

definition stands_for ::
    "('rx, 'net, 'c, 'r, 'res, 'n, 'm, 'f) system \<Rightarrow> ('n, 'm, 'rx, 'net, 'f) catalog
     \<Rightarrow> ('n, 'm, 'rx, 'net, 'f forwarder_ref) handler list \<Rightarrow> string \<Rightarrow> bool" where
  "stands_for sys catalog hs key \<longleftrightarrow>
     (\<exists>mode cfg d rg0 d' rg1. build_catalog sys mode cfg d rg0 = (Inr catalog, d', rg1)
        \<and> (\<exists>zone\<in>set (cfg_zones cfg). \<exists>origin config. zone_name_parse (sys_net sys) (zone_name zone) = Inr origin
             \<and> CompactForward config \<in> set (zone_stores zone)
             \<and> (lower_of_name (sys_names sys) origin, hs) \<in> set catalog
             \<and> key = sys_key_text sys origin config))"

definition upstream_explained ::
    "('rx, 'net, 'c, 'r, 'res, 'n, 'm, 'f) system \<Rightarrow> ('n, 'm, 'rx, 'net, 'f, 'o, 'l, 'e) server_lib
     \<Rightarrow> ('n, 'm, 'rx, 'net, 'f) catalog \<Rightarrow> ('n, 'm, 'rx, 'net, 'f forwarder_ref) handler list
     \<Rightarrow> ('m, 'o) query \<Rightarrow> 'f forwarder_ref \<Rightarrow> ('n, 'o, 'l, 'e) lookup_result \<Rightarrow> bool" where
  "upstream_explained sys lib catalog hs query forwarder x \<longleftrightarrow>
     (case forwarder of
        OwnForwarder f \<Rightarrow> sl_replies lib f (snd query) x
      | SharedForwarder i \<Rightarrow>
          \<exists>entry. \<exists>fo :: ('n, 'm, 'f, 'o, 'l, 'e) running_forwarder. \<exists>fl.
            stands_for sys catalog hs (fst entry) \<and> forwarder_run sys lib entry fo
            \<and> fl \<in> set (fs_answers (fo_state fo)) \<and> fl_query fl = query \<and> fl_answer fl = x)"

definition answer_explained where
  "answer_explained sys lib reads query catalog answer \<longleftrightarrow>
     (case sl_find lib catalog (fst (snd query)) of
        None \<Rightarrow> answer = None
      | Some hs \<Rightarrow> \<exists>hs' forward. chain_version reads hs hs' \<and> answer = Some (sl_walk lib forward hs' (snd query))
          \<and> answers_known (upstream_explained sys lib catalog hs) query forward
              (asked_handlers (sys_ask sys forward) hs' (snd query)))"

lemma answer_explained_mono:
  "answer_explained sys lib reads query catalog answer \<Longrightarrow> reads \<subseteq> reads' \<Longrightarrow>
   answer_explained sys lib reads' query catalog answer"
  unfolding answer_explained_def using chain_version_mono [of reads _ _ reads']
  by (cases "sl_find lib catalog (fst (snd query))") (simp, simp only: option.case, blast)

lemma catalog_stands_for:
  assumes "catalog_stands sys rg catalog" and "(apex, hs) \<in> set catalog" and "H_Forwarder (SharedForwarder i) \<in> set hs"
    and "rg_live rg i = Some entry"
  shows "stands_for sys catalog hs (fst entry)"
proof -
  obtain mode cfg d rg0 d' rg1 where b: "build_catalog sys mode cfg d rg0 = (Inr catalog, d', rg1)"
    and keyed: "catalog_keyed sys (set (cfg_zones cfg)) catalog rg"
    using assms(1) by (auto simp: catalog_stands_def)
  have "zone_forwarder sys (set (cfg_zones cfg)) apex rg i"
    using keyed assms(2,3) by (fastforce simp: catalog_keyed_def shared_refs_def)
  then obtain zone origin config where "zone \<in> set (cfg_zones cfg)"
    "zone_name_parse (sys_net sys) (zone_name zone) = Inr origin" "CompactForward config \<in> set (zone_stores zone)"
    "apex = lower_of_name (sys_names sys) origin" "fst entry = sys_key_text sys origin config"
    using assms(4) by (auto simp: zone_forwarder_def)
  then show ?thesis unfolding stands_for_def using b assms(2) by metis
qed

lemma asked_handlers_subset: "set (asked_handlers ask hs q) \<subseteq> set hs"
  by (induction hs) auto

lemma answer_is_explained:
  assumes "server_lib_documented sys lib" and "catalog_stands sys rg catalog" and "running_ok sys lib rg running"
    and "sl_find lib catalog (fst (snd query)) = Some hs" and "chain_version reads hs hs'"
    and "answers_known (upstream_answer lib running) query forward (asked_handlers (sys_ask sys forward) hs' (snd query))"
  shows "answer_explained sys lib reads query catalog (Some (sl_walk lib forward hs' (snd query)))"
proof -
  obtain apex where zone: "(apex, hs) \<in> set catalog"
    using assms(1,4) unfolding server_lib_documented_def by fastforce
  have "upstream_explained sys lib catalog hs query f x"
    if given: "upstream_answer lib running query f x" "H_Forwarder f \<in> set hs'" for f x
  proof (cases f)
    case (SharedForwarder i)
    then obtain fo fl where fo: "running i = Some fo" "fl \<in> set (fs_answers (fo_state fo))"
      "fl_query fl = query" "fl_answer fl = x"
      using given(1) by (auto simp: upstream_answer_def)
    obtain entry where "rg_live rg i = Some entry" "forwarder_run sys lib entry fo"
      using running_okD(1) [OF assms(3) fo(1)] by blast
    moreover have "H_Forwarder (SharedForwarder i) \<in> set hs"
      using chain_version_refs [OF assms(5)] given(2) SharedForwarder by (auto simp: shared_refs_def)
    then have "stands_for sys catalog hs (fst entry)"
      using catalog_stands_for [OF assms(2) zone _ calculation(1)] by simp
    ultimately show ?thesis unfolding upstream_explained_def SharedForwarder using fo by (simp only: forwarder_ref.case) blast
  qed (use given(1) in \<open>simp add: upstream_explained_def upstream_answer_def\<close>)
  then have "answers_known (upstream_explained sys lib catalog hs) query forward
      (asked_handlers (sys_ask sys forward) hs' (snd query))"
    using assms(6) asked_handlers_subset [of "sys_ask sys forward" hs' "snd query"]
    unfolding answers_known_def by blast
  then show ?thesis unfolding answer_explained_def assms(4) using assms(5) by auto
qed

section \<open>How far a query has come\<close>

text \<open>The numbers of the queries in flight are their own.\<close>

definition numbered :: "('n, 'm, 'rx, 'net, 'f, 'o, 'l, 'e) forwarding_state \<Rightarrow> bool" where
  "numbered s \<longleftrightarrow> distinct (map (fst \<circ> fst) (sg_inflight (fw_serving s)))
     \<and> (\<forall>entry\<in>set (sg_inflight (fw_serving s)). fst (fst entry) < fw_next s)"

lemma numbered_removed:
  "distinct (map f (xs @ x # ys)) \<Longrightarrow> distinct (map f (xs @ ys))"
  by auto

lemma forwarding_step_numbered:
  assumes "forwarding_step sys lib s s'" and "numbered s"
  shows "numbered s'"
  using assms(1)
proof cases
  case (answers before query catalog after hs asked forward)
  then show ?thesis using assms(2) by (auto simp: numbered_def)
next
  case (refuses before query catalog after)
  then show ?thesis using assms(2) by (auto simp: numbered_def)
next
  case (gives_up keep)
  then show ?thesis using assms(2) by (auto simp: numbered_def distinct_map_filter)
qed (use assms(2) in \<open>auto simp: numbered_def catalog_request_def less_Suc_eq\<close>)

text \<open>The handlers a query has asked are the first of its chain, each as it was then; all but the last
  have left it undecided, with answers of forwarders that are known.\<close>

definition asked_undecided where
  "asked_undecided sys lib s query hs \<longleftrightarrow>
     (\<exists>forward. (\<forall>h\<in>set hs. sys_ask sys forward h (snd query) = Skip)
        \<and> answers_known (upstream_answer lib (fw_running s)) query forward hs)"

definition asked_ok where
  "asked_ok sys lib reads s query catalog \<longleftrightarrow>
     (\<forall>hs. sl_find lib catalog (fst (snd query)) = Some hs \<longrightarrow>
        length (fw_asked s (fst query)) \<le> length hs
        \<and> chain_version reads (take (length (fw_asked s (fst query))) hs) (fw_asked s (fst query))
        \<and> asked_undecided sys lib s query (butlast (fw_asked s (fst query))))"

lemma asked_okD:
  assumes "asked_ok sys lib reads s query catalog" and "sl_find lib catalog (fst (snd query)) = Some hs"
    and "fw_asked s (fst query) = asked"
  shows "length asked \<le> length hs" and "chain_version reads (take (length asked) hs) asked"
    and "asked_undecided sys lib s query (butlast asked)"
  using assms by (auto simp: asked_ok_def)

lemma forwarder_step_answers:
  "forwarder_step net timing origin options replies fs fs' \<Longrightarrow> set (fs_answers fs) \<subseteq> set (fs_answers fs')"
  by (erule forwarder_step.cases) (auto simp: set_worker_def)

text \<open>What a forwarder in use has answered stays answered.\<close>

lemma forwarding_step_answers:
  assumes "forwarding_step sys lib s s'" and "running_ok sys lib (fw_registry s) (fw_running s)"
    and "serving_live (fw_serving s)" and "upstream_answer lib (fw_running s) query f x"
    and "\<And>i. f = SharedForwarder i \<Longrightarrow> i \<in> in_use (fw_serving s)"
  shows "upstream_answer lib (fw_running s') query f x"
proof (cases f)
  case (SharedForwarder i)
  then obtain fo fl where fo: "fw_running s i = Some fo" "fl \<in> set (fs_answers (fo_state fo))"
    "fl_query fl = query" "fl_answer fl = x"
    using assms(4) by (auto simp: upstream_answer_def)
  have kept: "upstream_answer lib running query f x"
    if "\<exists>fo'. running i = Some fo' \<and> set (fs_answers (fo_state fo)) \<subseteq> set (fs_answers (fo_state fo'))" for running
    using that fo by (auto simp: upstream_answer_def SharedForwarder)
  show ?thesis
    using assms(1)
  proof cases
    case (main_loop ms running generation)
    obtain entry where entry: "rg_live (fw_registry s) i = Some entry"
      using running_okD(1) [OF assms(2) fo(1)] by blast
    moreover have "rg_live (sv_registry (ms_server ms)) i = Some entry"
      using main_step_entries [OF main_loop(2) server_live_current [OF assms(3)] entry] main_loop(3)
        assms(5) [OF SharedForwarder] by blast
    ultimately have "running i = fw_running s i"
      using main_loop(4) [unfolded forwarders_follow_def, THEN spec, of i] by simp
    then show ?thesis using kept [of running] fo(1) by (simp add: main_loop(1))
  next
    case (forwarder j fo' fs)
    then have "set (fs_answers (fo_state fo')) \<subseteq> set (fs_answers fs)"
      by (auto simp: forwarder_works_def dest: forwarder_step_answers)
    then show ?thesis using forwarder fo(1) by (intro kept) (auto simp: forwarder(1))
  next
    case (asks_forwarder q catalog hs before j fo')
    then show ?thesis using fo(1) by (intro kept) (auto simp: lookup_begun_def)
  qed (use fo(1) assms(4) in \<open>auto intro!: kept simp: abandon_def drop_lookups_def\<close>)
qed (use assms(4) in \<open>simp add: upstream_answer_def\<close>)

lemma asked_undecided_step:
  assumes "forwarding_step sys lib s s'" and "running_ok sys lib (fw_registry s) (fw_running s)"
    and "serving_live (fw_serving s)" and "asked_undecided sys lib s query hs"
    and "shared_refs hs \<subseteq> in_use (fw_serving s)"
  shows "asked_undecided sys lib s' query hs"
proof -
  have "upstream_answer lib (fw_running s') query f x"
    if "upstream_answer lib (fw_running s) query f x" "H_Forwarder f \<in> set hs" for f x
    by (rule forwarding_step_answers [OF assms(1-3) that(1)]) (use that(2) assms(5) in \<open>auto simp: shared_refs_def\<close>)
  then show ?thesis using assms(4) unfolding asked_undecided_def answers_known_def by blast
qed

text \<open>A step adds at most the next handler to those a query has asked.\<close>

lemma forwarding_step_next:
  fixes lib :: "('n, 'm, 'rx, 'net, 'f, 'o, 'l, 'e) server_lib"
  assumes "forwarding_step sys lib s s'" and "numbered s" and "(query, catalog) \<in> set (sg_inflight (fw_serving s'))"
  shows "(query, catalog) \<in> set (sg_inflight (fw_serving s)) \<and> fw_asked s' (fst query) = fw_asked s (fst query)
     \<or> fw_asked s' (fst query) = []
     \<or> (\<exists>hs asked. (query, catalog) \<in> set (sg_inflight (fw_serving s))
          \<and> sl_find lib catalog (fst (snd query)) = Some hs \<and> fw_asked s (fst query) = asked \<and> length asked < length hs
          \<and> asked_undecided sys lib s query asked \<and> fw_running s' = fw_running s
          \<and> fw_asked s' (fst query) = asked @ [fw_views s (fw_taken s (fst query)) hs ! length asked])"
  using assms(1)
proof cases
  case (arrives q)
  then show ?thesis using assms(2,3) by (auto simp: catalog_request_def numbered_def)
next
  case (asks q c hs asked forward)
  show ?thesis
  proof (cases "fst q = fst query")
    case True
    have "(query, catalog) \<in> set (sg_inflight (fw_serving s))" using assms(3) by (simp add: asks(1))
    then have "(q, c) = (query, catalog)"
      using assms(2) asks(3) True
        inj_onD [of "fst \<circ> fst" "set (sg_inflight (fw_serving s))" "(q, c)" "(query, catalog)"]
      by (simp add: numbered_def distinct_map)
    moreover have "asked_undecided sys lib s q asked"
      unfolding asked_undecided_def using asks(7,8) by blast
    ultimately show ?thesis using asks by auto
  next
    case False
    then show ?thesis using assms(3) by (simp add: asks(1))
  qed
qed (use assms(3) in auto)

abbreviation fw_arrived where
  "fw_arrived sys lib start s \<equiv> arrived_under sys (lib_answers lib) (fw_serving start) (fw_serving s)"

definition forwarding_ok where
  "forwarding_ok sys lib start s \<longleftrightarrow>
     running_ok sys lib (fw_registry s) (fw_running s)
     \<and> registry_made sys (fw_registry s)
     \<and> catalog_stands sys (fw_registry s) (current_catalog (fw_serving s))
     \<and> (\<forall>(query, catalog)\<in>set (sg_inflight (fw_serving s)). catalog_stands sys (fw_registry s) catalog)
     \<and> (\<forall>i fo query. fw_running s i = Some fo \<longrightarrow> query \<in># asked_queries (fo_state fo) \<longrightarrow>
          forwarded sys lib (disk_reads sys lib start s) (fw_arrived sys lib start s) query i)
     \<and> (\<forall>(query, catalog, answer)\<in>set (sg_answered (fw_serving s)).
          answer_explained sys lib (disk_reads sys lib start s) query catalog answer)
     \<and> numbered s
     \<and> (\<forall>g hs. chain_version (disk_reads sys lib start s) hs (fw_views s g hs))
     \<and> (\<forall>(query, catalog)\<in>set (sg_inflight (fw_serving s)).
          asked_ok sys lib (disk_reads sys lib start s) s query catalog)"

lemma forwarding_okD:
  assumes "forwarding_ok sys lib start s"
  shows "running_ok sys lib (fw_registry s) (fw_running s)" and "registry_made sys (fw_registry s)"
    and "catalog_stands sys (fw_registry s) (current_catalog (fw_serving s))"
    and "(query, catalog) \<in> set (sg_inflight (fw_serving s)) \<Longrightarrow> catalog_stands sys (fw_registry s) catalog"
    and "fw_running s i = Some fo \<Longrightarrow> query \<in># asked_queries (fo_state fo) \<Longrightarrow>
          forwarded sys lib (disk_reads sys lib start s) (fw_arrived sys lib start s) query i"
    and "(query, catalog, answer) \<in> set (sg_answered (fw_serving s)) \<Longrightarrow>
          answer_explained sys lib (disk_reads sys lib start s) query catalog answer"
    and "numbered s" and "chain_version (disk_reads sys lib start s) hs (fw_views s g hs)"
    and "(query, catalog) \<in> set (sg_inflight (fw_serving s)) \<Longrightarrow>
          asked_ok sys lib (disk_reads sys lib start s) s query catalog"
  using assms unfolding forwarding_ok_def by blast+

lemma forwarding_okI:
  assumes "running_ok sys lib (fw_registry s) (fw_running s)" and "registry_made sys (fw_registry s)"
    and "catalog_stands sys (fw_registry s) (current_catalog (fw_serving s))"
    and "\<And>query catalog. (query, catalog) \<in> set (sg_inflight (fw_serving s)) \<Longrightarrow>
          catalog_stands sys (fw_registry s) catalog"
    and "\<And>i fo query. fw_running s i = Some fo \<Longrightarrow> query \<in># asked_queries (fo_state fo) \<Longrightarrow>
          forwarded sys lib (disk_reads sys lib start s) (fw_arrived sys lib start s) query i"
    and "\<And>query catalog answer. (query, catalog, answer) \<in> set (sg_answered (fw_serving s)) \<Longrightarrow>
          answer_explained sys lib (disk_reads sys lib start s) query catalog answer"
    and "numbered s" and "\<And>g hs. chain_version (disk_reads sys lib start s) hs (fw_views s g hs)"
    and "\<And>query catalog. (query, catalog) \<in> set (sg_inflight (fw_serving s)) \<Longrightarrow>
          asked_ok sys lib (disk_reads sys lib start s) s query catalog"
  shows "forwarding_ok sys lib start s"
  unfolding forwarding_ok_def using assms by blast

lemma asked_queries_simps:
  "asked_queries (forwarder_start timing t rf) = {#}"
  "set_mset (asked_queries (drop_lookups keep fs)) \<subseteq> set_mset (asked_queries fs)"
  "asked_queries (fo_state (lookup_begun query fo)) = add_mset query (asked_queries (fo_state fo))"
  by (auto simp: asked_queries_def forwarder_start_def drop_lookups_def lookup_begun_def lookup_start_def)

text \<open>A step asks a forwarder at most one new query.\<close>

lemma forwarding_step_asked:
  assumes "forwarding_step sys lib s s'" and "fw_running s' i = Some fo'" and "query \<in># asked_queries (fo_state fo')"
  shows "(\<exists>fo. fw_running s i = Some fo \<and> query \<in># asked_queries (fo_state fo))
     \<or> (\<exists>catalog hs before. (query, catalog) \<in> set (sg_inflight (fw_serving s))
          \<and> sl_find lib catalog (fst (snd query)) = Some hs
          \<and> fw_asked s (fst query) = before @ [H_Forwarder (SharedForwarder i)])"
proof -
  have abandoned: "\<exists>fo. fw_running s i = Some fo \<and> query \<in># asked_queries (fo_state fo)"
    if "abandon keep (fw_running s) i = Some fo'" for keep
    using that assms(3) asked_queries_simps(2) by (fastforce simp: abandon_def)
  show ?thesis
    using assms(1)
  proof cases
    case (main_loop ms running generation)
    have f: "if rg_live (sv_registry (ms_server ms)) i = rg_live (fw_registry s) i then running i = fw_running s i
       else (case rg_live (sv_registry (ms_server ms)) i of
               None \<Rightarrow> running i = None
             | Some entry \<Rightarrow> \<exists>fo. running i = Some fo \<and> new_forwarder sys entry fo)"
      using main_loop(4) unfolding forwarders_follow_def by blast
    then show ?thesis
      using assms(2,3) main_loop(1)
      by (auto simp: new_forwarder_def asked_queries_simps(1) split: if_splits option.splits)
  next
    case (forwarder j fo fs)
    then show ?thesis using assms(2,3) by (auto simp: forwarder_works_def split: if_splits)
  next
    case (asks_forwarder q catalog hs before j fo)
    show ?thesis
    proof (cases "j = i \<and> q = query")
      case True
      then show ?thesis using asks_forwarder(3-5) by blast
    next
      case False
      then show ?thesis
        using assms(2,3) asks_forwarder(1,6) by (auto simp: asked_queries_simps(3) split: if_splits)
    qed
  qed (use assms(2,3) abandoned in auto)
qed

lemma asked_forwarded:
  assumes "asked_ok sys lib reads s query catalog" and "arrived query catalog"
    and "sl_find lib catalog (fst (snd query)) = Some hs"
    and "fw_asked s (fst query) = before @ [H_Forwarder (SharedForwarder i)]"
  shows "forwarded sys lib reads arrived query i"
proof -
  note ok = asked_okD [OF assms(1,3,4)]
  have len: "length before < length hs" using ok(1) by simp
  have "take (Suc (length before)) hs = take (length before) hs @ [hs ! length before]"
    using len by (rule take_Suc_conv_app_nth)
  then have v: "chain_version reads (take (length before) hs) before"
    and h: "hs ! length before = H_Forwarder (SharedForwarder i)"
    using ok(2) len by (auto simp: list_all2_append handler_version_forwarder)
  have "sl_find lib catalog (fst (snd query))
      = Some (take (length before) hs @ H_Forwarder (SharedForwarder i) # drop (Suc (length before)) hs)"
    using id_take_nth_drop [OF len] assms(3) h by simp
  then show ?thesis
    using ok(3) assms(2) v unfolding forwarded_def asked_undecided_def by (simp only: butlast_snoc) blast
qed

lemma fw_arrived_step:
  assumes "forwarding_step sys lib s s'" and "fw_arrived sys lib start s query catalog"
  shows "fw_arrived sys lib start s' query catalog"
  using forwarding_serving.simulates [OF assms(1)] arrived_under_step [OF assms(2)] assms(2) by auto

lemma asked_ok_step:
  assumes "forwarding_step sys lib s s'" and "forwarding_ok sys lib start s"
    and "server_lib_documented sys lib" and "serving_live (fw_serving s)"
    and "(query, catalog) \<in> set (sg_inflight (fw_serving s'))"
  shows "asked_ok sys lib (disk_reads sys lib start s') s' query catalog"
proof -
  note ok = forwarding_okD [OF assms(2)]
  note mono = disk_reads_step [OF assms(1), of start]
  have used: "shared_refs hs \<subseteq> in_use (fw_serving s)"
    if given: "(query, catalog) \<in> set (sg_inflight (fw_serving s))" "sl_find lib catalog (fst (snd query)) = Some hs'"
      "chain_version reads (take k hs') hs" for hs hs' reads k
  proof -
    have "shared_refs hs \<subseteq> shared_refs hs'"
      using chain_version_refs [OF given(3)] set_take_subset [of k hs'] by (fastforce simp: shared_refs_def)
    moreover obtain apex where "(apex, hs') \<in> set catalog"
      using assms(3) given(2) unfolding server_lib_documented_def by fastforce
    then have "shared_refs hs' \<subseteq> catalog_refs catalog" by (force simp: catalog_refs_def)
    moreover have "catalog_refs catalog \<subseteq> in_use (fw_serving s)" using given(1) by (force simp: in_use_def)
    ultimately show ?thesis by blast
  qed
  note undecided = asked_undecided_step [OF assms(1) ok(1) assms(4)]
  show ?thesis
    using forwarding_step_next [OF assms(1) ok(7) assms(5)]
  proof (elim disjE exE conjE)
    assume given: "(query, catalog) \<in> set (sg_inflight (fw_serving s))"
      and same: "fw_asked s' (fst query) = fw_asked s (fst query)"
    show ?thesis
      unfolding asked_ok_def same
    proof (intro allI impI)
      fix hs
      assume found: "sl_find lib catalog (fst (snd query)) = Some hs"
      note asked = asked_okD [OF ok(9) [OF given] found refl]
      have "shared_refs (butlast (fw_asked s (fst query))) \<subseteq> in_use (fw_serving s)"
        using used [OF given found asked(2)] by (auto simp: shared_refs_def dest: in_set_butlastD)
      then show "length (fw_asked s (fst query)) \<le> length hs
          \<and> chain_version (disk_reads sys lib start s') (take (length (fw_asked s (fst query))) hs) (fw_asked s (fst query))
          \<and> asked_undecided sys lib s' query (butlast (fw_asked s (fst query)))"
        using asked(1) chain_version_mono [OF asked(2) mono] undecided [OF asked(3)] by simp
    qed
  next
    assume "fw_asked s' (fst query) = []"
    then show ?thesis by (simp add: asked_ok_def asked_undecided_def answers_known_def)
  next
    fix hs asked
    assume given: "(query, catalog) \<in> set (sg_inflight (fw_serving s))"
      and found: "sl_find lib catalog (fst (snd query)) = Some hs"
      and before: "fw_asked s (fst query) = asked" "length asked < length hs"
      and skip: "asked_undecided sys lib s query asked" and same: "fw_running s' = fw_running s"
      and now: "fw_asked s' (fst query) = asked @ [fw_views s (fw_taken s (fst query)) hs ! length asked]"
    note asked = asked_okD [OF ok(9) [OF given] found before(1)]
    have "chain_version (disk_reads sys lib start s) (take (Suc (length asked)) hs)
        (asked @ [fw_views s (fw_taken s (fst query)) hs ! length asked])"
      by (rule chain_version_extend [OF asked(2) before(2) ok(8)])
    then show ?thesis
      using before(2) skip found chain_version_mono [OF _ mono]
      by (simp add: asked_ok_def now asked_undecided_def same)
  qed
qed

lemma views_step:
  assumes "forwarding_step sys lib s s'" and "forwarding_reachable sys lib start s" and "forwarding_ok sys lib start s"
  shows "chain_version (disk_reads sys lib start s') hs (fw_views s' g hs)"
proof -
  note views = forwarding_okD(8) [OF assms(3)]
  have "chain_version (disk_reads sys lib start s) hs (fw_views s' g hs)"
    using assms(1)
  proof cases
    case (leases_refreshed generation hs' before h after)
    have "chain_version (disk_reads sys lib start s) hs' (before @ refreshed_handler (read_file (fw_disk s)) h # after)"
      using views [of hs' generation] unfolding leases_refreshed(4)
      by (rule chain_version_refreshed) (rule disk_reads_now [OF assms(2)])
    then show ?thesis using views [of hs g] views [of hs generation] by (simp add: leases_refreshed(1))
  qed (use views [of hs g] in simp_all)
  then show ?thesis using disk_reads_step [OF assms(1)] by (rule chain_version_mono)
qed

lemma forwarding_step_ok:
  assumes "forwarding_step sys lib s s'" and "forwarding_ok sys lib start s" and "forwarding_reachable sys lib start s"
    and "server_lib_documented sys lib" and "serving_live (fw_serving s)"
    and "\<And>query catalog. (query, catalog) \<in> set (sg_inflight (fw_serving s)) \<Longrightarrow>
          fw_arrived sys lib start s query catalog"
  shows "forwarding_ok sys lib start s'"
proof (rule forwarding_okI)
  note ok = forwarding_okD [OF assms(2)]
  note kept = fw_arrived_step [OF assms(1)]
  note mono = disk_reads_step [OF assms(1), of start]
  show "running_ok sys lib (fw_registry s') (fw_running s')" by (rule forwarding_step_running [OF assms(1) ok(1)])
  show "numbered s'" by (rule forwarding_step_numbered [OF assms(1) ok(7)])
  show "chain_version (disk_reads sys lib start s') hs (fw_views s' g hs)" for g hs
    by (rule views_step [OF assms(1,3,2)])
  show "asked_ok sys lib (disk_reads sys lib start s') s' query catalog"
    if "(query, catalog) \<in> set (sg_inflight (fw_serving s'))" for query catalog
    by (rule asked_ok_step [OF assms(1,2,4,5) that])
  show "registry_made sys (fw_registry s')"
    using assms(1)
    by cases (use ok(2) main_step_made [OF _ ok(2)] in \<open>simp_all add: catalog_request_def\<close>)
  have stands: "catalog_stands sys (fw_registry s') catalog"
    if given: "catalog_stands sys (fw_registry s) catalog" "catalog_refs catalog \<subseteq> in_use (fw_serving s)" for catalog
    using assms(1)
  proof cases
    case (main_loop ms running generation)
    have "rg_live (sv_registry (ms_server ms)) i = Some x"
      if "i \<in> catalog_refs catalog" "rg_live (fw_registry s) i = Some x" for i x
      by (rule main_step_entries [OF main_loop(2) server_live_current [OF assms(5)] that(2)])
        (use main_loop(3) given(2) that(1) in blast)
    from catalog_stands_kept [OF given(1) this] show ?thesis by (simp add: main_loop(1))
  qed (use given(1) in \<open>simp_all add: catalog_request_def\<close>)
  show "catalog_stands sys (fw_registry s') (current_catalog (fw_serving s'))"
    using assms(1)
  proof cases
    case (main_loop ms running generation)
    have "dropped (fw_registry s) (sv_registry (ms_server ms)) \<inter> catalog_refs (current_catalog (fw_serving s)) = {}"
      using main_loop(3) by (auto simp: in_use_def)
    then show ?thesis
      using main_step_stands [OF main_loop(2) server_live_current [OF assms(5)]] ok(3)
      by (simp add: main_loop(1) current_catalog_def)
  qed (use ok(3) in \<open>simp_all add: catalog_request_def current_catalog_def\<close>)
  have used: "catalog_refs catalog \<subseteq> in_use (fw_serving s)"
    if "(query, catalog) \<in> set (sg_inflight (fw_serving s)) \<or> catalog = current_catalog (fw_serving s)" for query catalog
    using that by (force simp: in_use_def)
  have inflight: "(query, catalog) \<in> set (sg_inflight (fw_serving s)) \<or> catalog = current_catalog (fw_serving s)"
    if "(query, catalog) \<in> set (sg_inflight (fw_serving s'))" for query catalog
    using assms(1) that by cases (auto simp: catalog_request_def)
  show "catalog_stands sys (fw_registry s') catalog" if "(query, catalog) \<in> set (sg_inflight (fw_serving s'))"
    for query catalog
    using inflight [OF that] stands [OF _ used [OF inflight [OF that]]] ok(3,4) by blast
  show "forwarded sys lib (disk_reads sys lib start s') (fw_arrived sys lib start s') query i"
    if "fw_running s' i = Some fo" "query \<in># asked_queries (fo_state fo)" for i fo query
  proof -
    have "forwarded sys lib (disk_reads sys lib start s) (fw_arrived sys lib start s) query i"
      using forwarding_step_asked [OF assms(1) that] ok(5) asked_forwarded [OF ok(9)] assms(6) by blast
    then show ?thesis using kept mono by (rule forwarded_mono)
  qed
  show "answer_explained sys lib (disk_reads sys lib start s') query catalog answer"
    if "(query, catalog, answer) \<in> set (sg_answered (fw_serving s'))" for query catalog answer
  proof -
    have "answer_explained sys lib (disk_reads sys lib start s) query catalog answer"
      using assms(1)
    proof cases
      case (answers before q c after hs asked forward)
      have flight: "(q, c) \<in> set (sg_inflight (fw_serving s))" by (simp add: answers(3))
      note asked = asked_okD [OF ok(9) [OF flight] answers(4,5)]
      have "chain_version (disk_reads sys lib start s) (take (length asked) hs @ drop (length asked) hs)
          (asked @ drop (length asked) hs)"
        using asked(2) chain_version_refl by (rule list_all2_appendI)
      then have "answer_explained sys lib (disk_reads sys lib start s) q c
          (Some (sl_walk lib forward (asked @ drop (length asked) hs) (snd q)))"
        using answers(6,7)
        by (intro answer_is_explained [OF assms(4) ok(4) [OF flight] ok(1) answers(4)]) simp_all
      then show ?thesis using that ok(6) [of query catalog answer] by (auto simp: answers(1))
    next
      case (refuses before q c after)
      have "answer_explained sys lib (disk_reads sys lib start s) q c None" using refuses(4) by (simp add: answer_explained_def)
      then show ?thesis using that ok(6) [of query catalog answer] by (auto simp: refuses(1))
    qed (use that ok(6) [of query catalog answer] in \<open>simp_all add: catalog_request_def\<close>)
    then show ?thesis using mono by (rule answer_explained_mono)
  qed
qed

text \<open>A server that has started can start its forwarders, and all this holds of its runs.\<close>

lemma started_registry:
  assumes "async_run sys fails os validate d cr = (Started (sv, listeners), cr')"
  shows "registry_made sys (sv_registry sv)" and "catalog_stands sys (sv_registry sv) (sv_catalog sv)"
proof -
  obtain cfg where b: "build_catalog sys LoadCacheFirst cfg d registry_empty
      = (Inr (sv_catalog sv), sv_disk sv, sv_registry sv)"
    using assms by (rule async_run_started)
  have "registry_made sys registry_empty" by (simp add: registry_made_def registry_empty_def)
  from build_catalog_keeps [OF sharing_keeps_made this, of LoadCacheFirst cfg d]
  show "registry_made sys (sv_registry sv)" by (simp add: b)
  show "catalog_stands sys (sv_registry sv) (sv_catalog sv)"
    by (rule build_catalog_stands [OF b registry_reachable_ok [OF registry_reachable.empty]])
qed

lemma started_forwarding:
  fixes sys :: "('rx, 'net, 'c, 'r, 'res, 'n, 'm, 'f) system"
  assumes "async_run sys fails os validate d cr = (Started (sv, listeners), cr')"
  shows "\<exists>start :: ('n, 'm, 'rx, 'net, 'f, 'o, 'l, 'e) forwarding_state. forwarding_start sys (main_start sv t) start"
proof -
  obtain running :: "nat \<Rightarrow> ('n, 'm, 'f, 'o, 'l, 'e) running_forwarder option" where "forwarders_follow sys registry_empty (sv_registry sv) Map.empty running"
    using made_followed [OF started_registry(1) [OF assms]] by blast
  then show ?thesis
    by (intro exI [of _ "\<lparr>fw_serving = serving_start (main_start sv t), fw_running = running, fw_next = 0,
          fw_generation = 0, fw_views = \<lambda>_ hs. hs, fw_taken = \<lambda>_. 0, fw_asked = \<lambda>_. []\<rparr>"])
      (simp add: forwarding_start_def main_start_def)
qed

lemma forwarding_start_ok:
  assumes "async_run sys fails os validate d cr = (Started (sv, listeners), cr')"
    and "forwarding_start sys (main_start sv t) start"
  shows "forwarding_ok sys lib start start"
proof (rule forwarding_okI)
  note reg = started_registry [OF assms(1)]
  have serving: "fw_serving start = serving_start (main_start sv t)"
    and follow: "forwarders_follow sys registry_empty (sv_registry sv) Map.empty (fw_running start)"
    using assms(2) by (simp_all add: forwarding_start_def main_start_def)
  show "running_ok sys lib (fw_registry start) (fw_running start)" by (rule forwarding_start_running [OF assms(2)])
  show "registry_made sys (fw_registry start)" using reg(1) by (simp add: serving main_start_def)
  show "catalog_stands sys (fw_registry start) (current_catalog (fw_serving start))"
    using reg(2) by (simp add: serving main_start_def current_catalog_def)
  show "numbered start" by (simp add: numbered_def serving serving_start_def)
  show "chain_version (disk_reads sys lib start start) hs (fw_views start g hs)" for g hs
    using assms(2) chain_version_refl by (simp add: forwarding_start_def)
  show "forwarded sys lib (disk_reads sys lib start start) (fw_arrived sys lib start start) query i"
    if "fw_running start i = Some fo" "query \<in># asked_queries (fo_state fo)" for i fo query
    using that follow [unfolded forwarders_follow_def, THEN spec, of i]
    by (auto simp: new_forwarder_def asked_queries_simps(1) registry_empty_def split: if_splits option.splits)
qed (simp_all add: assms(2) [unfolded forwarding_start_def] serving_start_def)

lemma started_forwarding_ok:
  assumes "async_run sys fails os validate d cr = (Started (sv, listeners), cr')"
    and "forwarding_start sys (main_start sv t) start" and "forwarding_reachable sys lib start s"
    and "server_lib_documented sys lib"
  shows "forwarding_ok sys lib start s"
  using assms(3)
proof induction
  case boot
  show ?case by (rule forwarding_start_ok [OF assms(1,2)])
next
  case (step s s')
  have start: "fw_serving start = serving_start (main_start sv t)" using assms(2) by (simp add: forwarding_start_def)
  have run: "serving_reachable sys (lib_answers lib) (serving_start (main_start sv t)) (fw_serving s)"
    using forwarding_serving.run_simulates [OF step(1)] by (simp add: start)
  show ?case
    by (rule forwarding_step_ok [OF step(2,3,1) assms(4) started_serving_ok(1) [OF assms(1) run]])
      (use started_served(1) [OF assms(1) run] in \<open>simp add: start\<close>)
qed

text \<open>Forwarders never hold the main loop up.\<close>

lemma main_step_generation:
  assumes "main_step sys ms ms'"
  shows "\<exists>g'. generation_after sys ms ms' g g'"
proof -
  have reload: "sv_catalog (snd (reload_runtime_config sys mode (ms_server ms))) = sv_catalog (ms_server ms)"
    if "fst (reload_runtime_config sys mode (ms_server ms)) \<noteq> Finished (Inr ())" for mode
    using reload_failed [OF surjective_pairing that] by (simp add: active_view_def)
  have "sv_catalog (ms_server ms') = sv_catalog (ms_server ms) \<or> catalog_installed sys ms ms'"
    using assms
  proof cases
    case (reload_signal t)
    then show ?thesis
      using reload [of LoadCacheFirst]
      by (auto simp: on_reload_signal_def after_reload_server catalog_installed_def prod_eq_iff)
  next
    case (refresh_timer t)
    then show ?thesis
      using reload [of LoadRefresh]
      by (auto simp: on_refresh_timer_def Let_def after_reload_server catalog_installed_def prod_eq_iff)
  qed simp_all
  then show ?thesis by (auto simp: generation_after_def)
qed

lemma main_loop_followed:
  assumes "forwarding_ok sys lib start s" and "main_step sys (sg_main (fw_serving s)) ms"
    and "dropped (fw_registry s) (sv_registry (ms_server ms)) \<inter> in_use (fw_serving s) = {}"
  shows "\<exists>s'. forwarding_step sys lib s s' \<and> fw_serving s' = (fw_serving s)\<lparr>sg_main := ms\<rparr>"
proof -
  obtain running where "forwarders_follow sys (fw_registry s) (sv_registry (ms_server ms)) (fw_running s) running"
    using made_followed [OF main_step_made [OF assms(2) forwarding_okD(2) [OF assms(1)]]] by blast
  moreover obtain generation where "generation_after sys (sg_main (fw_serving s)) ms (fw_generation s) generation"
    using main_step_generation [OF assms(2)] by blast
  ultimately have "forwarding_step sys lib s
      (s\<lparr>fw_serving := (fw_serving s)\<lparr>sg_main := ms\<rparr>, fw_running := running, fw_generation := generation\<rparr>)"
    by (rule forwarding_step.main_loop [OF assms(2,3)])
  then show ?thesis by (intro exI conjI) (assumption, simp)
qed

end
