(* ===== verification/Query_Sample.thy ===== *)
theory Query_Sample
  imports Query_Progress System_Facts
begin

text \<open>
  A run of the sample server with its forwarder, for the witnesses of \<open>Query_Properties\<close>: a query
  arrives, the rules leave it undecided, the forwarder asks its one upstream, and the answer comes
  back.
\<close>

section \<open>A server library\<close>

text \<open>It knows one zone, and every upstream has an answer.\<close>

definition sample_lib ::
    "(string, string, rx_item list, ip_addr, forward_config, unit, unit, string) server_lib" where
  "sample_lib =
     \<lparr>sl_find = \<lambda>catalog name. (case catalog of [] \<Rightarrow> None | (apex, hs) # _ \<Rightarrow> Some hs),
      sl_walk = \<lambda>forward. run_catalog (sys_ask sample_system forward)
                  (consult_handler (sys_rules sample_system) (sys_names sample_system) (\<lambda>_. [])) [],
      sl_replies = \<lambda>f q x. x = Continue (Inr (LookupFrom ())),
      sl_iter = \<lambda>_. []\<rparr>"

lemma sample_lib_documented: "server_lib_documented sample_system sample_lib"
  by (auto simp: server_lib_documented_def sample_lib_def run_catalog_documented split: list.splits prod.splits)

fun is_shared :: "nat \<Rightarrow> ('n, 'm, 'rx, 'net, 'f forwarder_ref) handler \<Rightarrow> bool" where
  "is_shared i (H_Forwarder (SharedForwarder j)) = (j = i)"
| "is_shared i _ = False"

lemma is_sharedD: "is_shared i h \<Longrightarrow> h = H_Forwarder (SharedForwarder i)"
  by (cases "(i, h)" rule: is_shared.cases) auto

definition blocks_then_forwards ::
    "('n, string, 'rx, 'net, 'f) catalog \<Rightarrow> (('n, string, 'rx, 'net, 'f forwarder_ref) handler \<Rightarrow> bool) \<Rightarrow> bool" where
  "blocks_then_forwards catalog ok =
     (map fst catalog = [''.''] \<and> length (snd (hd catalog)) = 2
      \<and> ok (snd (hd catalog) ! 0) \<and> is_shared 0 (snd (hd catalog) ! 1))"

lemma blocks_then_forwardsD:
  assumes "blocks_then_forwards catalog ok"
  shows "\<exists>h. catalog = [(''.'', [h, H_Forwarder (SharedForwarder 0)])] \<and> ok h"
proof -
  obtain hs where c: "catalog = [(''.'', hs)]"
    using assms by (auto simp: blocks_then_forwards_def)
  then have "length hs = 2" "ok (hs ! 0)" "is_shared 0 (hs ! 1)"
    using assms by (simp_all add: blocks_then_forwards_def)
  then obtain h h' where "hs = [h, h']" "ok h" "is_shared 0 h'"
    by (auto simp: numeral_2_eq_2 length_Suc_conv)
  then show ?thesis using c is_sharedD by blast
qed

definition skips_locally :: "(string, string, rx_item list, ip_addr, 'f) handler \<Rightarrow> string \<Rightarrow> bool" where
  "skips_locally h name =
     (case h of
        H_Block self \<Rightarrow>
          (case (block_lookup fragment_libs string_names self name RT_A () :: (string, unit, unit, string) lookup_result) of
             Skip \<Rightarrow> True | _ \<Rightarrow> False)
      | _ \<Rightarrow> False)"

lemma skips_locallyD:
  fixes forward :: "'f \<Rightarrow> string \<Rightarrow> record_type \<Rightarrow> unit \<Rightarrow> (string, unit, unit, string) lookup_result"
  assumes "skips_locally h name"
  shows "ask_handler fragment_libs string_names forward h (name, RT_A, ()) = Skip" and "h \<noteq> H_Forwarder f"
  using assms by (auto simp: skips_locally_def ask_handler_def split: handler.splits control_flow.splits)

lemma sample_boot_chain:
  "case fst sample_boot of
     Started x \<Rightarrow>
       blocks_then_forwards (sv_catalog (fst x)) (\<lambda>h. skips_locally h ''www.com.'')
       \<and> (case rg_live (sv_registry (fst x)) 0 of
            Some (key, rf) \<Rightarrow> length (rf_slots rf) = 1 \<and> \<not> Option.is_none (hd (rf_slots rf))
          | None \<Rightarrow> False)
   | _ \<Rightarrow> False"
  by code_simp

section \<open>The run\<close>

type_synonym sample_forwarding =
  "(string, string, rx_item list, ip_addr, forward_config, unit, unit, string) forwarding_state"

abbreviation sample_query :: "(string, unit) query" where
  "sample_query \<equiv> (0, ''www.com.'', RT_A, ())"

lemma sample_forwarding_start:
  obtains sv listeners h fo ready and start :: sample_forwarding where
    "sample_boot = (Started (sv, listeners), snd sample_boot)"
    "sv_catalog sv = [(''.'', [h, H_Forwarder (SharedForwarder 0)])]" "skips_locally h ''www.com.''"
    "forwarding_start sample_system (main_start sv 0) start"
    "fw_running start 0 = Some fo" "fs_slots (fo_state fo) = [Fixed ready]"
    "fs_lookups (fo_state fo) = []" "fs_answers (fo_state fo) = []"
proof -
  obtain sv listeners where b: "sample_boot = (Started (sv, listeners), snd sample_boot)"
    using sample_boot_Started by blast
  then have boot: "fst sample_boot = Started (sv, listeners)" by (metis fst_conv)
  note chain = sample_boot_chain [unfolded boot, simplified startup.case fst_conv]
  obtain h where h: "sv_catalog sv = [(''.'', [h, H_Forwarder (SharedForwarder 0)])]" "skips_locally h ''www.com.''"
    using blocks_then_forwardsD [OF conjunct1 [OF chain]] by blast
  obtain entry ready where entry: "rg_live (sv_registry sv) 0 = Some entry" "rf_slots (snd entry) = [Some ready]"
    using conjunct2 [OF chain] by (auto simp: length_Suc_conv Option.is_none_def split: option.splits)
  obtain start :: sample_forwarding where start: "forwarding_start sample_system (main_start sv 0) start"
    using started_forwarding [OF b] by blast
  then have "forwarders_follow sample_system registry_empty (sv_registry sv) Map.empty (fw_running start)"
    by (simp add: forwarding_start_def main_start_def)
  from this [unfolded forwarders_follow_def, THEN spec, of 0] obtain fo where
    fo: "fw_running start 0 = Some fo" "new_forwarder sample_system entry fo"
    using entry(1) by (auto simp: registry_empty_def)
  then have "fs_slots (fo_state fo) = [Fixed ready]" "fs_lookups (fo_state fo) = []" "fs_answers (fo_state fo) = []"
    by (auto simp: new_forwarder_def forwarder_start_def entry(2))
  with b h start fo(1) show thesis by (rule that)
qed

lemma skips_locally_consult:
  "skips_locally h name \<Longrightarrow> consult_handler libs names lookup_iter h q r = r"
  by (auto simp: skips_locally_def consult_handler_def split: handler.splits prod.splits)

text \<open>One query: it arrives, asks the handlers of its zone, of which the second is the forwarder, whose
  only upstream replies, and is answered.\<close>

definition query_arrived :: "sample_forwarding \<Rightarrow> sample_forwarding" where
  "query_arrived s =
     s\<lparr>fw_serving := catalog_request (fw_next s, snd sample_query) (fw_serving s), fw_next := Suc (fw_next s),
       fw_taken := (fw_taken s)(fw_next s := fw_generation s), fw_asked := (fw_asked s)(fw_next s := [])\<rparr>"

definition handler_asked :: "(string, string, rx_item list, ip_addr, forward_config) chain \<Rightarrow> sample_forwarding \<Rightarrow> sample_forwarding" where
  "handler_asked hs s =
     s\<lparr>fw_asked := (fw_asked s)(fst sample_query := fw_asked s (fst sample_query)
         @ [fw_views s (fw_taken s (fst sample_query)) hs ! length (fw_asked s (fst sample_query))])\<rparr>"

definition query_asked where
  "query_asked fo s = (s\<lparr>fw_running := (fw_running s)(0 \<mapsto> lookup_begun sample_query fo)\<rparr> :: sample_forwarding)"

abbreviation sample_upstream_answer :: "(string, unit, unit, string) lookup_result" where
  "sample_upstream_answer \<equiv> Continue (Inr (LookupFrom ()))"

definition upstream_replied where
  "upstream_replied ready fs =
     fs\<lparr>fs_lookups := [] @ [],
        fs_answers := finish_lookup (lookup_start sample_query [Some ready])
          (lk_reports (lookup_start sample_query [Some ready]) @ [report_of (Some sample_upstream_answer) (0, ready)]) ([] @ [])
          sample_upstream_answer # fs_answers fs\<rparr>"

lemma sample_forwarder_works:
  assumes "fs_slots (fo_state fo) = [Fixed ready]" and "fs_lookups (fo_state fo) = []"
  shows "forwarder_works net timing origin options (query_replies sample_lib)
     (fo_state (lookup_begun sample_query fo)) (upstream_replied ready (fo_state (lookup_begun sample_query fo)))"
proof -
  have begun: "fs_lookups (fo_state (lookup_begun sample_query fo)) = [] @ lookup_start sample_query [Some ready] # []"
    "fs_slots (fo_state (lookup_begun sample_query fo)) = [Fixed ready]"
    using assms by (simp_all add: lookup_begun_def)
  have "forwarder_step net timing origin options (query_replies sample_lib)
     (fo_state (lookup_begun sample_query fo)) (upstream_replied ready (fo_state (lookup_begun sample_query fo)))"
    unfolding upstream_replied_def
    by (rule forwarder_step.task_settles [OF begun(1), where result = "Some sample_upstream_answer" and notify = False
          and ts = "[]" and task = "(0, ready)" and ts' = "[]"])
      (simp_all add: lookup_start_def ready_slots_def List.map_filter_def query_replies_def sample_lib_def
        process_report_def report_of_def)
  then show ?thesis
    using begun by (simp add: forwarder_works_def upstream_replied_def asked_queries_def finish_lookup_def lookup_start_def)
qed

lemma sample_forwarding_run:
  fixes start :: sample_forwarding
  assumes "sv_catalog sv = [(''.'', [h, H_Forwarder (SharedForwarder 0)])]" and "skips_locally h ''www.com.''"
    and "forwarding_start sample_system (main_start sv 0) start" and "fw_running start 0 = Some fo"
    and "fs_slots (fo_state fo) = [Fixed ready]" and "fs_lookups (fo_state fo) = []" and "fs_answers (fo_state fo) = []"
  obtains asked answered where
    "forwarding_reachable sample_system sample_lib start asked"
    "fw_running asked 0 = Some (lookup_begun sample_query fo)"
    "forwarding_reachable sample_system sample_lib start answered"
    "sg_answered (fw_serving answered) = [(sample_query, sv_catalog sv, Some sample_upstream_answer)]"
proof -
  let ?hs = "[h, H_Forwarder (SharedForwarder 0)]"
  let ?c = "[(''.'', ?hs)]"
  let ?forward = "\<lambda>f name rtype options. sample_upstream_answer"
  let ?begun = "lookup_begun sample_query fo"
  define s1 where "s1 = query_arrived start"
  define a1 where "a1 = handler_asked ?hs s1"
  define a2 where "a2 = handler_asked ?hs a1"
  define s2 where "s2 = query_asked fo a2"
  define s3 where "s3 = s2\<lparr>fw_running := (fw_running s2)(0 \<mapsto> ?begun\<lparr>fo_state := upstream_replied ready (fo_state ?begun)\<rparr>)\<rparr>"
  define s4 where "s4 = s3\<lparr>fw_serving := (fw_serving s3)\<lparr>sg_inflight := [] @ [],
      sg_answered := (sample_query, ?c, Some (sl_walk sample_lib ?forward (?hs @ drop (length ?hs) ?hs) (snd sample_query)))
        # sg_answered (fw_serving s3)\<rparr>, fw_running := abandon (\<lambda>query. query \<noteq> sample_query) (fw_running s3)\<rparr>"
  note defs = s1_def a1_def a2_def s2_def s3_def s4_def query_arrived_def handler_asked_def query_asked_def catalog_request_def
  have start: "fw_serving start = serving_start (main_start sv 0)" "fw_next start = 0" "fw_generation start = 0"
    "fw_views start = (\<lambda>_ hs. hs)" "fw_taken start = (\<lambda>_. 0)" "fw_asked start = (\<lambda>_. [])"
    using assms(3) by (simp_all add: forwarding_start_def)
  note start = start serving_start_def main_start_def in_operation_def current_catalog_def assms(1,4)
  have sys: "sys_rules sample_system = fragment_libs" "sys_names sample_system = string_names"
    by (simp_all add: sample_system_def)
  note skip = skips_locallyD [OF assms(2)]
  have step1: "forwarding_step sample_system sample_lib start s1"
    unfolding s1_def query_arrived_def by (rule forwarding_step.arrives) (simp add: start)
  have ask1: "forwarding_step sample_system sample_lib s1 a1"
    unfolding a1_def handler_asked_def
    by (rule forwarding_step.asks [where catalog = ?c and forward = ?forward and query = sample_query])
      (simp_all add: defs start sample_lib_def answers_known_def)
  have ask2: "forwarding_step sample_system sample_lib a1 a2"
    unfolding a2_def handler_asked_def
    by (rule forwarding_step.asks [where catalog = ?c and forward = ?forward and query = sample_query])
      (simp_all add: defs start sample_lib_def answers_known_def sys skip not_sym [OF skip(2)])
  have step2: "forwarding_step sample_system sample_lib a2 s2"
    unfolding s2_def query_asked_def
    by (rule forwarding_step.asks_forwarder [where before = "[h]" and catalog = ?c and hs = ?hs])
      (simp_all add: defs start sample_lib_def asked_queries_def assms(6,7))
  have step3: "forwarding_step sample_system sample_lib s2 s3"
    unfolding s3_def
    by (rule forwarding_step.forwarder [OF _ sample_forwarder_works [OF assms(5,6)]]) (simp add: defs start)
  have "answers_known (upstream_answer sample_lib (fw_running s3)) sample_query ?forward ?hs"
    using skip(2) by (auto simp: answers_known_def upstream_answer_def defs upstream_replied_def finish_lookup_def lookup_start_def)
  then have step4: "forwarding_step sample_system sample_lib s3 s4"
    unfolding s4_def
    by (intro forwarding_step.answers) (simp_all add: defs start sample_lib_def sys skip)
  have run2: "forwarding_reachable sample_system sample_lib start s2"
    by (rule forwarding_reachable.step [OF forwarding_reachable.step [OF forwarding_reachable.step
        [OF forwarding_reachable.step [OF forwarding_reachable.boot step1] ask1] ask2] step2])
  have run4: "forwarding_reachable sample_system sample_lib start s4"
    by (rule forwarding_reachable.step [OF forwarding_reachable.step [OF run2 step3] step4])
  have "ask_handler fragment_libs string_names ?forward (H_Forwarder f) (''www.com.'', RT_A, ()) = sample_upstream_answer"
    for f :: "forward_config forwarder_ref"
    by (simp add: ask_handler_def)
  then have "sl_walk sample_lib ?forward [h, H_Forwarder (SharedForwarder 0)] (snd sample_query) = sample_upstream_answer"
    by (simp add: sample_lib_def sys skip skips_locally_consult [OF assms(2)])
  then have "sg_answered (fw_serving s4) = [(sample_query, sv_catalog sv, Some sample_upstream_answer)]"
    by (simp add: defs start)
  with run2 run4 show thesis by (intro that [of s2 s4]) (simp_all add: defs)
qed

lemma sample_boot_store:
  "case zone_stores (hd (cfg_zones sample_boot_cfg)) of [CompactForward config] \<Rightarrow> True | _ \<Rightarrow> False"
  by code_simp

end
