(* ===== verification/Query_Properties.thy ===== *)
theory Query_Properties
  imports Query_Sample
begin

text \<open>
  The properties of the running server with its forwarders: which queries leave the server, and
  what every answer is made of. They join the rules, the chain of handlers, the reloads and the
  forwarders.
\<close>

section \<open>The chain of a zone\<close>

text \<open>The handlers a catalog has for a zone, and what they were built from.\<close>

definition loaded_chain ::
    "('rx, 'net, 'c, 'r, 'res, 'n, 'm, 'f) system \<Rightarrow> ('n, 'm, 'rx, 'net, 'f) catalog \<Rightarrow> zone_config \<Rightarrow> disk
     \<Rightarrow> ('rx, 'net) compiled_rule_sets option \<Rightarrow> 'n \<Rightarrow> ('n, 'm, 'rx, 'net, 'f forwarder_ref) handler list \<Rightarrow> bool" where
  "loaded_chain sys catalog zone d rules origin hs \<longleftrightarrow>
     (\<exists>mode cfg d0 rg rg'. build_catalog sys mode cfg d0 rg = (Inr catalog, d, rg')
        \<and> build_rules sys mode cfg d0 = (Inr rules, d) \<and> zone \<in> set (cfg_zones cfg)
        \<and> zone_name_parse (sys_net sys) (zone_name zone) = Inr origin
        \<and> (lower_of_name (sys_names sys) origin, hs) \<in> set catalog
        \<and> (\<exists>rg1 rg2. sys_zone_load sys d rules zone rg1 = (Inr hs, rg2)))"

lemma load_zones_member:
  assumes "load_zones sys d rules zones catalog rg = (Inr catalog', rg')" and "(apex, hs) \<in> set catalog'"
  shows "(apex, hs) \<in> set catalog \<or>
     (\<exists>zone\<in>set zones. \<exists>origin rg1 rg2. zone_name_parse (sys_net sys) (zone_name zone) = Inr origin
        \<and> apex = lower_of_name (sys_names sys) origin \<and> sys_zone_load sys d rules zone rg1 = (Inr hs, rg2))"
  using assms
proof (induction zones arbitrary: catalog rg)
  case (Cons zone zones)
  obtain origin hs1 rg1 where n: "zone_name_parse (sys_net sys) (zone_name zone) = Inr origin"
    and z: "sys_zone_load sys d rules zone rg = (Inr hs1, rg1)"
    and r: "load_zones sys d rules zones (catalog @ [(lower_of_name (sys_names sys) origin, hs1)]) rg1 = (Inr catalog', rg')"
    using Cons.prems(1) by (auto split: sum.splits prod.splits)
  from Cons.IH [OF r Cons.prems(2)] show ?case
  proof (elim disjE)
    assume "(apex, hs) \<in> set (catalog @ [(lower_of_name (sys_names sys) origin, hs1)])"
    then consider "(apex, hs) \<in> set catalog" | "apex = lower_of_name (sys_names sys) origin" "hs = hs1" by auto
    then show ?thesis using n z by cases auto
  qed auto
qed simp

lemma complete_catalog_chain:
  assumes "complete_catalog sys catalog" and "(apex, hs) \<in> set catalog"
  obtains zone d rules origin where "loaded_chain sys catalog zone d rules origin hs"
proof -
  obtain mode cfg d0 rg d rg' where b: "build_catalog sys mode cfg d0 rg = (Inr catalog, d, rg')"
    using assms(1) by (auto simp: complete_catalog_def)
  then obtain rules where "build_rules sys mode cfg d0 = (Inr rules, d)"
    "load_zones sys d rules (cfg_zones cfg) [] rg = (Inr catalog, rg')"
    by (auto simp: build_catalog_def split: prod.splits sum.splits)
  with load_zones_member [OF this(2) assms(2)] b assms(2) show thesis
    by (fastforce intro: that simp: loaded_chain_def)
qed

lemma load_stores_prefix:
  "load_stores load chain stores hs rg = (Inr hs', rg') \<Longrightarrow> \<exists>rest. hs' = hs @ rest"
  by (induction stores arbitrary: hs rg) (fastforce split: prod.splits sum.splits)+

lemma load_stores_first:
  assumes "load_stores load chain stores [] rg = (Inr hs, rg')" and "stores \<noteq> []"
  shows "\<exists>forwarder chained rest. chain forwarder = Inr chained \<and> hs = chained @ rest"
  using assms by (cases stores) (auto split: prod.splits sum.splits dest!: load_stores_prefix)

text \<open>With rules, a chain begins with the local handlers.\<close>

lemma loaded_chain_begins:
  assumes "loaded_chain sys catalog zone d (Some compiled) origin hs" and "hs \<noteq> []"
  obtains oa forwarder rest where
    "override_authority_of (sys_names sys) (sys_maps sys) (read_file d) origin compiled = Inr oa"
    "hs = local_handlers (sys_names sys) origin oa compiled @ H_Forwarder forwarder # rest"
proof -
  obtain rg1 rg2 where n: "zone_name_parse (sys_net sys) (zone_name zone) = Inr origin"
    and "sys_zone_load sys d (Some compiled) zone rg1 = (Inr hs, rg2)"
    using assms(1) by (auto simp: loaded_chain_def)
  then have l: "load_stores (sys_load_store sys origin)
      (\<lambda>forwarder. map_err AuthorityLoadError
         (build_authorities (sys_names sys) (sys_maps sys) (read_file d) origin forwarder compiled))
      (zone_stores zone) [] rg1 = (Inr hs, rg2)"
    by (simp add: zone_load_def)
  with assms(2) have "zone_stores zone \<noteq> []" by auto
  from load_stores_first [OF l this] obtain forwarder chained rest where
    "build_authorities (sys_names sys) (sys_maps sys) (read_file d) origin forwarder compiled = Inr chained"
    "hs = chained @ rest"
    by auto
  then show thesis by (auto elim!: build_authorities_chain intro: that)
qed

lemma loaded_chain_single:
  assumes "loaded_chain sys catalog zone d (Some compiled) origin hs" and "zone_stores zone = [CompactForward config]"
  obtains i where
    "build_authorities (sys_names sys) (sys_maps sys) (read_file d) origin (SharedForwarder i) compiled = Inr hs"
proof -
  obtain rg1 rg2 where n: "zone_name_parse (sys_net sys) (zone_name zone) = Inr origin"
    and "sys_zone_load sys d (Some compiled) zone rg1 = (Inr hs, rg2)"
    using assms(1) by (auto simp: loaded_chain_def)
  then show thesis
    using assms(2) that
    by (auto simp: zone_load_def load_store_def rbind_Inr_iff split: prod.splits sum.splits)
qed

text \<open>A catalog of one zone with one store and rules.\<close>

lemma build_catalog_one_chain:
  assumes "build_catalog sys mode cfg d0 rg = (Inr catalog, d, rg')" and "cfg_zones cfg = [zone]"
    and "adblock_runtime_config_of cfg = Some rc" and "zone_stores zone = [store]"
  obtains compiled origin hs oa where "catalog = [(lower_of_name (sys_names sys) origin, hs)]"
    "loaded_chain sys catalog zone d (Some compiled) origin hs"
    "override_authority_of (sys_names sys) (sys_maps sys) (read_file d) origin compiled = Inr oa"
proof -
  obtain compiled where rules: "build_rules sys mode cfg d0 = (Inr (Some compiled), d)"
    and z: "load_zones sys d (Some compiled) [zone] [] rg = (Inr catalog, rg')"
    using assms by (auto simp: build_catalog_def build_rules_def rbind_Inr_iff split: prod.splits sum.splits)
  then obtain origin hs rg2 where o: "zone_name_parse (sys_net sys) (zone_name zone) = Inr origin"
    "sys_zone_load sys d (Some compiled) zone rg = (Inr hs, rg2)" "catalog = [(lower_of_name (sys_names sys) origin, hs)]"
    by (auto split: prod.splits sum.splits)
  have chain: "loaded_chain sys catalog zone d (Some compiled) origin hs"
    unfolding loaded_chain_def using assms(1,2) rules o by fastforce
  have "hs \<noteq> []"
    using o(1,2) assms(4) by (auto simp: zone_load_def build_authorities_def rbind_Inr_iff split: prod.splits sum.splits)
  then obtain oa where "override_authority_of (sys_names sys) (sys_maps sys) (read_file d) origin compiled = Inr oa"
    using loaded_chain_begins [OF chain] by metis
  with o(3) chain show thesis by (rule that)
qed

section \<open>A chain after its leases were refreshed\<close>

text \<open>After some ticks an override handler is as if it had been built with the last of them.\<close>

lemma refreshed_override_of:
  assumes "override_authority_of names orders read origin compiled = Inr (Some self)"
  shows "override_authority_of names orders
      (if 0 < lh_refresh_interval_secs (lan_hosts compiled) then read' else read) origin compiled
    = Inr (Some (refreshed_override read' self))"
  using assms
  by (auto simp: override_authority_of_def override_authority_new_def refreshed_override_def rbind_Inr_iff
      lan_source_new_def spawn_lan_host_refresh_def split: if_splits)

lemma refreshed_overrides_of:
  assumes "override_authority_of names orders read origin compiled = Inr (Some self)"
  shows "\<exists>read'. (read' = read \<or> 0 < lh_refresh_interval_secs (lan_hosts compiled) \<and> read' \<in> set rs)
     \<and> override_authority_of names orders read' origin compiled = Inr (Some (fold refreshed_override rs self))"
  using assms
proof (induction rs arbitrary: read self)
  case (Cons r rs)
  note built = refreshed_override_of [OF Cons.prems, of r]
  show ?case
  proof (cases "0 < lh_refresh_interval_secs (lan_hosts compiled)")
    case True
    from Cons.IH [OF built [unfolded if_P [OF True]]] show ?thesis using True by auto
  next
    case False
    from Cons.IH [OF built [unfolded if_not_P [OF False]]] show ?thesis using False by auto
  qed
qed simp

lemma fold_refreshed_handler:
  "fold refreshed_handler rs (H_Override self) = H_Override (fold refreshed_override rs self)"
  by (induction rs arbitrary: self) simp_all

lemma refreshed_handler_built:
  assumes "override_authority_of names orders read origin compiled = Inr (Some self)"
    and "handler_version reads (H_Override self) h"
  shows "\<exists>read' self'. (read' = read \<or> 0 < lh_refresh_interval_secs (lan_hosts compiled) \<and> read' \<in> reads)
     \<and> override_authority_of names orders read' origin compiled = Inr (Some self') \<and> h = H_Override self'"
proof -
  obtain rs where rs: "set rs \<subseteq> reads" "h = H_Override (fold refreshed_override rs self)"
    using assms(2) by (auto simp: handler_version_def fold_refreshed_handler)
  from refreshed_overrides_of [OF assms(1), of rs] rs show ?thesis by blast
qed

lemma handler_version_other: "handler_version reads h h' \<Longrightarrow> (\<And>self. h \<noteq> H_Override self) \<Longrightarrow> h' = h"
proof -
  have "fold refreshed_handler rs h = h" if "\<And>self. h \<noteq> H_Override self" for rs
    using that by (cases h) (induction rs, auto)+
  then show "handler_version reads h h' \<Longrightarrow> (\<And>self. h \<noteq> H_Override self) \<Longrightarrow> h' = h"
    by (auto simp: handler_version_def)
qed

lemma chain_version_other:
  "chain_version reads hs hs' \<Longrightarrow> (\<And>self. H_Override self \<notin> set hs) \<Longrightarrow> hs' = hs"
  by (induction rule: list_all2_induct) (auto dest: handler_version_other)

lemma chain_version_built:
  fixes hs' :: "('n, 'm, 'rx, 'net, 'f) handler list"
  assumes "override_authority_of names orders read origin compiled = Inr oa"
    and "chain_version reads (local_handlers names origin oa compiled) hs'"
  shows "\<exists>read' oa'. (read' = read \<or> 0 < lh_refresh_interval_secs (lan_hosts compiled) \<and> read' \<in> reads)
     \<and> override_authority_of names orders read' origin compiled = Inr oa'
     \<and> hs' = local_handlers names origin oa' compiled"
proof -
  let ?others = "opt_handler H_Rewrite (rewrite_authority_of names origin compiled)
      @ opt_handler H_Block (block_authority_of names origin compiled)"
  have others: "hs = ?others" if "chain_version reads ?others hs" for hs
    by (rule chain_version_other [OF that]) (auto simp: opt_handler_def split: option.splits)
  show ?thesis
  proof (cases oa)
    case None
    then have "local_handlers names origin oa compiled
        = (?others :: ('n, 'm, 'rx, 'net, 'f) handler list)"
      by (simp add: local_handlers_def opt_handler_def)
    then have "hs' = local_handlers names origin oa compiled" using assms(2) others by metis
    then show ?thesis using assms(1) by blast
  next
    case (Some self)
    then obtain h hs where hs': "hs' = h # hs" "handler_version reads (H_Override self) h" "chain_version reads ?others hs"
      using assms(2) by (auto simp: local_handlers_def opt_handler_def list_all2_Cons1)
    from refreshed_handler_built [OF assms(1) [unfolded Some] hs'(2)] others [OF hs'(3)] hs'(1)
    show ?thesis by (auto simp: local_handlers_def opt_handler_def)
  qed
qed

lemma chain_version_single:
  assumes "override_authority_of names orders read origin compiled = Inr oa"
    and "chain_version reads (local_handlers names origin oa compiled @ [H_Forwarder f]) hs'"
  shows "\<exists>read' oa'. (read' = read \<or> 0 < lh_refresh_interval_secs (lan_hosts compiled) \<and> read' \<in> reads)
     \<and> override_authority_of names orders read' origin compiled = Inr oa'
     \<and> hs' = local_handlers names origin oa' compiled @ [H_Forwarder f]"
proof -
  obtain first h where hs': "hs' = first @ [h]" "chain_version reads (local_handlers names origin oa compiled) first"
    "handler_version reads (H_Forwarder f) h"
    using assms(2) by (auto simp: list_all2_append1 list_all2_Cons1)
  have "h = H_Forwarder f" using handler_version_other [OF hs'(3)] by simp
  then show ?thesis using chain_version_built [OF assms(1) hs'(2)] hs'(1) by blast
qed

lemma local_handlers_no_forwarder: "H_Forwarder f \<notin> set (local_handlers names origin oa compiled)"
  by (auto simp: local_handlers_def opt_handler_def split: option.splits)

text \<open>A prefix that ends before a forwarder begins with the local handlers.\<close>

lemma local_handlers_before:
  assumes "local_handlers names origin oa compiled @ H_Forwarder f # rest = before @ H_Forwarder g # after"
  shows "\<exists>others. before = local_handlers names origin oa compiled @ others"
proof -
  from assms obtain us where "local_handlers names origin oa compiled = before @ us \<and> us @ H_Forwarder f # rest = H_Forwarder g # after
     \<or> local_handlers names origin oa compiled @ us = before"
    by (auto simp: append_eq_append_conv2)
  then show ?thesis
  proof (elim disjE conjE)
    assume l: "local_handlers names origin oa compiled = before @ us" "us @ H_Forwarder f # rest = H_Forwarder g # after"
    then have "us = []"
      using local_handlers_no_forwarder [of g names origin oa compiled] by (cases us) auto
    then show ?thesis using l(1) by simp
  qed auto
qed

text \<open>What the rules, overrides and rewrites decide about a query by themselves.\<close>

definition local_outcome where
  "local_outcome sys oa origin compiled name rtype options =
     (case override_decision (sys_names sys) oa name rtype options of
        Skip \<Rightarrow>
          (case rewrite_decision (sys_names sys) (rewrite_authority_of (sys_names sys) origin compiled) name rtype options of
             Skip \<Rightarrow>
               if blocks_query (sys_rules sys) (full_block_authority (sys_names sys) origin compiled)
                    (normalized_query_name (sys_names sys) name) rtype
               then block_response (sys_names sys) (full_block_authority (sys_names sys) origin compiled) name rtype options
               else Skip
           | x \<Rightarrow> x)
      | x \<Rightarrow> x)"

lemma local_outcome_first:
  "first_decision (sys_ask sys forward) (local_handlers (sys_names sys) origin oa compiled) (name, rtype, options)
     = local_outcome sys oa origin compiled name rtype options"
  unfolding local_outcome_def by (rule local_decision)

section \<open>Queries that leave the server\<close>

text \<open>The leases of a chain that was built when the disk was \<open>disk\<close>: they are those of that disk, or
  the refresh task has loaded them from one the server had in its run.\<close>

definition lease_read ::
    "('rx, 'net, 'c, 'r, 'res, 'n, 'm, 'f) system \<Rightarrow> ('n, 'm, 'rx, 'net, 'f, 'o, 'l, 'e) server_lib
     \<Rightarrow> ('n, 'm, 'rx, 'net, 'f, 'o, 'l, 'e) forwarding_state \<Rightarrow> ('n, 'm, 'rx, 'net, 'f, 'o, 'l, 'e) forwarding_state
     \<Rightarrow> ('rx, 'net) compiled_rule_sets \<Rightarrow> disk \<Rightarrow> (string \<Rightarrow> io_error + string) \<Rightarrow> bool" where
  "lease_read sys lib start s compiled disk read \<longleftrightarrow>
     read = read_file disk
     \<or> 0 < lh_refresh_interval_secs (lan_hosts compiled)
       \<and> (\<exists>s'. forwarding_reachable sys lib start s' \<and> forwarding_reachable sys lib s' s \<and> read = read_file (fw_disk s'))"

lemma lease_readI:
  "read = read_file disk \<or> 0 < lh_refresh_interval_secs (lan_hosts compiled) \<and> read \<in> disk_reads sys lib start s \<Longrightarrow>
   lease_read sys lib start s compiled disk read"
  by (auto simp: lease_read_def disk_reads_def)



section \<open>What an answer is made of\<close>

definition consulted_answer where
  "consulted_answer sys lib origin compiled name rtype options upstream =
     (case rewrite_authority_of (sys_names sys) origin compiled of
        None \<Rightarrow> Continue upstream
      | Some self \<Rightarrow>
          rewrite_consult (sys_rules sys) (sys_names sys) (sl_iter lib) self name rtype options (Continue upstream))"

lemma chain_decides_local:
  fixes forward :: "'f \<Rightarrow> 'm \<Rightarrow> record_type \<Rightarrow> 'o \<Rightarrow> ('n, 'o, 'l, 'e) lookup_result"
  assumes "build_authorities (sys_names sys) (sys_maps sys) read origin forwarder compiled = Inr hs"
    and "override_authority_of (sys_names sys) (sys_maps sys) read origin compiled = Inr oa"
    and "catalog_documented (sys_ask sys forward) (consult_handler (sys_rules sys) (sys_names sys) lookup_iter) catalog"
    and "local_outcome sys oa origin compiled name rtype options \<noteq> (Skip :: ('n, 'o, 'l, 'e) lookup_result)"
  shows "catalog hs (name, rtype, options) = local_outcome sys oa origin compiled name rtype options"
proof -
  have hs: "hs = local_handlers (sys_names sys) origin oa compiled @ [H_Forwarder forwarder]"
    using assms(1,2) by (auto elim: build_authorities_chain)
  note first = local_outcome_first [of sys forward origin oa compiled name rtype options]
  show ?thesis
  proof (cases "local_outcome sys oa origin compiled name rtype options :: ('n, 'o, 'l, 'e) lookup_result")
    case (Continue r)
    then have False using first by (simp add: local_decision_not_Continue)
    then show ?thesis ..
  next
    case (Break r)
    then show ?thesis unfolding hs using first by (metis catalog_first_Break [OF assms(3)])
  qed (use assms(4) in simp)
qed

text \<open>\<open>upstream\<close> is the result of a lookup for the query, which ran in a forwarder that was made for the
  name and configuration of a store of the zone the handlers are for, and it is what the loop over its
  tasks computes from replies of the upstreams that were ready when it started.\<close>

definition lookup_result_explained ::
    "('rx, 'net, 'c, 'r, 'res, 'n, 'm, 'f) system \<Rightarrow> ('n, 'm, 'rx, 'net, 'f, 'o, 'l, 'e) server_lib
     \<Rightarrow> ('n, 'm, 'rx, 'net, 'f) catalog \<Rightarrow> ('n, 'm, 'rx, 'net, 'f) chain \<Rightarrow> ('m, 'o) query
     \<Rightarrow> 'e lookup_error + ('n, 'o, 'l) auth_lookup \<Rightarrow> bool" where
  "lookup_result_explained sys lib catalog hs query upstream \<longleftrightarrow>
     (\<exists>entry. \<exists>fo :: ('n, 'm, 'f, 'o, 'l, 'e) running_forwarder. \<exists>fl ts rs.
        stands_for sys catalog hs (fst entry) \<and> forwarder_run sys lib entry fo
        \<and> fl \<in> set (fs_answers (fo_state fo)) \<and> fl_query fl = query
        \<and> mset ts = mset (ready_slots (fl_snapshot fl))
        \<and> list_all2 (possible_report (query_replies lib) query) rs ts
        \<and> fst (aggregate rs None []) = Continue upstream)"

lemma upstream_lookup:
  fixes lib :: "('n, 'm, 'rx, 'net, 'f, 'o, 'l, 'e) server_lib"
  assumes "upstream_explained sys lib catalog hs query (SharedForwarder i) x"
  shows "\<exists>upstream. x = Continue upstream \<and> lookup_result_explained sys lib catalog hs query upstream"
proof -
  obtain entry and fo :: "('n, 'm, 'f, 'o, 'l, 'e) running_forwarder" and fl where
    up: "stands_for sys catalog hs (fst entry)" "forwarder_run sys lib entry fo"
      "fl \<in> set (fs_answers (fo_state fo))" "fl_query fl = query" "fl_answer fl = x"
    using assms unfolding upstream_explained_def by (simp only: forwarder_ref.case) blast
  have fin: "finished_ok (query_replies lib) fl"
    using forwarder_run_lookups [OF up(2)] up(3) by (simp add: lookups_ok_def)
  obtain upstream where upstream: "fl_answer fl = Continue upstream" using fin by (rule finished_continues)
  obtain ts rs where "mset ts = mset (ready_slots (fl_snapshot fl))"
    "list_all2 (possible_report (query_replies lib) query) rs ts" "fst (aggregate rs None []) = Continue upstream"
    using finished_lookup_reports [OF fin] up(4) upstream by metis
  then show ?thesis unfolding lookup_result_explained_def using up upstream by blast
qed



end
