(* ===== verification/Zone_Handlers.thy ===== *)
theory Zone_Handlers
  imports Query_Properties
begin

text \<open>
  What the handlers of a zone tell the server library about themselves: their kind of zone, whether
  they may be transferred, and their origin (the small methods of \<^verbatim>\<open>ZoneHandler\<close> in
  src/adblock/authority.rs and src/upstream.rs, \<^verbatim>\<open>ZoneConfig::zone_type\<close> in src/lib.rs). The plain
  forwarder of a store of type forward is the library's own.
\<close>

section \<open>The constructors of the handlers\<close>

definition rewrite_authority_new ::
    "('n, 'm) name_libs \<Rightarrow> 'n \<Rightarrow> domain_rewrite_rule list \<Rightarrow> 'net answer_ip_rewrite_rule list
     \<Rightarrow> cname_rewrite_rule list \<Rightarrow> ('m, 'net) rewrite_authority" where
  "rewrite_authority_new names origin domains answers cnames =
     \<lparr>ra_origin = lower_of_name names origin, ra_domain_rewrites = domains,
      ra_answer_ip_rewrites = answers, ra_cname_rewrites = cnames\<rparr>"

lemma rewrite_authority_of_new:
  "rewrite_authority_of names origin compiled =
     (if domain_rewrites compiled = [] \<and> answer_ip_rewrites compiled = [] \<and> cname_rewrites compiled = [] then None
      else Some (rewrite_authority_new names origin (domain_rewrites compiled) (answer_ip_rewrites compiled)
                   (cname_rewrites compiled)))"
  by (simp add: rewrite_authority_of_def rewrite_authority_new_def)

definition block_authority_new ::
    "('n, 'm) name_libs \<Rightarrow> 'n \<Rightarrow> string set \<Rightarrow> string set \<Rightarrow> string set \<Rightarrow> string set
     \<Rightarrow> 'rx compiled_match_rule list \<Rightarrow> 'rx compiled_match_rule list \<Rightarrow> blocking_mode
     \<Rightarrow> 32 word \<Rightarrow> 128 word \<Rightarrow> 32 word \<Rightarrow> ('m, 'rx) block_authority" where
  "block_authority_new names origin exact_blocked subdomains_blocked exact_allowed subdomains_allowed
       block allow mode ipv4 ipv6 ttl =
     \<lparr>ba_origin = lower_of_name names origin, ba_block_exact = exact_blocked,
      ba_block_subdomains = subdomains_blocked, ba_allow_exact = exact_allowed,
      ba_allow_subdomains = subdomains_allowed, ba_block_rules = block, ba_allow_rules = allow,
      ba_blocking_mode = mode, ba_blocking_ipv4 = ipv4, ba_blocking_ipv6 = ipv6, ba_ttl = ttl\<rparr>"

lemma block_authority_of_new:
  "block_authority_of names origin compiled =
     (if block_exact compiled = {} \<and> block_subdomains compiled = {}
         \<and> block_rules compiled = [] \<and> allow_rules compiled = [] then None
      else Some (block_authority_new names origin (block_exact compiled) (block_subdomains compiled)
                   (allow_exact compiled) (allow_subdomains compiled) (block_rules compiled) (allow_rules compiled)
                   (blocking_mode compiled) (unwrap_or 0 (blocking_ipv4 compiled))
                   (unwrap_or 0 (blocking_ipv6 compiled)) (block_ttl compiled)))"
  by (auto simp: block_authority_of_def block_authority_new_def split: option.split)

section \<open>Kinds, transfers and origins\<close>

text \<open>The kinds of zones and the policies the server library has.\<close>

datatype zone_type = ZonePrimary | ZoneSecondary | ZoneExternal

datatype axfr_policy = AxfrDeny | AxfrAllowAll | AxfrAllowSigned

definition zone_config_type :: "zone_config \<Rightarrow> zone_type" where
  "zone_config_type zone = ZoneExternal"

definition override_zone_type :: "('n, 'm) override_authority \<Rightarrow> zone_type" where
  "override_zone_type self = ZoneExternal"

definition rewrite_zone_type :: "('m, 'net) rewrite_authority \<Rightarrow> zone_type" where
  "rewrite_zone_type self = ZoneExternal"

definition block_zone_type :: "('m, 'rx) block_authority \<Rightarrow> zone_type" where
  "block_zone_type self = ZoneExternal"

definition recovering_zone_type :: "('m, 'f) recovering_forwarder \<Rightarrow> zone_type" where
  "recovering_zone_type self = ZoneExternal"

definition override_axfr_policy :: "('n, 'm) override_authority \<Rightarrow> axfr_policy" where
  "override_axfr_policy self = AxfrDeny"

definition rewrite_axfr_policy :: "('m, 'net) rewrite_authority \<Rightarrow> axfr_policy" where
  "rewrite_axfr_policy self = AxfrDeny"

definition block_axfr_policy :: "('m, 'rx) block_authority \<Rightarrow> axfr_policy" where
  "block_axfr_policy self = AxfrDeny"

definition recovering_axfr_policy :: "('m, 'f) recovering_forwarder \<Rightarrow> axfr_policy" where
  "recovering_axfr_policy self = AxfrDeny"

text \<open>A handler as the server library sees it: kind, policy and origin. A shared forwarder is the one
  alive in the registry; the library's own forwarder speaks for itself.\<close>

record 'm zone_handler =
  zh_type :: zone_type
  zh_axfr :: axfr_policy
  zh_origin :: 'm

definition handler_view ::
    "('m, 'f) registry \<Rightarrow> ('n, 'm, 'rx, 'net, 'f forwarder_ref) handler
     \<Rightarrow> 'm zone_handler option" where
  "handler_view rg h =
     (case h of
        H_Override self \<Rightarrow>
          Some \<lparr>zh_type = override_zone_type self, zh_axfr = override_axfr_policy self, zh_origin = oa_origin self\<rparr>
      | H_Rewrite self \<Rightarrow>
          Some \<lparr>zh_type = rewrite_zone_type self, zh_axfr = rewrite_axfr_policy self, zh_origin = ra_origin self\<rparr>
      | H_Block self \<Rightarrow>
          Some \<lparr>zh_type = block_zone_type self, zh_axfr = block_axfr_policy self, zh_origin = ba_origin self\<rparr>
      | H_Forwarder (OwnForwarder _) \<Rightarrow> None
      | H_Forwarder (SharedForwarder i) \<Rightarrow>
          map_option (\<lambda>(key, self). \<lparr>zh_type = recovering_zone_type self, zh_axfr = recovering_axfr_policy self,
                                     zh_origin = rf_origin self\<rparr>) (rg_live rg i))"

text \<open>An external zone that is never transferred.\<close>

definition external_view :: "'m \<Rightarrow> 'm zone_handler" where
  "external_view apex = \<lparr>zh_type = ZoneExternal, zh_axfr = AxfrDeny, zh_origin = apex\<rparr>"

lemmas view_defs = handler_view_def external_view_def override_zone_type_def rewrite_zone_type_def
  block_zone_type_def recovering_zone_type_def override_axfr_policy_def rewrite_axfr_policy_def
  block_axfr_policy_def recovering_axfr_policy_def

section \<open>The handlers of a loaded zone\<close>

lemma set_opt_handler: "h \<in> set (opt_handler f x) \<longleftrightarrow> (\<exists>a. x = Some a \<and> h = f a)"
  by (cases x) (auto simp: opt_handler_def)

lemma build_authorities_views:
  assumes "build_authorities names orders read_to_string origin forwarder compiled = Inr hs" and "h \<in> set hs"
  shows "h = H_Forwarder forwarder \<or> handler_view rg h = Some (external_view (lower_of_name names origin))"
proof -
  obtain oa where oa: "override_authority_of names orders read_to_string origin compiled = Inr oa"
    and hs: "hs = opt_handler H_Override oa @ opt_handler H_Rewrite (rewrite_authority_of names origin compiled)
       @ opt_handler H_Block (block_authority_of names origin compiled) @ [H_Forwarder forwarder]"
    using assms(1) by (auto simp: build_authorities_def rbind_Inr_iff)
  consider self where "oa = Some self" "h = H_Override self"
    | self where "rewrite_authority_of names origin compiled = Some self" "h = H_Rewrite self"
    | self where "block_authority_of names origin compiled = Some self" "h = H_Block self"
    | "h = H_Forwarder forwarder"
    using assms(2) unfolding hs by (auto simp: set_opt_handler)
  then show ?thesis
  proof cases
    case (1 self)
    then have "oa_origin self = lower_of_name names origin"
      using oa by (auto simp: override_authority_of_def override_authority_new_def rbind_Inr_iff split: if_splits)
    then show ?thesis using 1 by (simp add: view_defs)
  next
    case (2 self)
    then have "ra_origin self = lower_of_name names origin"
      by (auto simp: rewrite_authority_of_def split: if_splits)
    then show ?thesis using 2 by (simp add: view_defs)
  next
    case (3 self)
    then have "ba_origin self = lower_of_name names origin"
      by (auto simp: block_authority_of_def split: if_splits)
    then show ?thesis using 3 by (simp add: view_defs)
  qed simp
qed

lemma load_stores_chained:
  assumes "load_stores load chain stores hs rg = (Inr hs', rg')" and "h \<in> set hs'"
  shows "h \<in> set hs \<or> (\<exists>forwarder chained. chain forwarder = Inr chained \<and> h \<in> set chained)"
  using assms
proof (induction stores arbitrary: hs rg)
  case (Cons store stores)
  obtain forwarder rg1 chained where l: "load store rg = (Inr forwarder, rg1)" "chain forwarder = Inr chained"
    and r: "load_stores load chain stores (hs @ chained) rg1 = (Inr hs', rg')"
    using Cons.prems(1) by (auto split: prod.splits sum.splits)
  from Cons.IH [OF r Cons.prems(2)] show ?case
    using l by auto
qed simp

lemma zone_load_views:
  assumes "sys_zone_load sys d rules zone rg1 = (Inr hs, rg2)" and "h \<in> set hs"
    and "zone_name_parse (sys_net sys) (zone_name zone) = Inr origin"
  shows "(\<exists>forwarder. h = H_Forwarder forwarder)
     \<or> handler_view rg h = Some (external_view (lower_of_name (sys_names sys) origin))"
proof -
  have "load_stores (load_store (sys_net sys) (lower_of_name (sys_names sys)) (sys_key_text sys) origin)
      (\<lambda>forwarder. case rules of None \<Rightarrow> Inr [H_Forwarder forwarder]
        | Some compiled \<Rightarrow> map_err AuthorityLoadError
            (build_authorities (sys_names sys) (sys_maps sys) (read_file d) origin forwarder compiled))
      (zone_stores zone) [] rg1 = (Inr hs, rg2)"
    using assms(1,3) by (simp add: zone_load_def)
  from load_stores_chained [OF this assms(2)] obtain forwarder chained where
    c: "(case rules of None \<Rightarrow> Inr [H_Forwarder forwarder]
        | Some compiled \<Rightarrow> map_err AuthorityLoadError
            (build_authorities (sys_names sys) (sys_maps sys) (read_file d) origin forwarder compiled)) = Inr chained"
      "h \<in> set chained"
    by auto
  then show ?thesis
    using build_authorities_views [of "sys_names sys" "sys_maps sys" "read_file d" origin forwarder _ chained h rg]
    by (cases rules) (auto simp: map_err_def split: sum.splits)
qed

section \<open>Every handler belongs to its zone\<close>

text \<open>What the library documents of the texts of names: the presentation format writes no blank as it
  is, and it tells names apart, up to the case of their letters.\<close>

definition names_printed :: "('n \<Rightarrow> string) \<Rightarrow> ('n \<Rightarrow> 'm) \<Rightarrow> bool" where
  "names_printed name_text lower \<longleftrightarrow>
     (\<forall>n. CHR '' '' \<notin> set (name_text n)) \<and> (\<forall>n n'. name_text n = name_text n' \<longrightarrow> lower n = lower n')"

text \<open>The key of a forwarder then says for which name it was made: the name ends before the first
  blank, which is the one after the name of the type of the configuration.\<close>

lemma forwarder_key_name:
  assumes "CHR '' '' \<notin> set (dt_name texts origin)"
  shows "takeWhile (\<lambda>c. c \<noteq> CHR '' '') (forwarder_key texts origin config)
    = dt_name texts origin @ '':CompactForwardConfig''"
proof -
  have cut: "takeWhile (\<lambda>c. c \<noteq> CHR '' '') (xs @ CHR '' '' # rest) = xs" if "CHR '' '' \<notin> set xs" for xs rest
    using that by (induction xs) auto
  let ?fields = "''{ upstream_dns: '' @ list_debug (upstream_debug texts) (cf_upstream_dns config)
     @ '', bootstrap_ips: '' @ list_debug ip_addr_text (cf_bootstrap_ips config)
     @ '', options: '' @ (case cf_options config of
                           None \<Rightarrow> ''None'' | Some options \<Rightarrow> ''Some('' @ dt_options texts options @ '')'') @ '' }''"
  have "compact_config_debug texts config = ''CompactForwardConfig'' @ CHR '' '' # ?fields"
    by (simp only: compact_config_debug_def append_Cons append_Nil)
  then obtain rest where "compact_config_debug texts config = ''CompactForwardConfig'' @ CHR '' '' # rest" ..
  then have "forwarder_key texts origin config
      = (dt_name texts origin @ '':CompactForwardConfig'') @ CHR '' '' # rest"
    by (simp add: forwarder_key_def)
  moreover have "CHR '' '' \<notin> set (dt_name texts origin @ '':CompactForwardConfig'')" using assms by simp
  note cut [OF this, of rest]
  ultimately show ?thesis by (simp only:)
qed

lemma forwarder_key_origin:
  assumes "names_printed (dt_name texts) lower"
    and "forwarder_key texts origin config = forwarder_key texts origin' config'"
  shows "lower origin = lower origin'"
proof -
  have blank: "CHR '' '' \<notin> set (dt_name texts n)" for n using assms(1) by (simp add: names_printed_def)
  have "dt_name texts origin @ '':CompactForwardConfig'' = dt_name texts origin' @ '':CompactForwardConfig''"
    using forwarder_key_name [OF blank, of origin config] forwarder_key_name [OF blank, of origin' config']
    by (simp only: assms(2))
  then have "dt_name texts origin = dt_name texts origin'" by (simp only: append_same_eq)
  then show ?thesis using assms(1) unfolding names_printed_def by blast
qed

lemma shared_view:
  assumes "zone_forwarder sys zones apex rg i" and "registry_made sys rg"
    and "names_printed (dt_name (sys_texts sys)) (lower_of_name (sys_names sys))"
  shows "handler_view rg (H_Forwarder (SharedForwarder i)) = Some (external_view apex)"
proof -
  obtain origin config h where live: "rg_live rg i = Some (sys_key_text sys origin config, h)"
    and apex: "apex = lower_of_name (sys_names sys) origin"
    using assms(1) by (auto simp: zone_forwarder_def)
  obtain origin' config' where made: "made_forwarder sys origin' config' (sys_key_text sys origin config, h)"
    using assms(2) live unfolding registry_made_def by blast
  then have "rf_origin h = lower_of_name (sys_names sys) origin'"
    by (auto simp: made_forwarder_def recovering_new_def rbind_Inr_iff split: if_splits)
  moreover have "lower_of_name (sys_names sys) origin' = apex"
    unfolding apex
    by (rule forwarder_key_origin [OF assms(3), of _ config' _ config])
      (use made in \<open>simp add: made_forwarder_def sys_key_text_def\<close>)
  ultimately show ?thesis by (simp add: view_defs live)
qed

lemma catalog_views:
  assumes "catalog_stands sys rg catalog" and "registry_made sys rg" and "(apex, hs) \<in> set catalog" and "h \<in> set hs"
    and "names_printed (dt_name (sys_texts sys)) (lower_of_name (sys_names sys))"
  shows "(\<exists>f. h = H_Forwarder (OwnForwarder f)) \<or> handler_view rg h = Some (external_view apex)"
proof -
  obtain mode cfg d rg0 d' rg1 where b: "build_catalog sys mode cfg d rg0 = (Inr catalog, d', rg1)"
    and keyed: "catalog_keyed sys (set (cfg_zones cfg)) catalog rg"
    using assms(1) unfolding catalog_stands_def by blast
  obtain rules where l: "load_zones sys d' rules (cfg_zones cfg) [] rg0 = (Inr catalog, rg1)"
    using b by (auto simp: build_catalog_def split: prod.splits sum.splits)
  obtain zone origin rg2 rg3 where n: "zone_name_parse (sys_net sys) (zone_name zone) = Inr origin"
    and z: "sys_zone_load sys d' rules zone rg2 = (Inr hs, rg3)"
    and apex: "apex = lower_of_name (sys_names sys) origin"
    using load_zones_member [OF l assms(3)] by auto
  have "handler_view rg h = Some (external_view apex)" if shared: "h = H_Forwarder (SharedForwarder i)" for i
  proof -
    have "zone_forwarder sys (set (cfg_zones cfg)) apex rg i"
      using assms(3,4) keyed unfolding shared by (auto simp: catalog_keyed_def shared_refs_def)
    then show ?thesis unfolding shared by (rule shared_view [OF _ assms(2,5)])
  qed
  then show ?thesis
    using zone_load_views [OF z assms(4) n, of rg] unfolding apex by (metis forwarder_ref.exhaust)
qed

text \<open>
  Claim C16. Every handler belongs to its zone and transfers nothing. In a running server with its
  forwarders, under reloads and in any interleaving, each handler of a zone of the catalog in
  service, or of one a query still holds, says that the zone is external, refuses its transfer, and
  has the zone's name as its origin; only the plain forwarder of a store of type forward speaks for
  itself, being the library's. This holds for the forwarders that zones and reloads share, too: the
  registry's key keeps the forwarders of different names apart, given that the texts of names
  contain no blank and tell them apart (\<open>names_printed\<close>).
\<close>

theorem handlers_belong_to_zones:
  fixes lib :: "('n, 'm, 'rx, 'net, 'f, 'o, 'l, 'e) server_lib"
  assumes "async_run sys fails os validate d cr = (Started (sv, listeners), cr')"
    and "forwarding_start sys (main_start sv t) start" and "forwarding_reachable sys lib start s"
    and "server_lib_documented sys lib"
    and "names_printed (dt_name (sys_texts sys)) (lower_of_name (sys_names sys))"
    and "catalog = current_catalog (fw_serving s) \<or> (query, catalog) \<in> set (sg_inflight (fw_serving s))"
    and "(apex, hs) \<in> set catalog" and "h \<in> set hs"
  shows "(\<exists>f. h = H_Forwarder (OwnForwarder f))
     \<or> handler_view (fw_registry s) h = Some \<lparr>zh_type = ZoneExternal, zh_axfr = AxfrDeny, zh_origin = apex\<rparr>"
proof -
  have ok: "forwarding_ok sys lib start s" by (rule started_forwarding_ok [OF assms(1-4)])
  have "catalog_stands sys (fw_registry s) catalog"
    using assms(6) forwarding_okD(3,4) [OF ok] by blast
  from catalog_views [OF this forwarding_okD(2) [OF ok] assms(7,8,5)] show ?thesis
    by (simp add: external_view_def)
qed

lemma sample_names_printed: "names_printed (dt_name (sys_texts sample_system)) (lower_of_name (sys_names sample_system))"
  by (auto simp: names_printed_def sample_system_def sample_name_text_blank dest: sample_name_text_inj)

theorem handlers_belong_to_zones_witness:
  "\<exists>s :: sample_forwarding. map fst (current_catalog (fw_serving s)) = [''.'']
     \<and> handler_view (fw_registry s) (H_Forwarder (SharedForwarder 0)
           :: (string, string, rx_item list, ip_addr, forward_config forwarder_ref) handler)
         = Some \<lparr>zh_type = ZoneExternal, zh_axfr = AxfrDeny, zh_origin = ''.''\<rparr>"
proof -
  obtain sv listeners h fo ready and start :: sample_forwarding where
    s: "sample_boot = (Started (sv, listeners), snd sample_boot)"
      "sv_catalog sv = [(''.'', [h, H_Forwarder (SharedForwarder 0)])]"
      "forwarding_start sample_system (main_start sv 0) start"
    using sample_forwarding_start by metis
  have "current_catalog (fw_serving start) = [(''.'', [h, H_Forwarder (SharedForwarder 0)])]"
    using s(2,3) by (simp add: forwarding_start_def serving_start_def main_start_def current_catalog_def in_operation_def)
  moreover from this have "(\<exists>f. H_Forwarder (SharedForwarder 0)
        = (H_Forwarder (OwnForwarder f) :: (string, string, rx_item list, ip_addr, forward_config forwarder_ref) handler))
     \<or> handler_view (fw_registry start) (H_Forwarder (SharedForwarder 0)
           :: (string, string, rx_item list, ip_addr, forward_config forwarder_ref) handler)
         = Some \<lparr>zh_type = ZoneExternal, zh_axfr = AxfrDeny, zh_origin = ''.''\<rparr>"
    by (intro handlers_belong_to_zones [OF s(1,3) forwarding_reachable.boot sample_lib_documented sample_names_printed, where
          catalog = "current_catalog (fw_serving start)" and hs = "[h, H_Forwarder (SharedForwarder 0)]"])
      (simp_all add: sample_system_def)
  ultimately show ?thesis by (intro exI [of _ start]) simp
qed

end
