(* ===== verification/Query_Liveness.thy ===== *)
theory Query_Liveness
  imports Query_Sample
begin

text \<open>
  No query is stuck: in every reachable state of the running server a query in flight can be
  answered, by work of the forwarders its zone's handlers come to alone, without another query, a
  reload or a bootstrap lookup having to do anything first.
\<close>

section \<open>A lookup can end\<close>

definition workers_alive :: "('q, 'f, 'e, 'a) forwarder_state \<Rightarrow> bool" where
  "workers_alive fs \<longleftrightarrow> (\<forall>w. Recovered w \<in> set (fs_slots fs) \<longrightarrow> wk_phase w \<noteq> Stopped)"

lemma forwarder_worksI:
  "forwarder_step net timing origin options replies fs fs' \<Longrightarrow> asked_queries fs' = asked_queries fs \<Longrightarrow>
   fs_slots fs' = fs_slots fs \<Longrightarrow> workers_alive fs \<Longrightarrow> forwarder_works net timing origin options replies fs fs'"
  by (simp add: forwarder_works_def workers_alive_def)

lemma lookup_can_end:
  assumes "fs_lookups fs = lks @ lk # lks'" and "workers_alive fs" and "\<And>f q. \<exists>x. replies f q x"
  shows "\<exists>fs'. rtranclp (forwarder_works net timing origin options replies) fs fs'
     \<and> set (fs_answers fs) \<subseteq> set (fs_answers fs') \<and> (\<exists>fl\<in>set (fs_answers fs'). fl_query fl = lk_query lk)"
  using assms(1,2)
proof (induction "length (lk_pending lk)" arbitrary: fs lk)
  case 0
  let ?fs = "fs\<lparr>fs_lookups := lks @ lks',
     fs_answers := finish_lookup lk (lk_reports lk) [] (exhausted_answer (lk_negative lk)) # fs_answers fs\<rparr>"
  have "forwarder_works net timing origin options replies fs ?fs"
    by (rule forwarder_worksI [OF forwarder_step.tasks_exhausted [OF 0(2)]])
      (use 0 in \<open>simp_all add: asked_queries_def finish_lookup_def\<close>)
  then show ?case by (intro exI [of _ ?fs] conjI r_into_rtranclp) (auto simp: finish_lookup_def)
next
  case (Suc n)
  obtain task ts where pending: "lk_pending lk = task # ts" and n: "n = length ts"
    using Suc(2) by (cases "lk_pending lk") auto
  then have pending': "lk_pending lk = [] @ task # ts" by simp
  obtain x where x: "replies (ru_forwarder (snd task)) (lk_query lk) x" using assms(3) by blast
  obtain settled negative notify where
    p: "process_report (report_of (Some x) task) (lk_negative lk) = (settled, negative, notify)"
    by (metis prod_cases3)
  show ?case
  proof (cases settled)
    case None
    let ?lk = "lk\<lparr>lk_pending := ts, lk_negative := negative, lk_reports := lk_reports lk @ [report_of (Some x) task],
                  lk_woken := lk_woken lk @ (if notify then [fst task] else [])\<rparr>"
    let ?fs = "fs\<lparr>fs_lookups := lks @ ?lk # lks', fs_permits := fs_permits fs \<union> (if notify then {fst task} else {})\<rparr>"
    have "forwarder_works net timing origin options replies fs ?fs"
      by (rule forwarder_worksI [OF forwarder_step.task_reports [OF Suc(3) pending' _ refl p [unfolded None], simplified]])
        (use x Suc(3,4) in \<open>simp_all add: asked_queries_def\<close>)
    moreover have "workers_alive ?fs" using Suc(4) by (simp add: workers_alive_def)
    ultimately show ?thesis
      using Suc(1) [of ?lk ?fs] n by (auto intro: converse_rtranclp_into_rtranclp)
  next
    case (Some answer)
    let ?fs = "fs\<lparr>fs_lookups := lks @ lks',
       fs_answers := finish_lookup lk (lk_reports lk @ [report_of (Some x) task]) ts answer # fs_answers fs\<rparr>"
    have "forwarder_works net timing origin options replies fs ?fs"
      by (rule forwarder_worksI [OF forwarder_step.task_settles [OF Suc(3) pending' _ refl p [unfolded Some], simplified]])
        (use x Suc(3,4) in \<open>simp_all add: asked_queries_def finish_lookup_def\<close>)
    then show ?thesis by (intro exI [of _ ?fs] conjI r_into_rtranclp) (auto simp: finish_lookup_def)
  qed
qed

section \<open>The workers of the forwarders in the server are alive\<close>

definition all_alive :: "('n, 'm, 'rx, 'net, 'f, 'o, 'l, 'e) forwarding_state \<Rightarrow> bool" where
  "all_alive s \<longleftrightarrow> (\<forall>i fo. fw_running s i = Some fo \<longrightarrow> workers_alive (fo_state fo))"

lemma new_forwarder_alive: "new_forwarder sys entry fo \<Longrightarrow> workers_alive (fo_state fo)"
  by (auto simp: new_forwarder_def forwarder_start_def workers_alive_def worker_start_def split: option.splits)

lemma forwarders_follow_alive:
  assumes "forwarders_follow sys rg rg' running running'" and "running' i = Some fo"
    and "\<And>i fo. running i = Some fo \<Longrightarrow> workers_alive (fo_state fo)"
  shows "workers_alive (fo_state fo)"
  using assms(1) [unfolded forwarders_follow_def, THEN spec, of i] assms(2,3) new_forwarder_alive
  by (auto split: if_splits option.splits)

lemma forwarding_step_alive:
  assumes "forwarding_step sys lib s s'" and "all_alive s"
  shows "all_alive s'"
proof -
  note alive = assms(2) [unfolded all_alive_def, rule_format]
  have abandoned: "workers_alive (fo_state fo)" if "abandon keep (fw_running s) i = Some fo" for keep i fo
    using that alive by (auto simp: abandon_def drop_lookups_def workers_alive_def)
  show ?thesis
    using assms(1)
  proof cases
    case (main_loop ms running)
    then show ?thesis
      using forwarders_follow_alive [OF main_loop(4) _ alive] by (simp add: all_alive_def)
  next
    case (forwarder i fo fs)
    then show ?thesis using alive by (simp add: all_alive_def forwarder_works_def workers_alive_def)
  next
    case (asks_forwarder query catalog hs before i fo)
    then show ?thesis using alive by (simp add: all_alive_def lookup_begun_def workers_alive_def)
  qed (use alive abandoned in \<open>simp_all add: all_alive_def\<close>)
qed

lemma started_alive:
  assumes "forwarding_start sys ms start" and "forwarding_reachable sys lib start s"
  shows "all_alive s"
proof (rule forwarding_runs.invariant [OF assms(2)])
  show "all_alive start"
    using assms(1) forwarders_follow_alive [of sys registry_empty _ Map.empty "fw_running start"]
    by (auto simp: forwarding_start_def all_alive_def)
qed (rule forwarding_step_alive)

section \<open>A forwarder that was asked can answer\<close>

lemma forwarder_runs_on:
  assumes "rtranclp (forwarder_works (sys_net sys) recovery_timing_default (fo_origin fo) (fo_options fo) (query_replies lib))
      (fo_state fo) fs" and "fw_running s i = Some fo"
  shows "forwarding_reachable sys lib s (s\<lparr>fw_running := (fw_running s)(i \<mapsto> fo\<lparr>fo_state := fs\<rparr>)\<rparr>)"
  using assms(1)
proof induction
  case base
  have "s\<lparr>fw_running := (fw_running s)(i \<mapsto> fo\<lparr>fo_state := fo_state fo\<rparr>)\<rparr> = s"
    using assms(2) by (simp add: fun_upd_idem)
  then show ?case by (simp only: forwarding_reachable.boot)
next
  case (step fs fs')
  let ?s = "s\<lparr>fw_running := (fw_running s)(i \<mapsto> fo\<lparr>fo_state := fs\<rparr>)\<rparr>"
  have "forwarding_step sys lib ?s (?s\<lparr>fw_running := (fw_running ?s)(i \<mapsto> fo\<lparr>fo_state := fs\<rparr>\<lparr>fo_state := fs'\<rparr>)\<rparr>)"
    by (rule forwarding_step.forwarder) (use step(2) in simp_all)
  then have "forwarding_step sys lib ?s (s\<lparr>fw_running := (fw_running s)(i \<mapsto> fo\<lparr>fo_state := fs'\<rparr>)\<rparr>)" by simp
  with step(3) show ?case by (rule forwarding_reachable.step)
qed

text \<open>Answers of forwarders that are known stay known.\<close>

definition answers_kept where
  "answers_kept lib s s' \<longleftrightarrow>
     (\<forall>q f x. upstream_answer lib (fw_running s) q f x \<longrightarrow> upstream_answer lib (fw_running s') q f x)"

lemma answers_keptI:
  assumes "fw_running s i = Some fo" and "fw_running s' = (fw_running s)(i \<mapsto> fo')"
    and "set (fs_answers (fo_state fo)) \<subseteq> set (fs_answers (fo_state fo'))"
  shows "answers_kept lib s s'"
  using assms by (auto simp: answers_kept_def upstream_answer_def split: forwarder_ref.splits)

lemma answers_kept_trans: "answers_kept lib s s' \<Longrightarrow> answers_kept lib s' s'' \<Longrightarrow> answers_kept lib s s''"
  by (simp add: answers_kept_def)

lemma forwarder_can_answer:
  assumes "fw_running s i = Some fo" and "query \<in># asked_queries (fo_state fo)" and "all_alive s"
    and "\<And>f q. \<exists>x. sl_replies lib f q x"
  shows "\<exists>s' x. forwarding_reachable sys lib s s' \<and> fw_serving s' = fw_serving s \<and> fw_asked s' = fw_asked s \<and> answers_kept lib s s'
     \<and> upstream_answer lib (fw_running s') query (SharedForwarder i) x"
proof (cases "query \<in> fl_query ` set (fs_answers (fo_state fo))")
  case True
  then show ?thesis
    using assms(1) by (intro exI [of _ s]) (auto simp: answers_kept_def upstream_answer_def forwarding_reachable.boot)
next
  case False
  then obtain lk where "lk \<in> set (fs_lookups (fo_state fo))" and q: "lk_query lk = query"
    using assms(2) by (auto simp: asked_queries_def)
  then obtain lks lks' where lks: "fs_lookups (fo_state fo) = lks @ lk # lks'" by (meson split_list)
  have "workers_alive (fo_state fo)" using assms(1,3) by (simp add: all_alive_def)
  from lookup_can_end [OF lks this, of "query_replies lib" "sys_net sys" recovery_timing_default "fo_origin fo" "fo_options fo"]
  obtain fs fl where fs: "rtranclp (forwarder_works (sys_net sys) recovery_timing_default (fo_origin fo) (fo_options fo)
      (query_replies lib)) (fo_state fo) fs"
    and kept: "set (fs_answers (fo_state fo)) \<subseteq> set (fs_answers fs)"
    and fl: "fl \<in> set (fs_answers fs)" "fl_query fl = query"
    using assms(4) q by (auto simp: query_replies_def)
  let ?s = "s\<lparr>fw_running := (fw_running s)(i \<mapsto> fo\<lparr>fo_state := fs\<rparr>)\<rparr>"
  have "answers_kept lib s ?s" by (rule answers_keptI [OF assms(1), where fo' = "fo\<lparr>fo_state := fs\<rparr>"]) (use kept in simp_all)
  moreover have "upstream_answer lib (fw_running ?s) query (SharedForwarder i) (fl_answer fl)"
    using fl by (auto simp: upstream_answer_def)
  ultimately show ?thesis
    using forwarder_runs_on [OF fs assms(1)] by (intro exI [of _ ?s] exI [of _ "fl_answer fl"]) simp
qed

section \<open>A query can be answered\<close>

lemma asked_forwarder_can_answer:
  assumes "in_operation (fw_serving s)" and "(query, catalog) \<in> set (sg_inflight (fw_serving s))"
    and "sl_find lib catalog (fst (snd query)) = Some hs"
    and "fw_asked s (fst query) = before @ [H_Forwarder f]"
    and "\<And>i. f = SharedForwarder i \<Longrightarrow> fw_running s i \<noteq> None"
    and "all_alive s" and "\<And>f q. \<exists>x. sl_replies lib f q x"
  shows "\<exists>s' x. forwarding_reachable sys lib s s' \<and> fw_serving s' = fw_serving s \<and> fw_asked s' = fw_asked s
     \<and> answers_kept lib s s' \<and> upstream_answer lib (fw_running s') query f x"
proof (cases f)
  case (OwnForwarder g)
  obtain x where "sl_replies lib g (snd query) x" using assms(7) by blast
  then show ?thesis
    by (intro exI [of _ s] exI [of _ x])
      (simp add: OwnForwarder upstream_answer_def answers_kept_def forwarding_reachable.boot)
next
  case (SharedForwarder i)
  obtain fo where fo: "fw_running s i = Some fo" using assms(5) SharedForwarder by blast
  show ?thesis
  proof (cases "query \<in># asked_queries (fo_state fo)")
    case True
    from forwarder_can_answer [OF fo True assms(6,7), of sys] show ?thesis unfolding SharedForwarder .
  next
    case False
    let ?s = "s\<lparr>fw_running := (fw_running s)(i \<mapsto> lookup_begun query fo)\<rparr>"
    have step: "forwarding_step sys lib s ?s"
      by (rule forwarding_step.asks_forwarder [OF assms(1-4) [unfolded SharedForwarder] fo False])
    have kept: "answers_kept lib s ?s"
      by (rule answers_keptI [OF fo, where fo' = "lookup_begun query fo"]) (simp_all add: lookup_begun_def)
    have "fw_running ?s i = Some (lookup_begun query fo)" by simp
    from forwarder_can_answer [OF this _ forwarding_step_alive [OF step assms(6)] assms(7), of query sys]
    obtain s' x where "forwarding_reachable sys lib ?s s'" "fw_serving s' = fw_serving s" "fw_asked s' = fw_asked s" "answers_kept lib ?s s'"
      "upstream_answer lib (fw_running s') query (SharedForwarder i) x"
      by (auto simp: asked_queries_simps(3))
    then show ?thesis
      using forwarding_runs.run_trans [OF forwarding_runs.run_one [OF step]] answers_kept_trans [OF kept]
      unfolding SharedForwarder by blast
  qed
qed

lemma ask_changed:
  "h \<noteq> H_Forwarder f \<Longrightarrow> sys_ask sys (forward(f := y)) h q = sys_ask sys forward h q"
  by (cases h) (auto simp: ask_handler_def split: prod.split)

lemma answers_known_extend:
  assumes "answers_known (upstream_answer lib (fw_running s)) query forward hs" and "answers_kept lib s s'"
    and "upstream_answer lib (fw_running s') query f x" and "H_Forwarder f \<notin> set hs"
  shows "answers_known (upstream_answer lib (fw_running s')) query (forward(f := \<lambda>_ _ _. x)) (hs @ [H_Forwarder f])"
proof -
  have "upstream_answer lib (fw_running s') query g (forward g (fst (snd query)) (fst (snd (snd query))) (snd (snd (snd query))))"
    if "H_Forwarder g \<in> set hs" for g
    using assms(1,2) that unfolding answers_known_def answers_kept_def by blast
  then show ?thesis using assms(3,4) by (auto simp: answers_known_def)
qed

text \<open>The answer of the handler asked last can become known.\<close>

lemma last_can_answer:
  fixes lib :: "('n, 'm, 'rx, 'net, 'f, 'o, 'l, 'e) server_lib"
  assumes "in_operation (fw_serving s)" and "(query, catalog) \<in> set (sg_inflight (fw_serving s))"
    and "sl_find lib catalog (fst (snd query)) = Some hs"
    and "asked_ok sys lib reads s query catalog"
    and "\<And>i. H_Forwarder (SharedForwarder i) \<in> set hs \<Longrightarrow> fw_running s i \<noteq> None"
    and "all_alive s" and "\<And>f q. \<exists>x. sl_replies lib f q x"
  shows "\<exists>s'. \<exists>forward :: 'f forwarder_ref \<Rightarrow> 'm \<Rightarrow> record_type \<Rightarrow> 'o \<Rightarrow> ('n, 'o, 'l, 'e) lookup_result.
     forwarding_reachable sys lib s s' \<and> fw_serving s' = fw_serving s \<and> fw_asked s' = fw_asked s
     \<and> (\<forall>h\<in>set (butlast (fw_asked s (fst query))). sys_ask sys forward h (snd query) = Skip)
     \<and> answers_known (upstream_answer lib (fw_running s')) query forward (fw_asked s (fst query))"
proof -
  note ok = asked_okD [OF assms(4,3) refl]
  obtain forward :: "'f forwarder_ref \<Rightarrow> 'm \<Rightarrow> record_type \<Rightarrow> 'o \<Rightarrow> ('n, 'o, 'l, 'e) lookup_result" where
    skip: "\<forall>h\<in>set (butlast (fw_asked s (fst query))). sys_ask sys forward h (snd query) = Skip"
    and known: "answers_known (upstream_answer lib (fw_running s)) query forward (butlast (fw_asked s (fst query)))"
    using ok(3) by (auto simp: asked_undecided_def)
  show ?thesis
  proof (cases "\<exists>before f. fw_asked s (fst query) = before @ [H_Forwarder f] \<and> H_Forwarder f \<notin> set before")
    case True
    then obtain before f where f: "fw_asked s (fst query) = before @ [H_Forwarder f]" "H_Forwarder f \<notin> set before"
      by blast
    have "fw_running s i \<noteq> None" if "f = SharedForwarder i" for i
    proof (rule assms(5))
      have "i \<in> shared_refs (fw_asked s (fst query))" using f(1) that by (simp add: shared_refs_def)
      then show "H_Forwarder (SharedForwarder i) \<in> set hs"
        using chain_version_refs [OF ok(2)] by (auto simp: shared_refs_def dest: in_set_takeD)
    qed
    from asked_forwarder_can_answer [OF assms(1-3) f(1) this assms(6,7), of sys] obtain s' x where
      s': "forwarding_reachable sys lib s s'" "fw_serving s' = fw_serving s" "fw_asked s' = fw_asked s"
        "answers_kept lib s s'" "upstream_answer lib (fw_running s') query f x" by blast
    have "answers_known (upstream_answer lib (fw_running s')) query (forward(f := \<lambda>_ _ _. x)) (before @ [H_Forwarder f])"
      by (rule answers_known_extend [OF _ s'(4,5) f(2)]) (use known f(1) in simp)
    moreover have "sys_ask sys (forward(f := \<lambda>_ _ _. x)) h (snd query) = Skip" if "h \<in> set before" for h
      using skip that f ask_changed [of h f] by (metis butlast_snoc)
    ultimately show ?thesis
      using s'(1-3) f(1) by (intro exI [of _ s'] exI [of _ "forward(f := \<lambda>_ _ _. x)"]) simp
  next
    case False
    have "answers_known (upstream_answer lib (fw_running s)) query forward (fw_asked s (fst query))"
    proof (cases "fw_asked s (fst query)" rule: rev_cases)
      case (snoc before h)
      then show ?thesis using known False by (auto simp: answers_known_def)
    qed (simp add: answers_known_def)
    then show ?thesis using skip forwarding_reachable.boot by blast
  qed
qed

text \<open>Along the chain, handler by handler.\<close>

lemma chain_can_be_answered:
  fixes lib :: "('n, 'm, 'rx, 'net, 'f, 'o, 'l, 'e) server_lib"
  assumes "forwarding_reachable sys lib start s" and "in_operation (fw_serving s)"
    and "(query, catalog) \<in> set (sg_inflight (fw_serving s))"
    and "sl_find lib catalog (fst (snd query)) = Some hs"
    and "\<And>s. forwarding_reachable sys lib start s \<Longrightarrow> (query, catalog) \<in> set (sg_inflight (fw_serving s)) \<Longrightarrow>
           asked_ok sys lib (disk_reads sys lib start s) s query catalog"
    and "\<And>s i. forwarding_reachable sys lib start s \<Longrightarrow> (query, catalog) \<in> set (sg_inflight (fw_serving s)) \<Longrightarrow>
           H_Forwarder (SharedForwarder i) \<in> set hs \<Longrightarrow> fw_running s i \<noteq> None"
    and "\<And>s. forwarding_reachable sys lib start s \<Longrightarrow> all_alive s"
    and "\<And>f q. \<exists>x. sl_replies lib f q x"
  shows "\<exists>s'. \<exists>forward :: 'f forwarder_ref \<Rightarrow> 'm \<Rightarrow> record_type \<Rightarrow> 'o \<Rightarrow> ('n, 'o, 'l, 'e) lookup_result. \<exists>asked.
     forwarding_reachable sys lib s s' \<and> fw_serving s' = fw_serving s \<and> fw_asked s' (fst query) = asked
     \<and> asked_handlers (sys_ask sys forward) (asked @ drop (length asked) hs) (snd query) = asked
     \<and> answers_known (upstream_answer lib (fw_running s')) query forward asked"
  using assms(1-3)
proof (induction "length hs - length (fw_asked s (fst query))" arbitrary: s rule: less_induct)
  case less
  note ok = assms(5) [OF less(2,4)]
  let ?asked = "fw_asked s (fst query)"
  from last_can_answer [OF less(3,4) assms(4) ok assms(6) [OF less(2,4)] assms(7) [OF less(2)] assms(8)]
  obtain s1 and forward :: "'f forwarder_ref \<Rightarrow> 'm \<Rightarrow> record_type \<Rightarrow> 'o \<Rightarrow> ('n, 'o, 'l, 'e) lookup_result" where
    s1: "forwarding_reachable sys lib s s1" "fw_serving s1 = fw_serving s" "fw_asked s1 = fw_asked s"
    and skip: "\<forall>h\<in>set (butlast ?asked). sys_ask sys forward h (snd query) = Skip"
    and known: "answers_known (upstream_answer lib (fw_running s1)) query forward ?asked"
    by blast
  have here: ?case if "asked_handlers (sys_ask sys forward) (?asked @ drop (length ?asked) hs) (snd query) = ?asked"
    using s1 known that by (intro exI [of _ s1] exI [of _ forward] exI [of _ ?asked]) simp
  show ?case
  proof (cases "\<forall>h\<in>set ?asked. sys_ask sys forward h (snd query) = Skip")
    case all: True
    show ?thesis
    proof (cases "length ?asked < length hs")
      case True
      let ?s = "s1\<lparr>fw_asked := (fw_asked s1)(fst query :=
          ?asked @ [fw_views s1 (fw_taken s1 (fst query)) hs ! length ?asked])\<rparr>"
      have step: "forwarding_step sys lib s1 ?s"
        by (rule forwarding_step.asks [OF _ _ assms(4) _ True _ known]) (use less(3,4) s1 all in simp_all)
      have run: "forwarding_reachable sys lib s ?s" by (rule forwarding_runs.run_step [OF s1(1) step])
      have "\<exists>s'. \<exists>forward :: 'f forwarder_ref \<Rightarrow> 'm \<Rightarrow> record_type \<Rightarrow> 'o \<Rightarrow> ('n, 'o, 'l, 'e) lookup_result. \<exists>asked.
          forwarding_reachable sys lib ?s s' \<and> fw_serving s' = fw_serving ?s \<and> fw_asked s' (fst query) = asked
          \<and> asked_handlers (sys_ask sys forward) (asked @ drop (length asked) hs) (snd query) = asked
          \<and> answers_known (upstream_answer lib (fw_running s')) query forward asked"
        by (rule less(1)) (use True less(3,4) s1(2) forwarding_runs.run_trans [OF less(2) run] in simp_all)
      then show ?thesis using forwarding_runs.run_trans [OF run] s1(2) by fastforce
    next
      case False
      then have "drop (length ?asked) hs = []" by simp
      then show ?thesis
        using here asked_handlers_append [of ?asked "sys_ask sys forward" "snd query" "[]"] all by simp
    qed
  next
    case False
    then obtain before h where h: "?asked = before @ [h]" "sys_ask sys forward h (snd query) \<noteq> Skip"
      using skip by (cases ?asked rule: rev_cases) auto
    then show ?thesis
      using here skip asked_handlers_append [of before "sys_ask sys forward" "snd query" "h # drop (length ?asked) hs"] by simp
  qed
qed

text \<open>The forwarders of the zone of a query in flight are alive.\<close>

lemma query_forwarders_live:
  assumes "async_run sys fails os validate d cr = (Started (sv, listeners), cr')"
    and "forwarding_start sys (main_start sv t) start" and "forwarding_reachable sys lib start s"
    and "server_lib_documented sys lib" and "(query, catalog) \<in> set (sg_inflight (fw_serving s))"
    and "sl_find lib catalog (fst (snd query)) = Some hs" and "H_Forwarder (SharedForwarder i) \<in> set hs"
  shows "fw_running s i \<noteq> None"
proof -
  have ok: "forwarding_ok sys lib start s" by (rule started_forwarding_ok [OF assms(1-4)])
  have "serving_reachable sys (lib_answers lib) (serving_start (main_start sv t)) (fw_serving s)"
    using forwarding_serving.run_simulates [OF assms(3)] assms(2) by (simp add: forwarding_start_def)
  from started_serving_ok(1) [OF assms(1) this] have "refs_live (in_use (fw_serving s)) (fw_registry s)"
    by (simp add: serving_live_def)
  moreover obtain apex where "(apex, hs) \<in> set catalog"
    using assms(4,6) unfolding server_lib_documented_def by fastforce
  then have "i \<in> in_use (fw_serving s)"
    using assms(5,7) by (force simp: in_use_def catalog_refs_def shared_refs_def)
  ultimately obtain entry where "rg_live (fw_registry s) i = Some entry" by (auto simp: refs_live_def)
  from running_okD(2) [OF forwarding_okD(1) [OF ok] this] show ?thesis by auto
qed

text \<open>
  Claim C6. No query is stuck. Take a running server in any state it reaches, while it serves or
  shuts down, and a query in flight. If its upstream servers answer or fail after some time, the
  server can always go on to answer this query, under the catalog it arrived under, without the main
  loop, the workers or any other query having to do anything: no reload, outage or lookup of another
  query that is still running holds it up.
\<close>

theorem no_query_is_stuck:
  fixes lib :: "('n, 'm, 'rx, 'net, 'f, 'o, 'l, 'e) server_lib"
  assumes "async_run sys fails os validate d cr = (Started (sv, listeners), cr')"
    and "forwarding_start sys (main_start sv t) start" and "forwarding_reachable sys lib start s"
    and "server_lib_documented sys lib" and "\<And>f q. \<exists>x. sl_replies lib f q x"
    and "in_operation (fw_serving s)" and "(query, catalog) \<in> set (sg_inflight (fw_serving s))"
  shows "\<exists>s' answer before after. forwarding_reachable sys lib s s'
     \<and> sg_inflight (fw_serving s) = before @ (query, catalog) # after
     \<and> fw_serving s' = (fw_serving s)\<lparr>sg_inflight := before @ after,
          sg_answered := (query, catalog, answer) # sg_answered (fw_serving s)\<rparr>"
proof -
  obtain before after where q: "sg_inflight (fw_serving s) = before @ (query, catalog) # after"
    using assms(7) by (meson split_list)
  show ?thesis
  proof (cases "sl_find lib catalog (fst (snd query))")
    case None
    from forwarding_runs.run_one [OF forwarding_step.refuses [OF assms(6) q None], of sys] q
    show ?thesis by (intro exI conjI) (assumption, simp_all)
  next
    case (Some hs)
    have ok: "asked_ok sys lib (disk_reads sys lib start s) s query catalog"
      if "forwarding_reachable sys lib start s" "(query, catalog) \<in> set (sg_inflight (fw_serving s))" for s
      using forwarding_okD(9) [OF started_forwarding_ok [OF assms(1,2) that(1) assms(4)] that(2)] .
    have live: "fw_running s i \<noteq> None"
      if "forwarding_reachable sys lib start s" "(query, catalog) \<in> set (sg_inflight (fw_serving s))"
        "H_Forwarder (SharedForwarder i) \<in> set hs" for s i
      by (rule query_forwarders_live [OF assms(1,2) that(1) assms(4) that(2) Some that(3)])
    obtain s1 forward asked where s1: "forwarding_reachable sys lib s s1" "fw_serving s1 = fw_serving s"
      "fw_asked s1 (fst query) = asked"
      "asked_handlers (sys_ask sys forward) (asked @ drop (length asked) hs) (snd query) = asked"
      "answers_known (upstream_answer lib (fw_running s1)) query forward asked"
      using chain_can_be_answered [OF assms(3,6,7) Some ok live started_alive [OF assms(2), where lib = lib] assms(5)]
      by blast
    have "forwarding_step sys lib s1 (s1\<lparr>fw_serving := (fw_serving s1)\<lparr>sg_inflight := before @ after,
        sg_answered := (query, catalog, Some (sl_walk lib forward (asked @ drop (length asked) hs) (snd query)))
          # sg_answered (fw_serving s1)\<rparr>,
        fw_running := abandon (\<lambda>query'. query' \<noteq> query) (fw_running s1)\<rparr>)"
      by (rule forwarding_step.answers [OF _ _ Some s1(3-5)]) (simp_all add: s1(2) q assms(6))
    from forwarding_runs.run_step [OF s1(1) this] q show ?thesis
      by (intro exI conjI) (assumption, simp_all add: s1(2))
  qed
qed

theorem no_query_is_stuck_witness:
  "\<exists>(s :: sample_forwarding) catalog s' answer. sg_inflight (fw_serving s) = [(sample_query, catalog)]
     \<and> forwarding_reachable sample_system sample_lib s s'
     \<and> sg_inflight (fw_serving s') = [] \<and> (sample_query, catalog, answer) \<in> set (sg_answered (fw_serving s'))"
proof -
  obtain sv listeners and start :: sample_forwarding where
    s: "sample_boot = (Started (sv, listeners), snd sample_boot)"
      "forwarding_start sample_system (main_start sv 0) start"
    using sample_forwarding_start by metis
  have start: "fw_serving start = serving_start (main_start sv 0)" "fw_next start = 0"
    using s(2) by (simp_all add: forwarding_start_def)
  have "forwarding_step sample_system sample_lib start (query_arrived start)"
    unfolding query_arrived_def by (rule forwarding_step.arrives) (simp add: start serving_start_def main_start_def in_operation_def)
  then have run: "forwarding_reachable sample_system sample_lib start (query_arrived start)"
    by (rule forwarding_runs.run_one)
  have arrived: "sg_inflight (fw_serving (query_arrived start)) = [(sample_query, current_catalog (fw_serving start))]"
    "in_operation (fw_serving (query_arrived start))"
    by (simp_all add: query_arrived_def catalog_request_def start serving_start_def main_start_def in_operation_def)
  have replies: "\<exists>x. sl_replies sample_lib f q x" for f q by (simp add: sample_lib_def)
  from no_query_is_stuck [OF s run sample_lib_documented replies arrived(2), of sample_query "current_catalog (fw_serving start)"]
  obtain s' answer before after where s': "forwarding_reachable sample_system sample_lib (query_arrived start) s'"
    "[(sample_query, current_catalog (fw_serving start))] = before @ (sample_query, current_catalog (fw_serving start)) # after"
    "fw_serving s' = (fw_serving (query_arrived start))\<lparr>sg_inflight := before @ after,
       sg_answered := (sample_query, current_catalog (fw_serving start), answer) # sg_answered (fw_serving (query_arrived start))\<rparr>"
    unfolding arrived(1) by auto
  have "before @ after = []" using s'(2) by (cases before) auto
  with s'(1,3) arrived(1) show ?thesis
    by (intro exI [of _ "query_arrived start"] exI [of _ "current_catalog (fw_serving start)"] exI [of _ s'] exI [of _ answer])
      simp
qed

end
