(* ===== verification/Metrics.thy ===== *)
theory Metrics
  imports Startup
begin

text \<open>
  The metrics of the server, built with the features \<^verbatim>\<open>prometheus-metrics\<close> and \<^verbatim>\<open>metrics\<close>: the HTTP
  endpoint with its accept loop and its graceful shutdown (src/prometheus_server.rs), its start
  (\<^verbatim>\<open>async_run\<close>) and the gauges and counters of the configuration (\<^verbatim>\<open>ConfigMetrics\<close>, both in
  src/bin/astra-dns.rs). The recorder and the HTTP library are parameters.
\<close>

section \<open>The response to a scrape\<close>

text \<open>\<open>build\<close> is \<^verbatim>\<open>Response::builder\<close> with its headers, given the body, and \<open>rendering\<close> what
  \<^verbatim>\<open>PrometheusHandle::render\<close> makes of the recorder behind the handle.\<close>

definition prometheus_call ::
    "((string \<times> string) list \<Rightarrow> string \<Rightarrow> 'e + 'resp) \<Rightarrow> ('h \<Rightarrow> string) \<Rightarrow> 'h \<Rightarrow> 'e + 'resp" where
  "prometheus_call build rendering handle =
     (case build [(''content-type'', ''text/plain; version=0.0.4'')] (rendering handle) of
        Inr response \<Rightarrow> Inr response
      | Inl e \<Rightarrow> Inl e)"

section \<open>The server task\<close>

datatype prometheus_phase = Accepting | ShuttingDown | Done

text \<open>\<open>ps_handle\<close> is the handle of the service, with what its recorder holds now; \<open>ps_open\<close> are the
  connections that \<^verbatim>\<open>GracefulShutdown\<close> watches; \<open>ps_responses\<close> what was sent on which of them, with
  the recorder as it was when the request came.\<close>

record ('h, 'e, 'resp) prometheus_server =
  ps_phase :: prometheus_phase
  ps_listening :: bool
  ps_cancelled :: bool
  ps_open :: "nat set"
  ps_next :: nat
  ps_handle :: 'h
  ps_responses :: "(nat \<times> 'h \<times> ('e + 'resp)) list"

definition prometheus_new :: "string + 'h \<Rightarrow> string + ('h, 'e, 'resp) prometheus_server" where
  "prometheus_new recorder =
     (case recorder of
        Inl e \<Rightarrow> Inl (''failed to install prometheus endpoint '' @ e)
      | Inr handle \<Rightarrow>
          Inr \<lparr>ps_phase = Accepting, ps_listening = True, ps_cancelled = False, ps_open = {},
               ps_next = 0, ps_handle = handle, ps_responses = []\<rparr>)"

text \<open>\<open>accept_failed\<close> is the branch that only logs. \<open>stop\<close> cancels the token and then waits for the
  task to be done. A connection may end at any time, well or badly, and the program records metrics
  at any time. \<open>drained\<close> tells when the future of \<^verbatim>\<open>GracefulShutdown::shutdown\<close> completes, given the
  watched connections that are open.\<close>

inductive prometheus_step ::
    "((string \<times> string) list \<Rightarrow> string \<Rightarrow> 'e + 'resp) \<Rightarrow> ('h \<Rightarrow> string) \<Rightarrow> (nat set \<Rightarrow> bool)
     \<Rightarrow> ('h, 'e, 'resp) prometheus_server \<Rightarrow> ('h, 'e, 'resp) prometheus_server \<Rightarrow> bool"
  for build rendering drained where
  accepted: "ps_phase s = Accepting \<Longrightarrow>
     prometheus_step build rendering drained s
       (s\<lparr>ps_open := insert (ps_next s) (ps_open s), ps_next := Suc (ps_next s)\<rparr>)"
| accept_failed: "ps_phase s = Accepting \<Longrightarrow> prometheus_step build rendering drained s s"
| recorded: "prometheus_step build rendering drained s (s\<lparr>ps_handle := handle\<rparr>)"
| scraped: "i \<in> ps_open s \<Longrightarrow>
     prometheus_step build rendering drained s
       (s\<lparr>ps_responses := (i, ps_handle s, prometheus_call build rendering (ps_handle s)) # ps_responses s\<rparr>)"
| connection_ends: "i \<in> ps_open s \<Longrightarrow> prometheus_step build rendering drained s (s\<lparr>ps_open := ps_open s - {i}\<rparr>)"
| stop: "prometheus_step build rendering drained s (s\<lparr>ps_cancelled := True\<rparr>)"
| leaves_loop: "ps_phase s = Accepting \<Longrightarrow> ps_cancelled s \<Longrightarrow>
     prometheus_step build rendering drained s (s\<lparr>ps_phase := ShuttingDown, ps_listening := False\<rparr>)"
| shut_down: "ps_phase s = ShuttingDown \<Longrightarrow> drained (ps_open s) \<Longrightarrow>
     prometheus_step build rendering drained s (s\<lparr>ps_phase := Done\<rparr>)"

inductive prometheus_reachable ::
    "((string \<times> string) list \<Rightarrow> string \<Rightarrow> 'e + 'resp) \<Rightarrow> ('h \<Rightarrow> string) \<Rightarrow> (nat set \<Rightarrow> bool)
     \<Rightarrow> ('h, 'e, 'resp) prometheus_server \<Rightarrow> ('h, 'e, 'resp) prometheus_server \<Rightarrow> bool"
  for build rendering drained start where
  boot: "prometheus_reachable build rendering drained start start"
| step: "prometheus_reachable build rendering drained start s \<Longrightarrow> prometheus_step build rendering drained s s' \<Longrightarrow>
     prometheus_reachable build rendering drained start s'"

inductive_cases prometheus_stepE: "prometheus_step build rendering drained s s'"

interpretation prometheus_runs: run_system "prometheus_step build rendering drained" "prometheus_reachable build rendering drained"
  for build rendering drained
  by unfold_locales (fact prometheus_reachable.boot, fact prometheus_reachable.step, erule prometheus_reachable.induct, auto)

text \<open>What the library documents: the shutdown completes once all watched connections have ended.\<close>

definition graceful_documented :: "(nat set \<Rightarrow> bool) \<Rightarrow> bool" where
  "graceful_documented drained \<longleftrightarrow> (\<forall>conns. finite conns \<longrightarrow> (drained conns \<longleftrightarrow> conns = {}))"

section \<open>Starting it\<close>

record prometheus_options =
  po_listen_addr :: "socket_addr option"
  po_disable :: "bool option"

text \<open>The command line's options come before those of the configuration file. \<open>None\<close> if the
  endpoint is disabled.\<close>

definition prometheus_listen_addr :: "prometheus_options \<Rightarrow> socket_addr" where
  "prometheus_listen_addr cfg = unwrap_or (sock_new (V4 0x7F000001) 9000) (po_listen_addr cfg)"

definition disable_prometheus :: "prometheus_options \<Rightarrow> bool" where
  "disable_prometheus cfg = unwrap_or False (po_disable cfg)"

datatype prometheus_error =
    PrometheusBindFailed socket_addr io_error
  | PrometheusLocalAddrFailed io_error
  | PrometheusEndpointFailed string

definition start_prometheus ::
    "(sock_call \<Rightarrow> io_error option) \<Rightarrow> string + 'h \<Rightarrow> socket_addr option \<Rightarrow> bool \<Rightarrow> prometheus_options
     \<Rightarrow> prometheus_error + ('h, 'e, 'resp) prometheus_server option" where
  "start_prometheus fails recorder arg_addr arg_disable cfg =
     (if \<not> arg_disable \<and> \<not> disable_prometheus cfg then
        let addr = unwrap_or (prometheus_listen_addr cfg) arg_addr
        in (case run_calls fails (build_tcp_listener (sock_ip addr) (sock_port addr)) of
              Inl e \<Rightarrow> Inl (PrometheusBindFailed addr e)
            | Inr _ \<Rightarrow>
                rbind (map_err PrometheusLocalAddrFailed (run_calls fails [GetLocalAddr Stream addr])) (\<lambda>_.
                rbind (map_err PrometheusEndpointFailed (prometheus_new recorder)) (\<lambda>server. Inr (Some server))))
      else Inr None)"

section \<open>Metrics of the configuration\<close>

definition bool_text :: "bool \<Rightarrow> string" where
  "bool_text b = (if b then ''true'' else ''false'')"

text \<open>The labels of the gauge \<^verbatim>\<open>hickory_config_info\<close>.\<close>

definition config_info_labels :: "server_config \<Rightarrow> (string \<times> string) list" where
  "config_info_labels cfg =
     [(''disable_https'', bool_text (disable_https cfg)), (''disable_quic'', bool_text (disable_quic cfg)),
      (''disable_tcp'', bool_text (disable_tcp cfg)), (''disable_tls'', bool_text (disable_tls cfg)),
      (''disable_udp'', bool_text (disable_udp cfg)), (''zones'', dec_str (int (length (cfg_zones cfg))))]"

text \<open>\<^verbatim>\<open>increment_zone_metrics\<close>, on the value of the counter \<^verbatim>\<open>zones_forwarder\<close>.\<close>

definition increment_zone_metrics :: "zone_config \<Rightarrow> nat \<Rightarrow> nat" where
  "increment_zone_metrics zone counter =
     fold (\<lambda>store n. case store of ForwardStore _ \<Rightarrow> n + 1 | _ \<Rightarrow> n) (zone_stores zone) counter"

lemma increment_zone_metrics_count:
  "increment_zone_metrics zone n = n + length (filter (\<lambda>s. \<exists>c. s = ForwardStore c) (zone_stores zone))"
proof -
  have "fold (\<lambda>store n. case store of ForwardStore _ \<Rightarrow> n + 1 | _ \<Rightarrow> n) ss n
      = n + length (filter (\<lambda>s. \<exists>c. s = ForwardStore c) ss)" for ss n
    by (induction ss arbitrary: n) (auto split: external_store_config.splits)
  then show ?thesis by (simp add: increment_zone_metrics_def)
qed

text \<open>The zone made of \<^verbatim>\<open>dns.upstream_dns\<close> is not counted.\<close>

lemma compact_zone_not_counted:
  "root_forward net dns = Inr zone \<Longrightarrow> increment_zone_metrics zone n = n"
  by (auto simp: root_forward_def rbind_Inr_iff increment_zone_metrics_def)

section \<open>Graceful shutdown\<close>

definition prometheus_ok ::
    "((string \<times> string) list \<Rightarrow> string \<Rightarrow> 'e + 'resp) \<Rightarrow> ('h \<Rightarrow> string)
     \<Rightarrow> ('h, 'e, 'resp) prometheus_server \<Rightarrow> bool" where
  "prometheus_ok build rendering s \<longleftrightarrow>
     finite (ps_open s) \<and> (\<forall>i\<in>ps_open s. i < ps_next s)
     \<and> (ps_listening s \<longleftrightarrow> ps_phase s = Accepting)
     \<and> (ps_phase s \<noteq> Accepting \<longrightarrow> ps_cancelled s)
     \<and> (ps_phase s = Done \<longrightarrow> ps_open s = {})
     \<and> (\<forall>(i, handle, r)\<in>set (ps_responses s). i < ps_next s \<and> r = prometheus_call build rendering handle)"

lemma prometheus_step_ok:
  assumes "prometheus_step build rendering drained s s'" and "graceful_documented drained"
    and "prometheus_ok build rendering s"
  shows "prometheus_ok build rendering s'"
  using assms(1) by cases (use assms(2,3) in \<open>fastforce simp: prometheus_ok_def graceful_documented_def less_Suc_eq\<close>)+

lemma prometheus_reachable_ok:
  assumes "prometheus_reachable build rendering drained start s" and "graceful_documented drained"
    and "prometheus_ok build rendering start"
  shows "prometheus_ok build rendering s"
  using assms(1,3) prometheus_step_ok [OF _ assms(2)] by (rule prometheus_runs.invariant)

lemma prometheus_new_ok: "prometheus_new recorder = Inr s \<Longrightarrow> prometheus_ok build rendering s"
  by (auto simp: prometheus_new_def prometheus_ok_def split: sum.splits)

lemma connections_end:
  assumes "finite conns" and "ps_open s = conns"
  shows "prometheus_reachable build rendering drained s (s\<lparr>ps_open := {}\<rparr>)"
  using assms
proof (induction conns arbitrary: s)
  case empty
  then have "s\<lparr>ps_open := {}\<rparr> = s" by simp
  then show ?case using prometheus_reachable.boot [of build rendering drained s] by simp
next
  case (insert i conns)
  let ?s = "s\<lparr>ps_open := ps_open s - {i}\<rparr>"
  have "prometheus_reachable build rendering drained s ?s"
    by (rule prometheus_runs.run_one [OF prometheus_step.connection_ends]) (simp add: insert.prems)
  moreover have "prometheus_reachable build rendering drained ?s (?s\<lparr>ps_open := {}\<rparr>)"
    by (rule insert.IH) (use insert.hyps insert.prems in auto)
  ultimately show ?case using prometheus_runs.run_trans by fastforce
qed

text \<open>From every state in which \<^verbatim>\<open>stop\<close> was called the task can end, without another connection.\<close>

lemma cancelled_can_end:
  assumes "graceful_documented drained" and "prometheus_ok build rendering s" and "ps_cancelled s"
  shows "\<exists>s'. prometheus_reachable build rendering drained s s' \<and> ps_phase s' = Done \<and> ps_next s' = ps_next s"
proof -
  let ?run = "prometheus_reachable build rendering drained"
  have leave: "\<exists>s1. ?run s s1 \<and> ps_phase s1 \<noteq> Accepting \<and> prometheus_ok build rendering s1 \<and> ps_next s1 = ps_next s"
  proof (cases "ps_phase s = Accepting")
    case True
    have st: "prometheus_step build rendering drained s (s\<lparr>ps_phase := ShuttingDown, ps_listening := False\<rparr>)"
      using True assms(3) by (rule prometheus_step.leaves_loop)
    then show ?thesis
      using prometheus_step_ok [OF st assms(1,2)] prometheus_reachable.step [OF prometheus_reachable.boot st]
      by (intro exI [of _ "s\<lparr>ps_phase := ShuttingDown, ps_listening := False\<rparr>"] conjI) auto
  next
    case False
    then show ?thesis using assms(2) prometheus_reachable.boot by blast
  qed
  then obtain s1 where s1: "?run s s1" "ps_phase s1 \<noteq> Accepting" "prometheus_ok build rendering s1"
    "ps_next s1 = ps_next s" by blast
  show ?thesis
  proof (cases "ps_phase s1 = Done")
    case True
    then show ?thesis using s1 by blast
  next
    case False
    then have phase: "ps_phase s1 = ShuttingDown" using s1(2) by (cases "ps_phase s1") auto
    have "?run s1 (s1\<lparr>ps_open := {}\<rparr>)"
      using s1(3) by (intro connections_end [OF _ refl]) (simp add: prometheus_ok_def)
    then have "?run s1 (s1\<lparr>ps_open := {}, ps_phase := Done\<rparr>)"
      using prometheus_step.shut_down [of "s1\<lparr>ps_open := {}\<rparr>" drained build rendering] phase assms(1)
      by (auto simp: graceful_documented_def intro: prometheus_reachable.step)
    then show ?thesis using prometheus_runs.run_trans [OF s1(1)] s1(4) by fastforce
  qed
qed

text \<open>
  Claim C37. The metrics endpoint answers with the metrics and stops gracefully. Every response to a
  scrape is built of what the handle renders of the recorder as it is when the request comes, with
  the content type of the text format. A failed \<^verbatim>\<open>accept\<close> never ends the loop, only \<^verbatim>\<open>stop\<close> does;
  after the loop the socket is closed and no connection is accepted; once the task is done, the open
  connections have ended, as the library documents of its shutdown (\<open>graceful_documented\<close>); and
  after \<^verbatim>\<open>stop\<close> the task can always end, without another connection.
\<close>

theorem prometheus_stops_gracefully:
  assumes "prometheus_new recorder = Inr start" and "prometheus_reachable build rendering drained start s"
    and "graceful_documented drained"
  shows "(\<forall>(i, handle, r)\<in>set (ps_responses s).
          r = build [(''content-type'', ''text/plain; version=0.0.4'')] (rendering handle))
     \<and> (\<forall>s'. prometheus_step build rendering drained s s' \<longrightarrow> ps_responses s' \<noteq> ps_responses s \<longrightarrow>
          (\<exists>i\<in>ps_open s. ps_responses s' =
             (i, ps_handle s, build [(''content-type'', ''text/plain; version=0.0.4'')] (rendering (ps_handle s)))
             # ps_responses s))
     \<and> (ps_phase s = Done \<longrightarrow> ps_cancelled s \<and> \<not> ps_listening s \<and> ps_open s = {})
     \<and> (\<not> ps_cancelled s \<longrightarrow> ps_listening s)
     \<and> (\<forall>s'. prometheus_step build rendering drained s s' \<longrightarrow> \<not> ps_listening s \<longrightarrow> ps_open s' \<subseteq> ps_open s)
     \<and> (ps_cancelled s \<longrightarrow>
          (\<exists>s'. prometheus_reachable build rendering drained s s' \<and> ps_phase s' = Done \<and> ps_next s' = ps_next s))"
proof (intro conjI)
  have ok: "prometheus_ok build rendering s"
    using assms(2,3) prometheus_new_ok [OF assms(1)] by (rule prometheus_reachable_ok)
  then show "ps_phase s = Done \<longrightarrow> ps_cancelled s \<and> \<not> ps_listening s \<and> ps_open s = {}"
    "\<not> ps_cancelled s \<longrightarrow> ps_listening s"
    by (auto simp: prometheus_ok_def)
  show "\<forall>s'. prometheus_step build rendering drained s s' \<longrightarrow> \<not> ps_listening s \<longrightarrow> ps_open s' \<subseteq> ps_open s"
    using ok by (auto simp: prometheus_ok_def elim!: prometheus_stepE)
  show "ps_cancelled s \<longrightarrow>
      (\<exists>s'. prometheus_reachable build rendering drained s s' \<and> ps_phase s' = Done \<and> ps_next s' = ps_next s)"
    using cancelled_can_end [OF assms(3) ok] by blast
  have call: "prometheus_call build rendering handle = build [(''content-type'', ''text/plain; version=0.0.4'')] (rendering handle)"
    for handle by (simp add: prometheus_call_def split: sum.split)
  show "\<forall>(i, handle, r)\<in>set (ps_responses s).
      r = build [(''content-type'', ''text/plain; version=0.0.4'')] (rendering handle)"
    using ok by (auto simp: prometheus_ok_def call)
  show "\<forall>s'. prometheus_step build rendering drained s s' \<longrightarrow> ps_responses s' \<noteq> ps_responses s \<longrightarrow>
      (\<exists>i\<in>ps_open s. ps_responses s' =
         (i, ps_handle s, build [(''content-type'', ''text/plain; version=0.0.4'')] (rendering (ps_handle s)))
         # ps_responses s)"
    by (auto simp: call elim!: prometheus_stepE)
qed

theorem prometheus_stops_gracefully_witness:
  "\<exists>start s :: (string, string, string) prometheus_server.
     prometheus_new (Inr ''up 1'') = Inr start \<and> ps_open s = {} \<and> ps_phase s = Done
     \<and> prometheus_reachable (\<lambda>headers body. Inr body) (\<lambda>text. text @ [CHR 0x0A]) (\<lambda>conns. conns = {}) start s
     \<and> ps_responses s = [(0, ''up 1'', Inr (''up 1'' @ [CHR 0x0A]))]"
proof -
  let ?build = "\<lambda>headers body. (Inr body :: string + string)"
  let ?rendering = "\<lambda>text. text @ [CHR 0x0A]"
  let ?drained = "\<lambda>conns :: nat set. conns = {}"
  let ?step = "prometheus_step ?build ?rendering ?drained"
  obtain start :: "(string, string, string) prometheus_server" where new: "prometheus_new (Inr ''up 1'') = Inr start"
    by (simp add: prometheus_new_def)
  define s1 where "s1 = start\<lparr>ps_open := insert (ps_next start) (ps_open start), ps_next := Suc (ps_next start)\<rparr>"
  define s2 where "s2 = s1\<lparr>ps_responses := (0, ps_handle s1, prometheus_call ?build ?rendering (ps_handle s1)) # ps_responses s1\<rparr>"
  define s3 where "s3 = s2\<lparr>ps_cancelled := True\<rparr>"
  define s4 where "s4 = s3\<lparr>ps_phase := ShuttingDown, ps_listening := False\<rparr>"
  define s5 where "s5 = s4\<lparr>ps_open := ps_open s4 - {0}\<rparr>"
  define s6 where "s6 = s5\<lparr>ps_phase := Done\<rparr>"
  have start: "ps_phase start = Accepting" "ps_next start = 0" "ps_open start = {}" "ps_responses start = []"
    "ps_handle start = ''up 1''"
    using new by (auto simp: prometheus_new_def)
  note defs = s1_def s2_def s3_def s4_def s5_def s6_def
  have "?step start s1" unfolding s1_def using start(1) by (rule prometheus_step.accepted)
  moreover have "?step s1 s2"
    unfolding s2_def by (rule prometheus_step.scraped) (simp add: s1_def start)
  moreover have "?step s2 s3" unfolding s3_def by (rule prometheus_step.stop)
  moreover have "?step s3 s4"
    unfolding s4_def by (rule prometheus_step.leaves_loop) (simp_all add: s1_def s2_def s3_def start)
  moreover have "?step s4 s5"
    unfolding s5_def by (rule prometheus_step.connection_ends) (simp add: s1_def s2_def s3_def s4_def start)
  moreover have "?step s5 s6"
    unfolding s6_def by (rule prometheus_step.shut_down) (simp_all add: s1_def s2_def s3_def s4_def s5_def start)
  ultimately have run: "prometheus_reachable ?build ?rendering ?drained start s6"
    by (rule prometheus_reachable.step [OF prometheus_reachable.step [OF prometheus_reachable.step
          [OF prometheus_reachable.step [OF prometheus_reachable.step [OF prometheus_reachable.step
            [OF prometheus_reachable.boot]]]]]])
  have s6: "ps_phase s6 = Done" "ps_responses s6 = [(0, ''up 1'', Inr (''up 1'' @ [CHR 0x0A]))]"
    by (simp_all add: defs start prometheus_call_def)
  have "graceful_documented ?drained" by (simp add: graceful_documented_def)
  then have "ps_open s6 = {}" using prometheus_stops_gracefully [OF new run] s6 by simp
  then show ?thesis using new run s6 by blast
qed

end
