(* ===== verification/Program_Run.thy ===== *)
theory Program_Run
  imports Metrics Server_Properties
begin

text \<open>
  The program from its command line to its exit status (src/bin/astra-dns.rs, \<^verbatim>\<open>Cli\<close>, \<^verbatim>\<open>main\<close>,
  \<^verbatim>\<open>run\<close>, \<^verbatim>\<open>async_run\<close>, \<^verbatim>\<open>finish_server_run\<close>), on Unix, as built with any choice of the metrics
  features. Start-up is that of \<open>Startup\<close> with the metrics endpoint and the signal handlers in between.
\<close>

section \<open>The command line\<close>

record cli =
  cli_validate :: bool
  cli_workers :: "nat option"
  cli_config :: string
  cli_prometheus_listen_addr :: "socket_addr option"
  cli_disable_prometheus :: bool

text \<open>The two options for the endpoint exclude each other.\<close>

definition cli_accepted :: "cli \<Rightarrow> bool" where
  "cli_accepted args \<longleftrightarrow> \<not> (cli_disable_prometheus args \<and> cli_prometheus_listen_addr args \<noteq> None)"

text \<open>The command lines that \<^verbatim>\<open>Cli::parse\<close> tells apart, as the library reads the arguments of the
  process against the options above: it may be asked for the help or the version, not understand the
  arguments, or find options.\<close>

datatype command_line = AskHelp | AskVersion | NotUnderstood | Options cli

text \<open>\<^verbatim>\<open>Cli::parse\<close>, which returns only for options that do not exclude each other: it ends the
  program with status zero after printing the help or the version, and with two for an error.\<close>

definition cli_parse :: "command_line \<Rightarrow> nat + cli" where
  "cli_parse cl =
     (case cl of
        AskHelp \<Rightarrow> Inl 0
      | AskVersion \<Rightarrow> Inl 0
      | NotUnderstood \<Rightarrow> Inl 2
      | Options args \<Rightarrow> if cli_accepted args then Inr args else Inl 2)"

section \<open>Starting\<close>

datatype unix_signal = SigTerm | SigHup

text \<open>The log filter made of a level and the environment, the runtime with a number of workers,
  the signal handlers, the metrics recorder, and the endpoint's settings in a configuration. The
  first two fields tell whether the program is built with the features \<^verbatim>\<open>prometheus-metrics\<close> and
  \<^verbatim>\<open>metrics\<close>; the default build has neither.\<close>

record 'h process_env =
  pe_with_prometheus :: bool
  pe_with_metrics :: bool
  pe_log_filter :: "log_level \<times> log_level \<Rightarrow> string + unit"
  pe_runtime :: "nat option \<Rightarrow> io_error + unit"
  pe_signal :: "unix_signal \<Rightarrow> io_error option"
  pe_recorder :: "string + 'h"
  pe_prometheus :: "server_config \<Rightarrow> prometheus_options"

datatype run_error =
    LogFilterInvalid string
  | RuntimeNotBuilt io_error
  | StartError startup_error
  | PrometheusError prometheus_error
  | SignalError io_error

datatype 'sv program_start =
    ProgramExited nat | ProgramPanicked | ProgramFailed run_error | ProgramValidated | ProgramRunning 'sv

type_synonym ('n, 'm, 'rx, 'net, 'f) loaded_program =
  "server_config \<times> ('n, 'm, 'rx, 'net, 'f) catalog \<times> log_level \<times> reload_settings"

definition load_program ::
    "('rx, 'net, 'c, 'r, 'res, 'n, 'm, 'f) system \<Rightarrow> bool \<Rightarrow> disk
     \<Rightarrow> (reload_error + ('n, 'm, 'rx, 'net, 'f) loaded_program) outcome \<times> disk \<times> ('m, 'f) registry" where
  "load_program sys validate d =
     (case (if validate then (validate_runtime_config sys d, d, registry_empty)
            else load_runtime_config sys LoadCacheFirst d registry_empty) of
        (Panicked, d', rg) \<Rightarrow> (Panicked, d', rg)
      | (Finished r, d', rg) \<Rightarrow>
          (Finished
             (rbind r (\<lambda>(cfg, catalog).
                let level = log_level_of (sys_level_from_str sys) cfg
                in rbind (update_log_level sys level) (\<lambda>_.
                   rbind (settings_from_config sys d' cfg) (\<lambda>settings.
                     Inr (cfg, catalog, level, settings))))), d', rg))"

definition listen_program ::
    "(sock_call \<Rightarrow> io_error option) \<Rightarrow> os_accounts \<Rightarrow> ('n, 'm, 'rx, 'net, 'f) loaded_program \<Rightarrow> disk
     \<Rightarrow> ('m, 'f) registry \<Rightarrow> creds \<Rightarrow> (startup_error + ('n, 'm, 'rx, 'net, 'f) server \<times> listener list) \<times> creds" where
  "listen_program fails os loaded d rg cr =
     (case loaded of (cfg, catalog, level, settings) \<Rightarrow>
        let listeners = planned_listeners cfg settings
        in case bind_all fails (rs_listen_port settings) listeners of
             Inl e \<Rightarrow> (Inl e, cr)
           | Inr _ \<Rightarrow>
               (case drop_privileges os cfg cr of
                  (Inl e, cr') \<Rightarrow> (Inl (StartPrivileges e), cr')
                | (Inr _, cr') \<Rightarrow>
                    (Inr (\<lparr>sv_catalog = catalog, sv_settings = settings, sv_log_level = level, sv_disk = d,
                           sv_registry = rg\<rparr>, listeners), cr')))"

text \<open>The start without the metrics is the one of \<open>async_run\<close>.\<close>

lemma async_run_program:
  "async_run sys fails os validate d cr =
     (case load_program sys validate d of
        (Panicked, _) \<Rightarrow> (StartPanicked, cr)
      | (Finished (Inl e), _) \<Rightarrow> (StartFailed (StartReload e), cr)
      | (Finished (Inr loaded), d', rg) \<Rightarrow>
          if validate then (Validated, cr)
          else (case listen_program fails os loaded d' rg cr of
                  (Inl e, cr') \<Rightarrow> (StartFailed e, cr')
                | (Inr x, cr') \<Rightarrow> (Started x, cr')))"
  by (auto simp: async_run_def load_program_def listen_program_def Let_def
      split: prod.split outcome.split sum.split)

definition async_run_metrics ::
    "('rx, 'net, 'c, 'r, 'res, 'n, 'm, 'f) system \<Rightarrow> (sock_call \<Rightarrow> io_error option) \<Rightarrow> os_accounts
     \<Rightarrow> 'h process_env \<Rightarrow> cli \<Rightarrow> disk \<Rightarrow> creds
     \<Rightarrow> (('n, 'm, 'rx, 'net, 'f) server \<times> listener list \<times> ('h, 'e, 'resp) prometheus_server option) program_start
        \<times> creds" where
  "async_run_metrics sys fails os env args d cr =
     (case load_program sys (cli_validate args) d of
        (Panicked, _) \<Rightarrow> (ProgramPanicked, cr)
      | (Finished (Inl e), _) \<Rightarrow> (ProgramFailed (StartError (StartReload e)), cr)
      | (Finished (Inr loaded), d', rg) \<Rightarrow>
          (case (if pe_with_prometheus env
                 then start_prometheus fails (pe_recorder env) (cli_prometheus_listen_addr args)
                        (cli_disable_prometheus args) (pe_prometheus env (fst loaded))
                 else Inr None) of
             Inl e \<Rightarrow> (ProgramFailed (PrometheusError e), cr)
           | Inr prometheus \<Rightarrow>
               (case pe_signal env SigTerm of
                  Some e \<Rightarrow> (ProgramFailed (SignalError e), cr)
                | None \<Rightarrow>
                    (case pe_signal env SigHup of
                       Some e \<Rightarrow> (ProgramFailed (SignalError e), cr)
                     | None \<Rightarrow>
                         if cli_validate args then (ProgramValidated, cr)
                         else (case listen_program fails os loaded d' rg cr of
                                 (Inl e, cr') \<Rightarrow> (ProgramFailed (StartError e), cr')
                               | (Inr (sv, listeners), cr') \<Rightarrow> (ProgramRunning (sv, listeners, prometheus), cr'))))))"

text \<open>The runtime builder asserts that the number of workers is not zero.\<close>

definition run ::
    "('rx, 'net, 'c, 'r, 'res, 'n, 'm, 'f) system \<Rightarrow> (sock_call \<Rightarrow> io_error option) \<Rightarrow> os_accounts
     \<Rightarrow> 'h process_env \<Rightarrow> command_line \<Rightarrow> disk \<Rightarrow> creds
     \<Rightarrow> (('n, 'm, 'rx, 'net, 'f) server \<times> listener list \<times> ('h, 'e, 'resp) prometheus_server option) program_start
        \<times> creds" where
  "run sys fails os env cl d cr =
     (case cli_parse cl of
        Inl status \<Rightarrow> (ProgramExited status, cr)
      | Inr args \<Rightarrow>
          (case pe_log_filter env (build_env_filter L_Info) of
             Inl e \<Rightarrow> (ProgramFailed (LogFilterInvalid e), cr)
           | Inr _ \<Rightarrow>
               if cli_workers args = Some 0 then (ProgramPanicked, cr)
               else (case pe_runtime env (cli_workers args) of
                  Inl e \<Rightarrow> (ProgramFailed (RuntimeNotBuilt e), cr)
                | Inr _ \<Rightarrow> async_run_metrics (sys\<lparr>sys_config_path := cli_config args\<rparr>) fails os env args d cr)))"

section \<open>Ending\<close>

text \<open>\<open>ended\<close>: the task that supervises the listeners failed, or the listeners as they ended. The
  endpoint is told to stop only after a run that ends well.\<close>

record ('h, 'e, 'resp) runtime_handles =
  rh_prometheus :: "('h, 'e, 'resp) prometheus_server option"
  rh_collecting :: bool

definition runtime_handles_of ::
    "'h process_env \<Rightarrow> ('h, 'e, 'resp) prometheus_server option \<Rightarrow> ('h, 'e, 'resp) runtime_handles" where
  "runtime_handles_of env prometheus = \<lparr>rh_prometheus = prometheus, rh_collecting = pe_with_metrics env\<rparr>"

definition finish_with_handles ::
    "string \<Rightarrow> string + unit \<Rightarrow> ('h, 'e, 'resp) runtime_handles \<Rightarrow> (string + unit) \<times> ('h, 'e, 'resp) runtime_handles" where
  "finish_with_handles version result handles =
     (case finish_server_run version result of
        Inl e \<Rightarrow> (Inl e, handles)
      | Inr _ \<Rightarrow>
          (Inr (), \<lparr>rh_prometheus = map_option (\<lambda>s. s\<lparr>ps_cancelled := True\<rparr>) (rh_prometheus handles),
                   rh_collecting = False\<rparr>))"

definition server_result :: "string \<Rightarrow> string + (bool \<times> (string + unit)) list \<Rightarrow> ('h, 'e, 'resp) runtime_handles
     \<Rightarrow> (string + unit) \<times> ('h, 'e, 'resp) runtime_handles" where
  "server_result version ended handles =
     (case ended of
        Inl e \<Rightarrow> (Inl (''server task failed: '' @ e), handles)
      | Inr tasks \<Rightarrow> finish_with_handles version (fst (supervise tasks)) handles)"

text \<open>\<^verbatim>\<open>main\<close>: a panic of the main thread, at the start or in a reload, exits with 101.\<close>

definition exit_status ::
    "string \<Rightarrow> 'h process_env \<Rightarrow> ('sv \<times> 'ls \<times> ('h, 'e, 'resp) prometheus_server option) program_start
     \<Rightarrow> (string + (bool \<times> (string + unit)) list) outcome \<Rightarrow> nat" where
  "exit_status version env start ended =
     (case start of
        ProgramExited status \<Rightarrow> status
      | ProgramPanicked \<Rightarrow> 101
      | ProgramFailed _ \<Rightarrow> 1
      | ProgramValidated \<Rightarrow> 0
      | ProgramRunning (_, _, prometheus) \<Rightarrow>
          (case ended of
             Panicked \<Rightarrow> 101
           | Finished e \<Rightarrow>
               (case fst (server_result version e (runtime_handles_of env prometheus)) of Inl _ \<Rightarrow> 1 | Inr _ \<Rightarrow> 0)))"

section \<open>What a run of the program is\<close>

lemma run_Running:
  assumes "run sys fails os env cl d cr = (ProgramRunning (sv, listeners, prometheus), cr')"
  shows "\<exists>args. cl = Options args \<and> \<not> cli_validate args
     \<and> async_run (sys\<lparr>sys_config_path := cli_config args\<rparr>) fails os False d cr = (Started (sv, listeners), cr')"
proof -
  obtain args where cl: "cl = Options args" using assms by (cases cl) (auto simp: run_def cli_parse_def)
  then have "\<not> cli_validate args
     \<and> async_run (sys\<lparr>sys_config_path := cli_config args\<rparr>) fails os False d cr = (Started (sv, listeners), cr')"
    using assms
    by (auto simp: run_def cli_parse_def async_run_metrics_def async_run_program
        split: sum.splits prod.splits outcome.splits option.splits if_splits)
  then show ?thesis using cl by blast
qed

lemma run_Validated:
  assumes "run sys fails os env cl d cr = (ProgramValidated, cr')"
  shows "\<exists>args. cl = Options args \<and> cli_validate args \<and> cr' = cr
     \<and> async_run (sys\<lparr>sys_config_path := cli_config args\<rparr>) fails os True d cr = (Validated, cr)"
proof -
  obtain args where cl: "cl = Options args" using assms by (cases cl) (auto simp: run_def cli_parse_def)
  then have "cli_validate args \<and> cr' = cr
     \<and> async_run (sys\<lparr>sys_config_path := cli_config args\<rparr>) fails os True d cr = (Validated, cr)"
    using assms
    by (auto simp: run_def cli_parse_def async_run_metrics_def async_run_program
        split: sum.splits prod.splits outcome.splits option.splits if_splits)
  then show ?thesis using cl by blast
qed

lemma run_Exited:
  assumes "run sys fails os env cl d cr = (ProgramExited status, cr')"
  shows "status = 0 \<longleftrightarrow> cl = AskHelp \<or> cl = AskVersion"
  using assms
  by (auto simp: run_def cli_parse_def async_run_metrics_def
      split: sum.splits prod.splits outcome.splits option.splits if_splits command_line.splits)

lemma run_asked:
  assumes "cl = AskHelp \<or> cl = AskVersion"
  shows "run sys fails os env cl d cr = (ProgramExited 0, cr)"
  using assms by (auto simp: run_def cli_parse_def)

lemma server_result_ok:
  "is_ok (fst (server_result version ended handles)) \<longleftrightarrow>
     (\<exists>tasks. ended = Inr tasks \<and> list_all (\<lambda>(cancelled, r). cancelled \<and> r = Inr ()) tasks)"
  by (simp add: server_result_def finish_with_handles_def finish_server_run_def list_all_iff
      supervise_Inr [symmetric] split: sum.split)

lemma server_result_stops:
  assumes "is_ok (fst (server_result version ended handles))"
  shows "\<not> rh_collecting (snd (server_result version ended handles))"
    and "map_option ps_cancelled (rh_prometheus (snd (server_result version ended handles))) \<noteq> Some False"
  using assms
  by (auto simp: server_result_def finish_with_handles_def finish_server_run_def split: sum.splits)

lemma server_result_ended:
  "is_ok (fst (server_result version ended handles)) \<longleftrightarrow>
     (\<exists>tasks. ended = Inr tasks \<and> list_all (\<lambda>(cancelled, r). cancelled \<and> r = Inr ()) tasks
        \<and> \<not> rh_collecting (snd (server_result version (Inr tasks) handles))
        \<and> map_option ps_cancelled (rh_prometheus (snd (server_result version (Inr tasks) handles))) \<noteq> Some False)"
  using server_result_ok [of version ended handles] server_result_stops [of version ended handles] by blast

lemma exit_status_iff:
  assumes "run sys fails os env cl d cr = (start, cr')"
  shows "exit_status version env start ended = 0 \<longleftrightarrow>
       (cl = AskHelp \<or> cl = AskVersion)
       \<or> (\<exists>args. cl = Options args \<and> cli_validate args \<and> start = ProgramValidated
          \<and> async_run (sys\<lparr>sys_config_path := cli_config args\<rparr>) fails os True d cr = (Validated, cr))
       \<or> (\<exists>args sv listeners prometheus tasks. cl = Options args \<and> start = ProgramRunning (sv, listeners, prometheus)
          \<and> async_run (sys\<lparr>sys_config_path := cli_config args\<rparr>) fails os False d cr = (Started (sv, listeners), cr')
          \<and> ended = Finished (Inr tasks) \<and> list_all (\<lambda>(cancelled, r). cancelled \<and> r = Inr ()) tasks
          \<and> \<not> rh_collecting (snd (server_result version (Inr tasks) (runtime_handles_of env prometheus)))
          \<and> map_option ps_cancelled
              (rh_prometheus (snd (server_result version (Inr tasks) (runtime_handles_of env prometheus)))) \<noteq> Some False)"
proof (cases start)
  case (ProgramExited status)
  then show ?thesis
    using run_Exited [OF assms [unfolded ProgramExited]] by (simp add: exit_status_def)
next
  case ProgramValidated
  then show ?thesis using run_Validated [OF assms [unfolded ProgramValidated]] by (auto simp: exit_status_def)
next
  case (ProgramRunning x)
  obtain sv listeners prometheus where x: "x = (sv, listeners, prometheus)" by (metis prod_cases3)
  let ?result = "\<lambda>e. server_result version e (runtime_handles_of env prometheus)"
  have status: "exit_status version env start ended = 0 \<longleftrightarrow> (\<exists>e. ended = Finished e \<and> is_ok (fst (?result e)))"
    by (cases ended) (simp_all add: exit_status_def ProgramRunning x split: sum.split)
  show ?thesis
    unfolding status
    using run_Running [OF assms [unfolded ProgramRunning x]] unfolding server_result_ended ProgramRunning x by blast
next
  case ProgramPanicked
  then have "\<not> (cl = AskHelp \<or> cl = AskVersion)" using assms by (auto simp: run_def cli_parse_def)
  then show ?thesis using ProgramPanicked by (simp add: exit_status_def)
next
  case (ProgramFailed e)
  then have "\<not> (cl = AskHelp \<or> cl = AskVersion)" using assms by (auto simp: run_def cli_parse_def)
  then show ?thesis using ProgramFailed by (simp add: exit_status_def)
qed

text \<open>
  Claim C31. The exit status tells the truth, in every build, with and without the metrics. The
  program exits with status zero exactly if its command line asks for the help or the version, if it
  was asked to validate its configuration and found it valid, or if it ran as a started server, no
  panic broke off the main loop, every listener ended without an error after the shutdown had been
  requested, and the collection of metrics and their endpoint, where the build has them, were told
  to stop.
\<close>

theorem exit_status_explained:
  "case run sys fails os env cl d cr of (start, cr') \<Rightarrow>
     exit_status version env start ended = 0 \<longleftrightarrow>
       (cl = AskHelp \<or> cl = AskVersion)
       \<or> (\<exists>args. cl = Options args \<and> cli_validate args \<and> start = ProgramValidated
          \<and> async_run (sys\<lparr>sys_config_path := cli_config args\<rparr>) fails os True d cr = (Validated, cr))
       \<or> (\<exists>args sv listeners prometheus tasks. cl = Options args \<and> start = ProgramRunning (sv, listeners, prometheus)
          \<and> async_run (sys\<lparr>sys_config_path := cli_config args\<rparr>) fails os False d cr = (Started (sv, listeners), cr')
          \<and> ended = Finished (Inr tasks) \<and> list_all (\<lambda>(cancelled, r). cancelled \<and> r = Inr ()) tasks
          \<and> \<not> rh_collecting (snd (server_result version (Inr tasks) (runtime_handles_of env prometheus)))
          \<and> map_option ps_cancelled
              (rh_prometheus (snd (server_result version (Inr tasks) (runtime_handles_of env prometheus)))) \<noteq> Some False)"
  by (split prod.split) (intro allI impI exit_status_iff)

text \<open>
  Validating a configuration binds the port of the metrics endpoint. With the feature
  \<^verbatim>\<open>prometheus-metrics\<close>, and the endpoint not disabled, \<^verbatim>\<open>--validate\<close> fails for a valid configuration if that port
  cannot be bound, as when the server is already running, although it is documented to check only
  the configuration and the local rules.
\<close>

theorem validation_needs_metrics_port:
  assumes "pe_with_prometheus env" and "cli_validate args" and "\<not> cli_disable_prometheus args"
    and "async_run (sys\<lparr>sys_config_path := cli_config args\<rparr>) fails' os' True d cr = (Validated, cr)"
    and "read_config (sys\<lparr>sys_config_path := cli_config args\<rparr>) d = Finished (Inr cfg)"
    and "\<not> disable_prometheus (pe_prometheus env cfg)"
    and "addr = unwrap_or (prometheus_listen_addr (pe_prometheus env cfg)) (cli_prometheus_listen_addr args)"
    and "run_calls fails (build_tcp_listener (sock_ip addr) (sock_port addr)) = Inl e"
    and "is_ok (pe_log_filter env (build_env_filter L_Info))" and "is_ok (pe_runtime env (cli_workers args))"
    and "cli_workers args \<noteq> Some 0"
  shows "case run sys fails os env (Options args) d cr of (start, cr') \<Rightarrow>
     start = ProgramFailed (PrometheusError (PrometheusBindFailed addr e)) \<and> cr' = cr
     \<and> exit_status version env start ended = 1"
proof -
  let ?sys = "sys\<lparr>sys_config_path := cli_config args\<rparr>"
  obtain loaded d' rg where l: "load_program ?sys True d = (Finished (Inr loaded), d', rg)"
    using assms(4) unfolding async_run_program
    by (auto split: prod.splits outcome.splits sum.splits)
  then have "fst loaded = cfg"
    using assms(5)
    by (auto simp: load_program_def validate_runtime_config_def Let_def rbind_Inr_iff
        split: outcome.splits option.splits)
  then show ?thesis
    using assms(1-3,6-11) l
    by (auto simp: run_def cli_parse_def cli_accepted_def async_run_metrics_def start_prometheus_def Let_def exit_status_def split: sum.splits)
qed

text \<open>The server is running, and its configuration is validated.\<close>

definition sample_env :: "unit process_env" where
  "sample_env = \<lparr>pe_with_prometheus = True, pe_with_metrics = True, pe_log_filter = \<lambda>_. Inr (), pe_runtime = \<lambda>_. Inr (), pe_signal = \<lambda>_. None, pe_recorder = Inr (),
                 pe_prometheus = \<lambda>_. \<lparr>po_listen_addr = None, po_disable = None\<rparr>\<rparr>"

definition sample_args :: cli where
  "sample_args = \<lparr>cli_validate = True, cli_workers = None, cli_config = ''/etc/named.yaml'',
                  cli_prometheus_listen_addr = None, cli_disable_prometheus = False\<rparr>"

definition port_in_use :: "socket_addr \<Rightarrow> sock_call \<Rightarrow> io_error option" where
  "port_in_use addr c = (case c of BindTo a \<Rightarrow> if a = addr then Some (OtherIo ''address in use'') else None | _ \<Rightarrow> None)"

lemma sample_validated:
  "case async_run (sample_system\<lparr>sys_config_path := cli_config sample_args\<rparr>) (\<lambda>_. None) sample_accounts True
     (config_disk ''ok'') root_creds of (Validated, cr) \<Rightarrow> cr = root_creds | _ \<Rightarrow> False"
  "case run_calls (port_in_use (sock_new (V4 0x7F000001) 9000))
     (build_tcp_listener (sock_ip (sock_new (V4 0x7F000001) 9000)) (sock_port (sock_new (V4 0x7F000001) 9000))) of
       Inl e \<Rightarrow> e = OtherIo ''address in use'' | _ \<Rightarrow> False"
  by code_simp+

theorem validation_needs_metrics_port_witness:
  "case run sample_system (port_in_use (sock_new (V4 0x7F000001) 9000)) sample_accounts sample_env (Options sample_args)
     (config_disk ''ok'') root_creds of (start, cr') \<Rightarrow>
     start = ProgramFailed (PrometheusError (PrometheusBindFailed (sock_new (V4 0x7F000001) 9000) (OtherIo ''address in use'')))
     \<and> cr' = root_creds \<and> exit_status ''0.26'' sample_env start (Finished (Inr [])) = 1"
proof -
  let ?sys = "sample_system\<lparr>sys_config_path := cli_config sample_args\<rparr>"
  have sys: "?sys = sample_system" by (simp add: sample_system_def sample_args_def)
  have valid: "async_run ?sys (\<lambda>_. None) sample_accounts True (config_disk ''ok'') root_creds = (Validated, root_creds)"
    using sample_validated(1) by (auto split: prod.splits startup.splits)
  have busy: "run_calls (port_in_use (sock_new (V4 0x7F000001) 9000))
      (build_tcp_listener (sock_ip (sock_new (V4 0x7F000001) 9000)) (sock_port (sock_new (V4 0x7F000001) 9000)))
      = Inl (OtherIo ''address in use'')"
    using sample_validated(2) by (auto split: sum.splits)
  obtain cfg where cfg: "read_config ?sys (config_disk ''ok'') = Finished (Inr cfg)"
    using sample_config_read unfolding sys by (auto split: outcome.splits dest: is_okD)
  show ?thesis
    by (rule validation_needs_metrics_port [OF _ _ _ valid cfg _ _ busy])
      (simp_all add: sample_args_def sample_env_def disable_prometheus_def prometheus_listen_addr_def)
qed

end
