(* ===== verification/Udp_Packet.thy ===== *)
theory Udp_Packet
  imports Addr_Text
begin

text \<open>
  Reception and sending of datagrams with their local destination (src/udp/pktinfo.rs): the
  checks on packet information, the decoding of the sender's address and of the control messages,
  the control message of a reply, and the retry loops around the system calls.

  The C structures are third-party: \<open>c_abi\<close> gives their sizes, and readers and writers for their
  fields; \<open>abi_ok\<close> states what a C compiler guarantees of them. A byte is an \<open>8 word\<close>.
\<close>

type_synonym bytes = "(8 word) list"

record packet_info =
  pi_local_addr :: ip_addr
  pi_if_index :: "32 word"

fun sock_is_ipv6 :: "socket_addr \<Rightarrow> bool" where
  "sock_is_ipv6 (SockV4 _ _) = False"
| "sock_is_ipv6 (SockV6 _ _ _ _) = True"

datatype packet_error =
    NotLocalUnicast
  | MappedPeer
  | BadPeerAddress
  | BadControlLength
  | BadV4Metadata
  | NonUnicastDestination
  | BadV6Metadata
  | DuplicateMetadata
  | MissingMetadata
  | TruncatedDatagram
  | FamiliesDiffer

datatype os_error_kind = WouldBlock | Interrupted | InvalidData | NotConnected | ConnectionAborted | OtherKind

text \<open>An I/O error: one the program raises (\<^verbatim>\<open>invalid_data\<close>), or the system's, with its number.\<close>

datatype udp_error = BadPacket packet_error | OsError os_error_kind int | PartialWrite | EncodeFailed string

fun error_kind :: "udp_error \<Rightarrow> os_error_kind" where
  "error_kind (BadPacket _) = InvalidData"
| "error_kind (OsError k _) = k"
| "error_kind PartialWrite = OtherKind"
| "error_kind (EncodeFailed _) = OtherKind"

section \<open>The C structures\<close>

record in_pktinfo =
  ipi_ifindex :: int
  ipi_spec_dst :: bytes
  ipi_addr :: bytes

record in6_pktinfo =
  ipi6_addr :: bytes
  ipi6_ifindex :: "32 word"

record cmsghdr =
  cmsg_len :: nat
  cmsg_level :: "32 word"
  cmsg_type :: "32 word"

record c_abi =
  abi_usize :: nat
  abi_cmsghdr_size :: nat
  abi_read_cmsghdr :: "bytes \<Rightarrow> cmsghdr"
  abi_write_cmsghdr :: "cmsghdr \<Rightarrow> bytes"
  abi_in_size :: nat
  abi_read_in :: "bytes \<Rightarrow> in_pktinfo"
  abi_write_in :: "in_pktinfo \<Rightarrow> bytes"
  abi_in6_size :: nat
  abi_read_in6 :: "bytes \<Rightarrow> in6_pktinfo"
  abi_write_in6 :: "in6_pktinfo \<Rightarrow> bytes"
  abi_ipproto_ip :: "32 word"
  abi_ip_pktinfo :: "32 word"
  abi_ipproto_ipv6 :: "32 word"
  abi_ipv6_pktinfo :: "32 word"
  abi_ipv6_recvpktinfo :: "32 word"
  abi_af_inet :: int
  abi_af_inet6 :: int
  abi_sockaddr_in_size :: nat
  abi_sockaddr_in6_size :: nat

text \<open>Rounding up to the alignment of control messages, and the macros \<^verbatim>\<open>CMSG_LEN\<close> and
  \<^verbatim>\<open>CMSG_SPACE\<close> made of it.\<close>

definition align_up :: "nat \<Rightarrow> nat \<Rightarrow> nat" where
  "align_up a n = (n + a - 1) div a * a"

definition cmsg_len_of :: "c_abi \<Rightarrow> nat \<Rightarrow> nat" where
  "cmsg_len_of abi n = align_up (abi_usize abi) (abi_cmsghdr_size abi) + n"

definition cmsg_space_of :: "c_abi \<Rightarrow> nat \<Rightarrow> nat" where
  "cmsg_space_of abi n =
     align_up (abi_usize abi) (abi_cmsghdr_size abi) + align_up (abi_usize abi) n"

text \<open>What the compiler guarantees: a structure occupies its size, and reading its bytes, with
  whatever follows them, gives the fields that were written. The names of the two kinds of
  packet information differ.\<close>

definition abi_ok :: "c_abi \<Rightarrow> bool" where
  "abi_ok abi \<longleftrightarrow>
     0 < abi_usize abi \<and> 0 < abi_cmsghdr_size abi
     \<and> (\<forall>h. length (abi_write_cmsghdr abi h) = abi_cmsghdr_size abi)
     \<and> (\<forall>h rest. cmsg_len h \<le> 128 \<longrightarrow> abi_read_cmsghdr abi (abi_write_cmsghdr abi h @ rest) = h)
     \<and> (\<forall>p. length (ipi_spec_dst p) = 4 \<longrightarrow> length (ipi_addr p) = 4 \<longrightarrow>
           length (abi_write_in abi p) = abi_in_size abi
           \<and> (- (2 ^ 31) \<le> ipi_ifindex p \<longrightarrow> ipi_ifindex p < 2 ^ 31 \<longrightarrow>
                abi_read_in abi (abi_write_in abi p) = p))
     \<and> (\<forall>p. length (ipi6_addr p) = 16 \<longrightarrow>
           length (abi_write_in6 abi p) = abi_in6_size abi \<and> abi_read_in6 abi (abi_write_in6 abi p) = p)
     \<and> (abi_ipproto_ip abi, abi_ip_pktinfo abi) \<noteq> (abi_ipproto_ipv6 abi, abi_ipv6_pktinfo abi)
     \<and> cmsg_space_of abi (abi_in_size abi) \<le> 128 \<and> cmsg_space_of abi (abi_in6_size abi) \<le> 128"

text \<open>\<^verbatim>\<open>octets\<close> and \<^verbatim>\<open>From<[u8; n]>\<close>, as bytes.\<close>

definition v4_bytes :: "ipv4 \<Rightarrow> bytes" where
  "v4_bytes a = map word_of_int (v4_octets a)"

definition v6_bytes :: "ipv6 \<Rightarrow> bytes" where
  "v6_bytes a = map word_of_int (v6_octets a)"

definition v4_of_bytes :: "bytes \<Rightarrow> ipv4" where
  "v4_of_bytes bs = word_of_int (be_val 256 (map uint bs))"

definition v6_of_bytes :: "bytes \<Rightarrow> ipv6" where
  "v6_of_bytes bs = word_of_int (be_val 256 (map uint bs))"

section \<open>Checks\<close>

definition valid_local_addr :: "ip_addr \<Rightarrow> bool \<Rightarrow> bool" where
  "valid_local_addr ip ipv6 =
     (case ip of
        V4 a \<Rightarrow> \<not> ipv6 \<and> \<not> v4_is_unspecified a \<and> \<not> v4_is_multicast a \<and> \<not> v4_is_broadcast a
      | V6 a \<Rightarrow> ipv6 \<and> \<not> v6_is_unspecified a \<and> \<not> v6_is_multicast a \<and> to_ipv4_mapped a = None)"

definition validate_info :: "packet_info \<Rightarrow> bool \<Rightarrow> udp_error + unit" where
  "validate_info info ipv6 =
     (if \<not> valid_local_addr (pi_local_addr info) ipv6 \<or> pi_if_index info = 0
         \<or> (\<not> ipv6 \<and> 0x7FFFFFFF < pi_if_index info)
      then Inl (BadPacket NotLocalUnicast) else Inr ())"

section \<open>The sender\<close>

text \<open>The address storage the system filled in: its family and the fields of the two kinds.\<close>

record sockaddr =
  sa_family :: int
  sin_addr :: bytes
  sin_port :: bytes
  sin6_addr :: bytes
  sin6_port :: bytes
  sin6_flowinfo :: bytes
  sin6_scope_id :: "32 word"

definition decode_peer :: "c_abi \<Rightarrow> sockaddr \<Rightarrow> nat \<Rightarrow> udp_error + socket_addr" where
  "decode_peer abi address len =
     (if sa_family address = abi_af_inet abi \<and> abi_sockaddr_in_size abi \<le> len
      then Inr (SockV4 (v4_of_bytes (sin_addr address))
                  (word_of_int (be_val 256 (map uint (sin_port address)))))
      else if sa_family address = abi_af_inet6 abi \<and> abi_sockaddr_in6_size abi \<le> len
      then (let ip = v6_of_bytes (sin6_addr address)
            in if to_ipv4_mapped ip \<noteq> None then Inl (BadPacket MappedPeer)
               else Inr (SockV6 ip (word_of_int (be_val 256 (map uint (sin6_port address))))
                           (word_of_int (be_val 256 (map uint (sin6_flowinfo address))))
                           (sin6_scope_id address)))
      else Inl (BadPacket BadPeerAddress))"

section \<open>Control messages\<close>

text \<open>One message's payload: packet information, or nothing the program uses.\<close>

definition decode_payload :: "c_abi \<Rightarrow> bool \<Rightarrow> 32 word \<Rightarrow> 32 word \<Rightarrow> bytes \<Rightarrow> udp_error + packet_info option" where
  "decode_payload abi ipv6 level kind payload =
     (if (level, kind) = (abi_ipproto_ip abi, abi_ip_pktinfo abi)
      then (if ipv6 \<or> length payload \<noteq> abi_in_size abi then Inl (BadPacket BadV4Metadata)
            else let packet = abi_read_in abi payload;
                     local = v4_of_bytes (ipi_spec_dst packet);
                     destination = v4_of_bytes (ipi_addr packet)
                 in if destination \<noteq> local \<or> ipi_ifindex packet \<le> 0
                    then Inl (BadPacket NonUnicastDestination)
                    else Inr (Some \<lparr>pi_local_addr = V4 local,
                                    pi_if_index = word_of_int (ipi_ifindex packet)\<rparr>))
      else if (level, kind) = (abi_ipproto_ipv6 abi, abi_ipv6_pktinfo abi)
      then (if \<not> ipv6 \<or> length payload \<noteq> abi_in6_size abi then Inl (BadPacket BadV6Metadata)
            else let packet = abi_read_in6 abi payload
                 in Inr (Some \<lparr>pi_local_addr = V6 (v6_of_bytes (ipi6_addr packet)),
                               pi_if_index = ipi6_ifindex packet\<rparr>))
      else Inr None)"

text \<open>The loop over the messages. Every iteration consumes at least a header, so one more
  iteration than there are bytes is enough; \<open>None\<close> would be an iteration too many.\<close>

fun decode_messages ::
    "nat \<Rightarrow> c_abi \<Rightarrow> bool \<Rightarrow> bytes \<Rightarrow> packet_info option \<Rightarrow> (udp_error + packet_info) option" where
  "decode_messages 0 abi ipv6 control result = None"
| "decode_messages (Suc fuel) abi ipv6 control result =
     (if length control < abi_cmsghdr_size abi
      then Some (ok_or (BadPacket MissingMetadata) result)
      else let header = abi_read_cmsghdr abi control;
               header_length = cmsg_len_of abi 0;
               len = cmsg_len header
           in if len < header_length \<or> length control < len
              then Some (Inl (BadPacket BadControlLength))
              else let rest = drop (align_up (abi_usize abi) len) control
                   in (case decode_payload abi ipv6 (cmsg_level header) (cmsg_type header)
                              (drop header_length (take len control)) of
                         Inl e \<Rightarrow> Some (Inl e)
                       | Inr None \<Rightarrow> decode_messages fuel abi ipv6 rest result
                       | Inr (Some info) \<Rightarrow>
                           (case validate_info info ipv6 of
                              Inl e \<Rightarrow> Some (Inl e)
                            | Inr _ \<Rightarrow>
                                if result \<noteq> None then Some (Inl (BadPacket DuplicateMetadata))
                                else decode_messages fuel abi ipv6 rest (Some info))))"

definition decode_info :: "c_abi \<Rightarrow> bytes \<Rightarrow> bool \<Rightarrow> (udp_error + packet_info) option" where
  "decode_info abi control ipv6 = decode_messages (Suc (length control)) abi ipv6 control None"

text \<open>\<^verbatim>\<open>fill_control\<close>: a header, padding up to the payload, the payload, padding up to the
  alignment.\<close>

definition fill_control :: "c_abi \<Rightarrow> 32 word \<Rightarrow> 32 word \<Rightarrow> bytes \<Rightarrow> bytes" where
  "fill_control abi level kind payload =
     (let header = abi_write_cmsghdr abi
                     \<lparr>cmsg_len = cmsg_len_of abi (length payload), cmsg_level = level, cmsg_type = kind\<rparr>;
          used = header @ replicate (cmsg_len_of abi 0 - length header) 0 @ payload
      in used @ replicate (cmsg_space_of abi (length payload) - length used) 0)"

definition reply_control :: "c_abi \<Rightarrow> packet_info \<Rightarrow> bytes" where
  "reply_control abi info =
     (case pi_local_addr info of
        V4 a \<Rightarrow>
          fill_control abi (abi_ipproto_ip abi) (abi_ip_pktinfo abi)
            (abi_write_in abi \<lparr>ipi_ifindex = sint (pi_if_index info), ipi_spec_dst = v4_bytes a,
                               ipi_addr = [0, 0, 0, 0]\<rparr>)
      | V6 a \<Rightarrow>
          fill_control abi (abi_ipproto_ipv6 abi) (abi_ipv6_pktinfo abi)
            (abi_write_in6 abi \<lparr>ipi6_addr = v6_bytes a, ipi6_ifindex = pi_if_index info\<rparr>))"

section \<open>The socket\<close>

text \<open>\<^verbatim>\<open>PacketSocket::new\<close>: the option that is switched on.\<close>

definition packet_socket_option :: "c_abi \<Rightarrow> bool \<Rightarrow> 32 word \<times> 32 word" where
  "packet_socket_option abi ipv6 =
     (if ipv6 then (abi_ipproto_ipv6 abi, abi_ipv6_recvpktinfo abi)
      else (abi_ipproto_ip abi, abi_ip_pktinfo abi))"

text \<open>What a \<^verbatim>\<open>recvmsg\<close> gives: the datagram, whether it or its control data were cut, the
  sender, and the control data with its length.\<close>

record received =
  rm_data :: bytes
  rm_truncated :: bool
  rm_address :: sockaddr
  rm_namelen :: nat
  rm_control :: bytes
  rm_controllen :: nat

definition recv_once ::
    "c_abi \<Rightarrow> bool \<Rightarrow> udp_error + received \<Rightarrow> (udp_error + bytes \<times> socket_addr \<times> packet_info) option" where
  "recv_once abi ipv6 message =
     (case message of
        Inl e \<Rightarrow> Some (Inl e)
      | Inr m \<Rightarrow>
          if rm_truncated m then Some (Inl (BadPacket TruncatedDatagram))
          else (case decode_peer abi (rm_address m) (rm_namelen m) of
                  Inl e \<Rightarrow> Some (Inl e)
                | Inr peer \<Rightarrow>
                    if sock_is_ipv6 peer \<noteq> ipv6 then Some (Inl (BadPacket FamiliesDiffer))
                    else if length (rm_control m) < rm_controllen m
                    then Some (Inl (BadPacket BadControlLength))
                    else map_option (\<lambda>r. rbind r (\<lambda>info. Inr (rm_data m, peer, info)))
                           (decode_info abi (take (rm_controllen m) (rm_control m)) ipv6)))"

text \<open>The loop around a non-blocking call: attempts that would block or were interrupted are
  repeated. The list is what the attempts give; \<open>None\<close> means the call is still waiting.\<close>

fun retry_io :: "(udp_error + 'a) list \<Rightarrow> (udp_error + 'a) option" where
  "retry_io [] = None"
| "retry_io (r # rs) =
     (case r of
        Inl e \<Rightarrow> if error_kind e = WouldBlock \<or> error_kind e = Interrupted then retry_io rs else Some (Inl e)
      | Inr x \<Rightarrow> Some (Inr x))"

record sent_datagram =
  sd_data :: bytes
  sd_peer :: socket_addr
  sd_control :: bytes

text \<open>\<^verbatim>\<open>send\<close>: the checks and the message every attempt hands to the system
  (\<^verbatim>\<open>send_once\<close>), and the number of bytes sent.\<close>

definition prepare_send ::
    "c_abi \<Rightarrow> bool \<Rightarrow> bytes \<Rightarrow> socket_addr \<Rightarrow> packet_info \<Rightarrow> udp_error + sent_datagram" where
  "prepare_send abi ipv6 buf peer info =
     (case validate_info info ipv6 of
        Inl e \<Rightarrow> Inl e
      | Inr _ \<Rightarrow>
          if sock_is_ipv6 peer \<noteq> ipv6 then Inl (BadPacket FamiliesDiffer)
          else Inr \<lparr>sd_data = buf, sd_peer = peer, sd_control = reply_control abi info\<rparr>)"

definition send_packet ::
    "c_abi \<Rightarrow> bool \<Rightarrow> bytes \<Rightarrow> socket_addr \<Rightarrow> packet_info \<Rightarrow> (sent_datagram \<Rightarrow> (udp_error + nat) list)
     \<Rightarrow> (udp_error + nat) option" where
  "send_packet abi ipv6 buf peer info attempts =
     (case prepare_send abi ipv6 buf peer info of
        Inl e \<Rightarrow> Some (Inl e)
      | Inr datagram \<Rightarrow> retry_io (attempts datagram))"

section \<open>What is accepted\<close>

lemma validate_info_Inr:
  "validate_info info ipv6 = Inr u \<longleftrightarrow>
     valid_local_addr (pi_local_addr info) ipv6 \<and> pi_if_index info \<noteq> 0
     \<and> (ipv6 \<or> pi_if_index info \<le> 0x7FFFFFFF)"
  by (auto simp: validate_info_def not_less)

lemma decode_messages_valid:
  assumes "decode_messages fuel abi ipv6 control result = Some (Inr info)"
    and "\<forall>i. result = Some i \<longrightarrow> validate_info i ipv6 = Inr ()"
  shows "validate_info info ipv6 = Inr ()"
  using assms
proof (induction fuel abi ipv6 control result rule: decode_messages.induct)
  case (2 fuel abi ipv6 control result)
  then show ?case
    by (auto simp: Let_def split: if_splits sum.splits option.splits)
qed simp

lemma decode_info_valid: "decode_info abi control ipv6 = Some (Inr info) \<Longrightarrow> validate_info info ipv6 = Inr ()"
  unfolding decode_info_def by (erule decode_messages_valid) simp

lemma align_up_ge: "0 < a \<Longrightarrow> n \<le> align_up a n"
proof -
  assume a: "0 < a"
  have "(n + a - 1) mod a < a" using a by simp
  then have "n + a - 1 < align_up a n + a"
    using div_mult_mod_eq [of "n + a - 1" a] unfolding align_up_def by linarith
  then show ?thesis by simp
qed

lemma decode_messages_enough:
  assumes "0 < abi_usize abi" and "0 < abi_cmsghdr_size abi" and "length control < fuel"
  shows "decode_messages fuel abi ipv6 control result \<noteq> None"
  using assms(3)
proof (induction fuel arbitrary: control result)
  case (Suc fuel)
  let ?len = "cmsg_len (abi_read_cmsghdr abi control)"
  have shorter: "length (drop (align_up (abi_usize abi) ?len) control) < fuel"
    if "cmsg_len_of abi 0 \<le> ?len" "abi_cmsghdr_size abi \<le> length control"
  proof -
    have "0 < cmsg_len_of abi 0"
      using align_up_ge [OF assms(1), of "abi_cmsghdr_size abi"] assms(2) by (simp add: cmsg_len_of_def)
    then have "0 < align_up (abi_usize abi) ?len"
      using that(1) align_up_ge [OF assms(1), of ?len] by linarith
    then show ?thesis using Suc.prems that(2) assms(2) by simp
  qed
  show ?case
    using Suc.IH shorter
    by (auto simp: Let_def not_less split: sum.splits option.splits)
qed simp

section \<open>A control message read back\<close>

lemma align_up_dvd: "a dvd align_up a n"
  by (simp add: align_up_def)

lemma align_up_add:
  assumes "0 < a" and "a dvd h"
  shows "align_up a (h + n) = h + align_up a n"
proof -
  obtain k where h: "h = a * k" using assms(2) by (elim dvdE)
  define m where m: "m = n + a - 1"
  have "h + n + a - 1 = a * k + m" using assms(1) by (simp add: h m)
  then have "(h + n + a - 1) div a = (a * k + m) div a" by simp
  also have "\<dots> = k + m div a" using assms(1) by simp
  also have "\<dots> = k + (n + a - 1) div a" by (simp only: m)
  finally show ?thesis by (simp add: align_up_def h algebra_simps)
qed

lemma abi_okD:
  assumes "abi_ok abi"
  shows "0 < abi_usize abi" "0 < abi_cmsghdr_size abi"
    "length (abi_write_cmsghdr abi h) = abi_cmsghdr_size abi"
    "cmsg_len h \<le> 128 \<Longrightarrow> abi_read_cmsghdr abi (abi_write_cmsghdr abi h @ rest) = h"
    "length (ipi6_addr p) = 16 \<Longrightarrow> length (abi_write_in6 abi p) = abi_in6_size abi"
    "length (ipi6_addr p) = 16 \<Longrightarrow> abi_read_in6 abi (abi_write_in6 abi p) = p"
    "(abi_ipproto_ip abi, abi_ip_pktinfo abi) \<noteq> (abi_ipproto_ipv6 abi, abi_ipv6_pktinfo abi)"
    "cmsg_space_of abi (abi_in_size abi) \<le> 128" "cmsg_space_of abi (abi_in6_size abi) \<le> 128"
  using assms unfolding abi_ok_def by blast+

lemma abi_okD_v4:
  assumes "abi_ok abi" and "length (ipi_spec_dst q) = 4" "length (ipi_addr q) = 4"
  shows "length (abi_write_in abi q) = abi_in_size abi"
    "- (2 ^ 31) \<le> ipi_ifindex q \<Longrightarrow> ipi_ifindex q < 2 ^ 31 \<Longrightarrow> abi_read_in abi (abi_write_in abi q) = q"
  using assms unfolding abi_ok_def by blast+

lemma decode_messages_step:
  assumes "abi_read_cmsghdr abi control = header" and "abi_cmsghdr_size abi \<le> length control"
    and "cmsg_len_of abi 0 \<le> cmsg_len header" and "cmsg_len header \<le> length control"
    and "drop (cmsg_len_of abi 0) (take (cmsg_len header) control) = payload"
    and "drop (align_up (abi_usize abi) (cmsg_len header)) control = rest"
  shows "decode_messages (Suc fuel) abi ipv6 control result =
     (case decode_payload abi ipv6 (cmsg_level header) (cmsg_type header) payload of
        Inl e \<Rightarrow> Some (Inl e)
      | Inr None \<Rightarrow> decode_messages fuel abi ipv6 rest result
      | Inr (Some info) \<Rightarrow>
          (case validate_info info ipv6 of
             Inl e \<Rightarrow> Some (Inl e)
           | Inr _ \<Rightarrow>
               if result \<noteq> None then Some (Inl (BadPacket DuplicateMetadata))
               else decode_messages fuel abi ipv6 rest (Some info)))"
  using assms by (simp add: Let_def)

lemma decode_messages_end:
  "0 < abi_cmsghdr_size abi \<Longrightarrow>
   decode_messages (Suc fuel) abi ipv6 [] result = Some (ok_or (BadPacket MissingMetadata) result)"
  by simp

text \<open>The loop over a buffer that holds one message.\<close>

lemma decode_single:
  assumes abi: "abi_ok abi" and fits: "cmsg_space_of abi (length payload) \<le> 128"
  shows "decode_info abi (fill_control abi level kind payload) ipv6 =
     Some (rbind (decode_payload abi ipv6 level kind payload) (\<lambda>found.
       case found of
         None \<Rightarrow> Inl (BadPacket MissingMetadata)
       | Some info \<Rightarrow> rbind (validate_info info ipv6) (\<lambda>_. Inr info)))"
proof -
  note ok = abi_okD [OF abi]
  let ?a = "abi_usize abi"
  let ?h = "cmsg_len_of abi 0"
  let ?n = "length payload"
  let ?hdr = "\<lparr>cmsg_len = cmsg_len_of abi ?n, cmsg_level = level, cmsg_type = kind\<rparr>"
  let ?w = "abi_write_cmsghdr abi ?hdr"
  let ?pad = "replicate (?h - length ?w) (0 :: 8 word)"
  let ?used = "?w @ ?pad @ payload"
  let ?tail = "replicate (cmsg_space_of abi ?n - length ?used) (0 :: 8 word)"
  have c: "fill_control abi level kind payload = ?used @ ?tail"
    by (simp add: fill_control_def Let_def)
  have h_ge: "abi_cmsghdr_size abi \<le> ?h" using align_up_ge [OF ok(1)] by (simp add: cmsg_len_of_def)
  then have len_wp: "length (?w @ ?pad) = ?h" using ok(3) by simp
  then have len_used: "length ?used = ?h + ?n" by simp
  have len: "cmsg_len_of abi ?n = ?h + ?n" by (simp add: cmsg_len_of_def)
  have space: "cmsg_space_of abi ?n = ?h + align_up ?a ?n"
    by (simp add: cmsg_space_of_def cmsg_len_of_def)
  have n_le: "?n \<le> align_up ?a ?n" using align_up_ge [OF ok(1)] .
  have read: "abi_read_cmsghdr abi (?used @ ?tail) = ?hdr"
    using ok(4) [of ?hdr] fits n_le space len by simp
  have total: "length (?used @ ?tail) = ?h + align_up ?a ?n" using len_used n_le space by simp
  have round: "align_up ?a (?h + ?n) = ?h + align_up ?a ?n"
    using ok(1) by (intro align_up_add) (simp_all add: cmsg_len_of_def align_up_dvd)
  have rest: "drop (align_up ?a (?h + ?n)) (?used @ ?tail) = []" using total round by simp
  have "take (?h + ?n) (?used @ ?tail) = ?used" using len_used by simp
  moreover have "drop ?h ?used = payload" using len_wp by (metis append.assoc append_eq_conv_conj)
  ultimately have body: "drop ?h (take (?h + ?n) (?used @ ?tail)) = payload" by (simp only:)
  obtain fuel where fuel: "length (?used @ ?tail) = Suc fuel"
    using total h_ge ok(2) by (cases "length (?used @ ?tail)") auto
  define control where "control = ?used @ ?tail"
  have hdr_len: "cmsg_len ?hdr = ?h + ?n" by (simp only: len cmsghdr.simps)
  have step: "decode_messages (Suc (Suc fuel)) abi ipv6 control None =
     (case decode_payload abi ipv6 (cmsg_level ?hdr) (cmsg_type ?hdr) payload of
        Inl e \<Rightarrow> Some (Inl e)
      | Inr None \<Rightarrow> decode_messages (Suc fuel) abi ipv6 [] None
      | Inr (Some info) \<Rightarrow>
          (case validate_info info ipv6 of
             Inl e \<Rightarrow> Some (Inl e)
           | Inr _ \<Rightarrow>
               if None \<noteq> (None :: packet_info option) then Some (Inl (BadPacket DuplicateMetadata))
               else decode_messages (Suc fuel) abi ipv6 [] (Some info)))"
  proof (rule decode_messages_step)
    show "abi_read_cmsghdr abi control = ?hdr" unfolding control_def by (rule read)
    show "abi_cmsghdr_size abi \<le> length control" unfolding control_def total using h_ge by simp
    show "cmsg_len_of abi 0 \<le> cmsg_len ?hdr" unfolding cmsghdr.simps len by simp
    show "cmsg_len ?hdr \<le> length control" unfolding cmsghdr.simps len control_def total using n_le by simp
    show "drop (cmsg_len_of abi 0) (take (cmsg_len ?hdr) control) = payload"
      using body by (simp only: hdr_len control_def)
    show "drop (align_up (abi_usize abi) (cmsg_len ?hdr)) control = []"
      using rest by (simp only: hdr_len control_def)
  qed
  have fuel': "length control = Suc fuel" using fuel by (simp only: control_def)
  show ?thesis
    unfolding decode_info_def c control_def [symmetric] fuel' step decode_messages_end [OF ok(2)]
    by (simp split: sum.split option.split)
qed

lemma length_octet_bytes [simp]: "length (v4_bytes a) = 4" "length (v6_bytes b) = 16"
  by (simp_all add: v4_bytes_def v6_bytes_def v4_octets_def v6_octets_def)

lemma uint_octets:
  "\<forall>d\<in>set ds. 0 \<le> d \<and> d < 256 \<Longrightarrow> map uint (map word_of_int ds :: bytes) = ds"
  by (induction ds) (simp_all add: unsigned_of_int take_bit_int_eq_self)

lemma v4_of_v4_bytes [simp]: "v4_of_bytes (v4_bytes a) = a"
proof -
  have "map uint (v4_bytes a) = v4_octets a"
    unfolding v4_bytes_def by (rule uint_octets) (use be_digits_range [of 256] in \<open>auto simp: v4_octets_def\<close>)
  moreover have "uint a mod 256 ^ 4 = uint a"
    using uint_bounded [of a] by (intro mod_pos_pos_trivial) simp_all
  ultimately show ?thesis by (simp only: v4_of_bytes_def v4_octets_def be_val_be_digits) simp
qed

lemma v6_of_v6_bytes [simp]: "v6_of_bytes (v6_bytes a) = a"
proof -
  have "map uint (v6_bytes a) = v6_octets a"
    unfolding v6_bytes_def by (rule uint_octets) (use be_digits_range [of 256] in \<open>auto simp: v6_octets_def\<close>)
  moreover have "uint a mod 256 ^ 16 = uint a"
    using uint_bounded [of a] by (intro mod_pos_pos_trivial) simp_all
  ultimately show ?thesis by (simp only: v6_of_bytes_def v6_octets_def be_val_be_digits) simp
qed

text \<open>IPv6: what a reply is sent with is what reception would decode.\<close>

lemma reply_control_v6:
  assumes "abi_ok abi" and "validate_info info True = Inr ()"
  shows "decode_info abi (reply_control abi info) True = Some (Inr info)"
proof -
  obtain a where a: "pi_local_addr info = V6 a"
    using assms(2) by (cases "pi_local_addr info") (simp_all add: validate_info_Inr valid_local_addr_def)
  let ?p = "\<lparr>ipi6_addr = v6_bytes a, ipi6_ifindex = pi_if_index info\<rparr>"
  have len: "length (abi_write_in6 abi ?p) = abi_in6_size abi"
    and read: "abi_read_in6 abi (abi_write_in6 abi ?p) = ?p"
    using abi_okD(5,6) [OF assms(1), of ?p] by simp_all
  have "decode_payload abi True (abi_ipproto_ipv6 abi) (abi_ipv6_pktinfo abi) (abi_write_in6 abi ?p)
      = Inr (Some info)"
    using abi_okD(7) [OF assms(1)] a by (auto simp: decode_payload_def len read)
  then show ?thesis
    using decode_single [OF assms(1), of "abi_write_in6 abi ?p"] abi_okD(9) [OF assms(1)] assms(2)
    by (simp add: reply_control_def a len)
qed

text \<open>IPv4: the structure in the reply names the local address as the source and the interface
  the request came in on.\<close>

lemma reply_control_v4:
  assumes "abi_ok abi" and "pi_local_addr info = V4 a" and "pi_if_index info \<le> 0x7FFFFFFF"
  shows "\<exists>payload. reply_control abi info = fill_control abi (abi_ipproto_ip abi) (abi_ip_pktinfo abi) payload
     \<and> abi_read_in abi payload = \<lparr>ipi_ifindex = uint (pi_if_index info), ipi_spec_dst = v4_bytes a,
                                  ipi_addr = [0, 0, 0, 0]\<rparr>"
proof -
  have "uint (pi_if_index info) \<le> 0x7FFFFFFF" using assms(3) by (simp add: word_le_def)
  moreover have "- (2 ^ 31) \<le> uint (pi_if_index info)"
    by (rule order_trans [of _ 0]) simp_all
  ultimately have s: "sint (pi_if_index info) = uint (pi_if_index info)"
    using signed_take_bit_int_eq_self [of 31 "uint (pi_if_index info)"] by (simp add: sint_uint)
  then show ?thesis
    using abi_okD_v4(2) [OF assms(1), of "\<lparr>ipi_ifindex = uint (pi_if_index info), ipi_spec_dst = v4_bytes a,
        ipi_addr = [0, 0, 0, 0]\<rparr>"] \<open>- (2 ^ 31) \<le> uint (pi_if_index info)\<close> \<open>uint (pi_if_index info) \<le> 0x7FFFFFFF\<close>
    by (intro exI conjI) (simp_all add: reply_control_def assms(2))
qed

end
