(* ===== verification/Udp_Ingress.thy ===== *)
theory Udp_Ingress
  imports Udp_Packet Server_Config
begin

text \<open>
  The UDP ingress (src/udp/mod.rs): which senders are served, what a request task does with a
  datagram, how a response is encoded and sent, and the serving loop. Parsing and encoding of
  DNS messages are the server library's (\<open>dns_proto\<close>); the request handler is a parameter that
  gives the responses it sends for a request.
\<close>

section \<open>Requests and responses\<close>

definition safe_peer :: "socket_addr \<Rightarrow> bool" where
  "safe_peer peer =
     (if sock_port peer = 0 \<or> is_unspecified (sock_ip peer) \<or> is_multicast (sock_ip peer) then False
      else (case sock_ip peer of
              V4 ip \<Rightarrow> \<not> v4_is_broadcast ip
            | V6 ip \<Rightarrow>
                (case to_ipv4_mapped ip of
                   None \<Rightarrow> True
                 | Some ip4 \<Rightarrow> \<not> v4_is_unspecified ip4 \<and> \<not> v4_is_broadcast ip4 \<and> \<not> v4_is_multicast ip4)))"

datatype message_type = MT_Query | MT_Response

datatype op_code = OP_Query | OP_Other "8 word"

record metadata =
  md_id :: "16 word"
  md_type :: message_type
  md_op :: op_code
  md_rcode :: response_code

record header =
  hd_metadata :: metadata
  hd_counts :: "(16 word) list"

record ('req, 'query, 'resp) dns_proto =
  header_read :: "bytes \<Rightarrow> string + header"
  request_from_bytes :: "bytes \<Rightarrow> socket_addr \<Rightarrow> string + 'req"
  request_queries :: "'req \<Rightarrow> 'query list"
  error_msg :: "header \<Rightarrow> response_code \<Rightarrow> 'resp"
  response_id :: "'resp \<Rightarrow> 16 word"
  response_max_payload :: "'resp \<Rightarrow> (16 word) option"
  response_emit :: "'resp \<Rightarrow> 16 word \<Rightarrow> string + bytes \<times> header"
  header_emit :: "header \<Rightarrow> string + bytes"

text \<open>The response handler of one request: it owns where the request came from and the local
  address it came to.\<close>

record 'query packet_response =
  pr_peer :: socket_addr
  pr_info :: packet_info
  pr_request_meta :: metadata
  pr_queries :: "'query list"

datatype ('req, 'query, 'resp) request_outcome =
    Dropped
  | Malformed "'query packet_response" 'resp
  | Handled 'req "'query packet_response"

definition form_err :: response_code where
  "form_err = RC_Other 1"

definition handle_request ::
    "('req, 'query, 'resp) dns_proto \<Rightarrow> bytes \<Rightarrow> socket_addr \<Rightarrow> packet_info
     \<Rightarrow> ('req, 'query, 'resp) request_outcome" where
  "handle_request proto bs peer info =
     (case header_read proto bs of
        Inl _ \<Rightarrow> Dropped
      | Inr header \<Rightarrow>
          if md_type (hd_metadata header) = MT_Response then Dropped
          else let response = \<lparr>pr_peer = peer, pr_info = info, pr_request_meta = hd_metadata header,
                               pr_queries = []\<rparr>
               in (case request_from_bytes proto bs peer of
                     Inl _ \<Rightarrow> Malformed response (error_msg proto header form_err)
                   | Inr request \<Rightarrow>
                       Handled request (response\<lparr>pr_queries := request_queries proto request\<rparr>)))"

text \<open>Encoding: the size the client announced, or 512; an encoding error becomes a bare header
  with SERVFAIL and the response's identifier.\<close>

definition servfail_header :: "16 word \<Rightarrow> header" where
  "servfail_header i =
     \<lparr>hd_metadata = \<lparr>md_id = i, md_type = MT_Response, md_op = OP_Query, md_rcode = RC_ServFail\<rparr>,
      hd_counts = [0, 0, 0, 0]\<rparr>"

definition encode_response ::
    "('req, 'query, 'resp) dns_proto \<Rightarrow> 'resp \<Rightarrow> udp_error + bytes \<times> header" where
  "encode_response proto response =
     (case response_emit proto response (unwrap_or 512 (response_max_payload proto response)) of
        Inr (bs, header) \<Rightarrow> Inr (bs, header)
      | Inl _ \<Rightarrow>
          let header = servfail_header (response_id proto response)
          in (case header_emit proto header of
                Inl e \<Rightarrow> Inl (EncodeFailed e)
              | Inr bs \<Rightarrow> Inr (bs, header)))"

definition send_response ::
    "('req, 'query, 'resp) dns_proto \<Rightarrow> c_abi \<Rightarrow> bool \<Rightarrow> (sent_datagram \<Rightarrow> (udp_error + nat) list)
     \<Rightarrow> 'query packet_response \<Rightarrow> 'resp \<Rightarrow> (udp_error + header) option" where
  "send_response proto abi ipv6 attempts handler response =
     (case encode_response proto response of
        Inl e \<Rightarrow> Some (Inl e)
      | Inr (bs, info) \<Rightarrow>
          map_option
            (\<lambda>r. case r of
                   Inl e \<Rightarrow> Inl e
                 | Inr sent \<Rightarrow> if sent \<noteq> length bs then Inl PartialWrite else Inr info)
            (send_packet abi ipv6 bs (pr_peer handler) (pr_info handler) attempts))"

text \<open>The datagrams one request task hands to the system: those of its response or of the
  responses the request handler sends through it.\<close>

definition response_datagram ::
    "('req, 'query, 'resp) dns_proto \<Rightarrow> c_abi \<Rightarrow> bool \<Rightarrow> 'query packet_response \<Rightarrow> 'resp
     \<Rightarrow> udp_error + sent_datagram" where
  "response_datagram proto abi ipv6 handler response =
     rbind (encode_response proto response) (\<lambda>(bs, _).
       prepare_send abi ipv6 bs (pr_peer handler) (pr_info handler))"

definition task_responses ::
    "('req \<Rightarrow> 'resp list) \<Rightarrow> ('req, 'query, 'resp) request_outcome \<Rightarrow> ('query packet_response \<times> 'resp) list" where
  "task_responses serve result =
     (case result of
        Dropped \<Rightarrow> []
      | Malformed handler response \<Rightarrow> [(handler, response)]
      | Handled request handler \<Rightarrow> map (Pair handler) (serve request))"

section \<open>The serving loop\<close>

text \<open>What a request task owns.\<close>

record request_task =
  rt_bytes :: bytes
  rt_peer :: socket_addr
  rt_info :: packet_info

text \<open>The branch of the \<^verbatim>\<open>select\<close> that is taken: the shutdown future, the end of the request
  task at a position, or the next datagram or receive error.\<close>

datatype ingress_event =
    Shutdown
  | RequestEnded nat
  | Packet "udp_error + bytes \<times> socket_addr \<times> packet_info"

record ingress =
  ig_requests :: "request_task list"
  ig_spawned :: "request_task list"

definition raw_os_error :: "udp_error \<Rightarrow> int option" where
  "raw_os_error e = (case e of OsError _ n \<Rightarrow> Some n | _ \<Rightarrow> None)"

definition fatal_receive_error :: "udp_error \<Rightarrow> bool" where
  "fatal_receive_error e \<longleftrightarrow>
     error_kind e \<noteq> InvalidData
     \<and> (error_kind e = NotConnected \<or> error_kind e = ConnectionAborted
        \<or> raw_os_error e = Some 9 \<or> raw_os_error e = Some 88)"

definition task_of :: "bytes \<times> socket_addr \<times> packet_info \<Rightarrow> request_task" where
  "task_of packet = (case packet of (bs, peer, info) \<Rightarrow> \<lparr>rt_bytes = bs, rt_peer = peer, rt_info = info\<rparr>)"

text \<open>One iteration: the loop's result when it returns, which cancels the requests in flight.\<close>

definition ingress_step :: "ingress_event \<Rightarrow> ingress \<Rightarrow> (udp_error + unit) option \<times> ingress" where
  "ingress_step event s =
     (case event of
        Shutdown \<Rightarrow> (Some (Inr ()), s\<lparr>ig_requests := []\<rparr>)
      | RequestEnded n \<Rightarrow>
          (None, s\<lparr>ig_requests := take n (ig_requests s) @ drop (Suc n) (ig_requests s)\<rparr>)
      | Packet (Inl e) \<Rightarrow>
          if fatal_receive_error e then (Some (Inl e), s\<lparr>ig_requests := []\<rparr>) else (None, s)
      | Packet (Inr packet) \<Rightarrow>
          let task = task_of packet
          in if \<not> safe_peer (rt_peer task) then (None, s)
             else (None, s\<lparr>ig_requests := ig_requests s @ [task], ig_spawned := ig_spawned s @ [task]\<rparr>))"

fun ingress_run :: "ingress_event list \<Rightarrow> ingress \<Rightarrow> (udp_error + unit) option \<times> ingress" where
  "ingress_run [] s = (None, s)"
| "ingress_run (event # events) s =
     (case ingress_step event s of
        (Some r, s') \<Rightarrow> (Some r, s')
      | (None, s') \<Rightarrow> ingress_run events s')"

definition ingress_start :: ingress where
  "ingress_start = \<lparr>ig_requests = [], ig_spawned = []\<rparr>"

section \<open>Senders\<close>

text \<open>A peer reception produced is never an IPv4-mapped address, so its family alone decides the
  last test.\<close>

lemma safe_peer_iff:
  "safe_peer peer \<longleftrightarrow>
     sock_port peer \<noteq> 0 \<and> \<not> is_unspecified (sock_ip peer) \<and> \<not> is_multicast (sock_ip peer)
     \<and> (\<forall>a. (sock_ip peer = V4 a \<or> (\<exists>b. sock_ip peer = V6 b \<and> to_ipv4_mapped b = Some a)) \<longrightarrow>
            a \<noteq> 0 \<and> a \<noteq> 0xFFFFFFFF \<and> \<not> v4_is_multicast a)"
  by (cases "sock_ip peer")
    (auto simp: safe_peer_def v4_is_unspecified_def v4_is_broadcast_def split: option.split)

text \<open>The events that end the loop, and the task a datagram becomes.\<close>

definition stops :: "ingress_event \<Rightarrow> (udp_error + unit) option" where
  "stops event =
     (case event of
        Shutdown \<Rightarrow> Some (Inr ())
      | Packet (Inl e) \<Rightarrow> if fatal_receive_error e then Some (Inl e) else None
      | _ \<Rightarrow> None)"

definition accepted :: "ingress_event \<Rightarrow> request_task option" where
  "accepted event =
     (case event of
        Packet (Inr packet) \<Rightarrow> if safe_peer (rt_peer (task_of packet)) then Some (task_of packet) else None
      | _ \<Rightarrow> None)"

lemma ingress_step_result: "fst (ingress_step event s) = stops event"
  by (auto simp: ingress_step_def stops_def Let_def split: ingress_event.split sum.split)

lemma ingress_step_spawned:
  "ig_spawned (snd (ingress_step event s)) = ig_spawned s @ List.map_filter accepted [event]"
  by (auto simp: ingress_step_def accepted_def Let_def List.map_filter_simps
      split: ingress_event.split sum.split)

lemma ingress_step_stopped: "stops event = Some r \<Longrightarrow> ig_requests (snd (ingress_step event s)) = []"
  by (auto simp: ingress_step_def stops_def split: ingress_event.splits sum.splits if_splits)

lemma ingress_step_requests:
  "set (ig_requests s) \<subseteq> set (ig_spawned s) \<Longrightarrow>
   set (ig_requests (snd (ingress_step event s))) \<subseteq> set (ig_spawned (snd (ingress_step event s)))"
  by (auto simp: ingress_step_def Let_def split: ingress_event.split sum.split
      dest: in_set_takeD in_set_dropD)

lemma stops_not_accepted: "stops event = Some r \<Longrightarrow> List.map_filter accepted [event] = []"
  by (auto simp: stops_def accepted_def List.map_filter_simps split: ingress_event.splits sum.splits)

lemma ingress_run_step:
  "ingress_run (event # events) s =
     (case stops event of
        Some r \<Rightarrow> (Some r, snd (ingress_step event s))
      | None \<Rightarrow> ingress_run events (snd (ingress_step event s)))"
  using ingress_step_result [of event s]
  by (cases "ingress_step event s") (auto simp: ingress_run.simps split: option.split)

declare ingress_run.simps(2) [simp del]

abbreviation running :: "ingress_event \<Rightarrow> bool" where
  "running event \<equiv> stops event = None"

lemma ingress_run_spawned:
  "ig_spawned (snd (ingress_run events s)) =
     ig_spawned s @ List.map_filter accepted (takeWhile running events)"
proof (induction events arbitrary: s)
  case (Cons event events)
  then show ?case
    using ingress_step_spawned [of event s] stops_not_accepted [of event]
    by (cases "stops event") (auto simp: ingress_run_step List.map_filter_simps split: option.splits)
qed (simp add: List.map_filter_simps)

lemma ingress_run_result:
  "fst (ingress_run events s) =
     (case dropWhile running events of [] \<Rightarrow> None | event # _ \<Rightarrow> stops event)"
  by (induction events arbitrary: s) (auto simp: ingress_run_step split: option.split)

lemma ingress_run_stopped:
  "fst (ingress_run events s) \<noteq> None \<Longrightarrow> ig_requests (snd (ingress_run events s)) = []"
  by (induction events arbitrary: s)
    (auto simp: ingress_run_step ingress_step_stopped split: option.splits)

lemma ingress_run_requests:
  "set (ig_requests s) \<subseteq> set (ig_spawned s) \<Longrightarrow>
   set (ig_requests (snd (ingress_run events s))) \<subseteq> set (ig_spawned (snd (ingress_run events s)))"
  by (induction events arbitrary: s)
    (auto simp: ingress_run_step ingress_step_requests split: option.split)

lemmas ingress_run_facts = ingress_run_spawned ingress_run_result ingress_run_stopped ingress_run_requests

section \<open>Responses\<close>

lemma prepare_send_Inr:
  "prepare_send abi ipv6 buf peer info = Inr d \<longleftrightarrow>
     validate_info info ipv6 = Inr () \<and> sock_is_ipv6 peer = ipv6
     \<and> d = \<lparr>sd_data = buf, sd_peer = peer, sd_control = reply_control abi info\<rparr>"
  by (auto simp: prepare_send_def split: sum.split)

text \<open>A datagram reception delivers: its sender is of the socket's family, its packet information
  passed the checks.\<close>

lemma recv_once_Inr:
  assumes "recv_once abi ipv6 message = Some (Inr (bs, peer, info))"
  shows "sock_is_ipv6 peer = ipv6" and "validate_info info ipv6 = Inr ()"
    and "\<exists>m. message = Inr m \<and> bs = rm_data m \<and> \<not> rm_truncated m
            \<and> decode_peer abi (rm_address m) (rm_namelen m) = Inr peer"
  using assms
  by (auto simp: recv_once_def rbind_Inr_iff split: sum.splits if_splits dest: decode_info_valid)

text \<open>What a task sends goes back to the sender, and never for a datagram that is itself a
  response.\<close>

lemma task_responses_props:
  assumes "(handler, response) \<in> set (task_responses serve (handle_request proto bs peer info))"
  shows "pr_peer handler = peer" and "pr_info handler = info"
    and "\<exists>header. header_read proto bs = Inr header \<and> md_type (hd_metadata header) = MT_Query
           \<and> pr_request_meta handler = hd_metadata header"
proof -
  obtain header where h: "header_read proto bs = Inr header"
    and q: "md_type (hd_metadata header) \<noteq> MT_Response"
    using assms by (auto simp: handle_request_def task_responses_def split: sum.splits if_splits)
  have "md_type (hd_metadata header) = MT_Query" using q by (cases "md_type (hd_metadata header)") simp_all
  then show "pr_peer handler = peer" "pr_info handler = info"
    "\<exists>header. header_read proto bs = Inr header \<and> md_type (hd_metadata header) = MT_Query
           \<and> pr_request_meta handler = hd_metadata header"
    using assms h
    by (auto simp: handle_request_def task_responses_def Let_def split: sum.splits)
qed

lemma encode_response_cases:
  "encode_response proto response = Inr (bs, header) \<Longrightarrow>
     response_emit proto response (unwrap_or 512 (response_max_payload proto response)) = Inr (bs, header)
     \<or> header = servfail_header (response_id proto response) \<and> header_emit proto header = Inr bs"
  by (auto simp: encode_response_def Let_def split: sum.splits)

lemma send_response_Inr:
  assumes "send_response proto abi ipv6 attempts handler response = Some (Inr header)"
  shows "\<exists>bs d. encode_response proto response = Inr (bs, header)
     \<and> prepare_send abi ipv6 bs (pr_peer handler) (pr_info handler) = Inr d
     \<and> retry_io (attempts d) = Some (Inr (length bs))"
  using assms
  by (auto simp: send_response_def send_packet_def split: sum.splits if_splits)

end
