(* ===== verification/Udp_Server.thy ===== *)
theory Udp_Server
  imports Serving Udp_Ingress
begin

text \<open>
  A UDP listener in the running server: its serving loop (src/udp/mod.rs), the request tasks it
  starts, the catalog they ask (\<^verbatim>\<open>ReloadableCatalog\<close>) and the main loop that replaces it
  (src/bin/astra-dns.rs) as one system, with queries that come over TCP beside them. \<open>serve\<close> is
  the server library's handling of a request by a catalog.
\<close>

section \<open>The system\<close>

datatype 'query request_origin = FromUdp request_task "'query packet_response" | FromTcp

record ('n, 'm, 'rx, 'net, 'f, 'req, 'query, 'resp) udp_server =
  us_serving :: "('n, 'm, 'rx, 'net, 'f, 'query request_origin \<times> 'req, 'resp list) serving_state"
  us_open :: bool
  us_ingress :: ingress
  us_waiting :: "request_task list"
  us_sent :: "(request_task \<times> 'query packet_response \<times> 'resp \<times> sent_datagram) list"

definition udp_server_start where
  "udp_server_start ms =
     \<lparr>us_serving = serving_start ms, us_open = True, us_ingress = ingress_start, us_waiting = [], us_sent = []\<rparr>"

definition from_kernel :: "c_abi \<Rightarrow> bool \<Rightarrow> ingress_event \<Rightarrow> bool" where
  "from_kernel abi ipv6 event \<longleftrightarrow>
     (\<forall>packet. event = Packet packet \<longrightarrow> (\<exists>message. recv_once abi ipv6 message = Some packet))"

definition task_request where
  "task_request proto task = handle_request proto (rt_bytes task) (rt_peer task) (rt_info task)"

text \<open>The datagrams of a task's responses; the system may refuse to send some of them.\<close>

definition response_datagrams ::
    "('req, 'query, 'resp) dns_proto \<Rightarrow> c_abi \<Rightarrow> bool \<Rightarrow> request_task \<Rightarrow> 'query packet_response \<Rightarrow> 'resp list
     \<Rightarrow> (request_task \<times> 'query packet_response \<times> 'resp \<times> sent_datagram) set" where
  "response_datagrams proto abi ipv6 task handler responses =
     {(task, handler, response, d) |response d.
        response \<in> set responses \<and> response_datagram proto abi ipv6 handler response = Inr d}"

definition catalog_answers where
  "catalog_answers serve catalog query responses \<longleftrightarrow> serve catalog (snd query) responses"

definition is_tcp :: "('query request_origin \<times> 'req) \<times> 'c \<Rightarrow> bool" where
  "is_tcp query \<longleftrightarrow> fst (fst query) = FromTcp"

text \<open>When the loop returns, the tasks of the listener are cancelled.\<close>

inductive udp_server_step ::
    "('rx, 'net, 'c, 'r, 'res, 'n, 'm, 'f) system \<Rightarrow> ('req, 'query, 'resp) dns_proto \<Rightarrow> c_abi \<Rightarrow> bool
     \<Rightarrow> (('n, 'm, 'rx, 'net, 'f) catalog \<Rightarrow> 'req \<Rightarrow> 'resp list \<Rightarrow> bool)
     \<Rightarrow> ('n, 'm, 'rx, 'net, 'f, 'req, 'query, 'resp) udp_server
     \<Rightarrow> ('n, 'm, 'rx, 'net, 'f, 'req, 'query, 'resp) udp_server \<Rightarrow> bool"
  for sys proto abi ipv6 serve where
  listens: "us_open s \<Longrightarrow> from_kernel abi ipv6 event \<Longrightarrow> ingress_step event (us_ingress s) = (None, ig) \<Longrightarrow>
     udp_server_step sys proto abi ipv6 serve s
       (s\<lparr>us_ingress := ig,
          us_waiting := us_waiting s @ drop (length (ig_spawned (us_ingress s))) (ig_spawned ig)\<rparr>)"
| listener_ends: "us_open s \<Longrightarrow> from_kernel abi ipv6 event \<Longrightarrow>
     ingress_step event (us_ingress s) = (Some r, ig) \<Longrightarrow>
     udp_server_step sys proto abi ipv6 serve s
       (s\<lparr>us_ingress := ig, us_open := False, us_waiting := [],
          us_serving := (us_serving s)\<lparr>sg_inflight := filter is_tcp (sg_inflight (us_serving s))\<rparr>\<rparr>)"
| task_drops: "us_waiting s = ts @ task # ts' \<Longrightarrow> task_request proto task = Dropped \<Longrightarrow>
     udp_server_step sys proto abi ipv6 serve s (s\<lparr>us_waiting := ts @ ts'\<rparr>)"
| task_refuses: "us_waiting s = ts @ task # ts' \<Longrightarrow> task_request proto task = Malformed handler response \<Longrightarrow>
     set ds \<subseteq> response_datagrams proto abi ipv6 task handler [response] \<Longrightarrow>
     udp_server_step sys proto abi ipv6 serve s (s\<lparr>us_waiting := ts @ ts', us_sent := ds @ us_sent s\<rparr>)"
| task_asks: "us_waiting s = ts @ task # ts' \<Longrightarrow> task_request proto task = Handled request handler \<Longrightarrow>
     in_operation (us_serving s) \<Longrightarrow>
     udp_server_step sys proto abi ipv6 serve s
       (s\<lparr>us_waiting := ts @ ts',
          us_serving := catalog_request (FromUdp task handler, request) (us_serving s)\<rparr>)"
| tcp_asks: "in_operation (us_serving s) \<Longrightarrow>
     udp_server_step sys proto abi ipv6 serve s
       (s\<lparr>us_serving := catalog_request (FromTcp, request) (us_serving s)\<rparr>)"
| udp_answered: "in_operation (us_serving s) \<Longrightarrow>
     sg_inflight (us_serving s) = before @ ((FromUdp task handler, request), catalog) # after \<Longrightarrow>
     serve catalog request responses \<Longrightarrow>
     set ds \<subseteq> response_datagrams proto abi ipv6 task handler responses \<Longrightarrow>
     udp_server_step sys proto abi ipv6 serve s
       (s\<lparr>us_serving := (us_serving s)\<lparr>sg_inflight := before @ after,
            sg_answered := ((FromUdp task handler, request), catalog, responses) # sg_answered (us_serving s)\<rparr>,
          us_sent := ds @ us_sent s\<rparr>)"
| tcp_answered: "in_operation (us_serving s) \<Longrightarrow>
     sg_inflight (us_serving s) = before @ ((FromTcp, request), catalog) # after \<Longrightarrow>
     serve catalog request responses \<Longrightarrow>
     udp_server_step sys proto abi ipv6 serve s
       (s\<lparr>us_serving := (us_serving s)\<lparr>sg_inflight := before @ after,
            sg_answered := ((FromTcp, request), catalog, responses) # sg_answered (us_serving s)\<rparr>\<rparr>)"
| main_loop: "main_step sys (sg_main (us_serving s)) ms \<Longrightarrow>
     dropped (current_registry (us_serving s)) (sv_registry (ms_server ms)) \<inter> in_use (us_serving s) = {} \<Longrightarrow>
     udp_server_step sys proto abi ipv6 serve s (s\<lparr>us_serving := (us_serving s)\<lparr>sg_main := ms\<rparr>\<rparr>)"

inductive udp_server_reachable ::
    "('rx, 'net, 'c, 'r, 'res, 'n, 'm, 'f) system \<Rightarrow> ('req, 'query, 'resp) dns_proto \<Rightarrow> c_abi \<Rightarrow> bool
     \<Rightarrow> (('n, 'm, 'rx, 'net, 'f) catalog \<Rightarrow> 'req \<Rightarrow> 'resp list \<Rightarrow> bool)
     \<Rightarrow> ('n, 'm, 'rx, 'net, 'f, 'req, 'query, 'resp) udp_server
     \<Rightarrow> ('n, 'm, 'rx, 'net, 'f, 'req, 'query, 'resp) udp_server \<Rightarrow> bool"
  for sys proto abi ipv6 serve start where
  boot: "udp_server_reachable sys proto abi ipv6 serve start start"
| step: "udp_server_reachable sys proto abi ipv6 serve start s \<Longrightarrow>
     udp_server_step sys proto abi ipv6 serve s s' \<Longrightarrow>
     udp_server_reachable sys proto abi ipv6 serve start s'"

interpretation udp_server_runs: run_system "udp_server_step sys proto abi ipv6 serve"
    "udp_server_reachable sys proto abi ipv6 serve" for sys proto abi ipv6 serve
  by unfold_locales
    (fact udp_server_reachable.boot, fact udp_server_reachable.step, erule udp_server_reachable.induct, auto)

text \<open>Seen from the catalog, the system runs as the serving system does.\<close>

interpretation udp_serving: simulation "udp_server_step sys proto abi ipv6 serve"
    "udp_server_reachable sys proto abi ipv6 serve" "serving_step sys (catalog_answers serve)"
    "serving_reachable sys (catalog_answers serve)" us_serving for sys proto abi ipv6 serve
proof
  show "us_serving s' = us_serving s \<or> serving_step sys (catalog_answers serve) (us_serving s) (us_serving s')"
    if "udp_server_step sys proto abi ipv6 serve s s'" for s s'
    using that
    by cases (auto intro: serving_step.intros simp: catalog_answers_def)
qed

section \<open>Where the datagrams come from\<close>

text \<open>The task was made of a datagram the kernel delivered from a sender that is safe to answer.\<close>

definition received_task :: "c_abi \<Rightarrow> bool \<Rightarrow> request_task \<Rightarrow> bool" where
  "received_task abi ipv6 task \<longleftrightarrow>
     safe_peer (rt_peer task)
     \<and> (\<exists>message. recv_once abi ipv6 message = Some (Inr (rt_bytes task, rt_peer task, rt_info task)))"

lemma newly_spawned:
  assumes "ingress_step event ig = (r, ig')" and "from_kernel abi ipv6 event"
    and "task \<in> set (drop (length (ig_spawned ig)) (ig_spawned ig'))"
  shows "received_task abi ipv6 task"
proof -
  have "ig_spawned ig' = ig_spawned ig @ List.map_filter accepted [event]"
    using ingress_step_spawned [of event ig] assms(1) by simp
  then have "accepted event = Some task"
    using assms(3) by (auto simp: List.map_filter_simps split: option.splits)
  then obtain bs peer info where "event = Packet (Inr (bs, peer, info))" "safe_peer peer"
    "task = \<lparr>rt_bytes = bs, rt_peer = peer, rt_info = info\<rparr>"
    by (auto simp: accepted_def task_of_def split: ingress_event.splits sum.splits if_splits)
  then show ?thesis using assms(2) by (auto simp: received_task_def from_kernel_def)
qed

definition inflight_origin where
  "inflight_origin proto abi ipv6 query \<longleftrightarrow>
     (\<forall>task handler request. query = (FromUdp task handler, request) \<longrightarrow>
        received_task abi ipv6 task \<and> task_request proto task = Handled request handler)"

definition sent_origin where
  "sent_origin proto abi ipv6 answered sent \<longleftrightarrow>
     (case sent of (task, handler, response, d) \<Rightarrow>
        received_task abi ipv6 task \<and> response_datagram proto abi ipv6 handler response = Inr d
        \<and> (task_request proto task = Malformed handler response
           \<or> (\<exists>request catalog responses. task_request proto task = Handled request handler
                \<and> response \<in> set responses
                \<and> ((FromUdp task handler, request), catalog, responses) \<in> answered)))"

definition udp_server_ok where
  "udp_server_ok proto abi ipv6 s \<longleftrightarrow>
     (\<forall>task\<in>set (us_waiting s). received_task abi ipv6 task)
     \<and> (\<forall>query\<in>set (sg_inflight (us_serving s)). inflight_origin proto abi ipv6 (fst query))
     \<and> (\<forall>sent\<in>set (us_sent s). sent_origin proto abi ipv6 (set (sg_answered (us_serving s))) sent)"

lemma sent_origin_mono: "sent_origin proto abi ipv6 A sent \<Longrightarrow> A \<subseteq> B \<Longrightarrow> sent_origin proto abi ipv6 B sent"
  by (fastforce simp: sent_origin_def)

lemma udp_server_okD:
  assumes "udp_server_ok proto abi ipv6 s"
  shows "task \<in> set (us_waiting s) \<Longrightarrow> received_task abi ipv6 task"
    and "query \<in> set (sg_inflight (us_serving s)) \<Longrightarrow> inflight_origin proto abi ipv6 (fst query)"
    and "sent \<in> set (us_sent s) \<Longrightarrow> sent_origin proto abi ipv6 (set (sg_answered (us_serving s))) sent"
  using assms by (simp_all add: udp_server_ok_def)

lemma udp_server_okI:
  assumes "\<And>task. task \<in> set (us_waiting s) \<Longrightarrow> received_task abi ipv6 task"
    and "\<And>query. query \<in> set (sg_inflight (us_serving s)) \<Longrightarrow> inflight_origin proto abi ipv6 (fst query)"
    and "\<And>sent. sent \<in> set (us_sent s) \<Longrightarrow> sent_origin proto abi ipv6 (set (sg_answered (us_serving s))) sent"
  shows "udp_server_ok proto abi ipv6 s"
  using assms by (simp add: udp_server_ok_def)

lemma udp_server_step_ok:
  assumes "udp_server_step sys proto abi ipv6 serve s s'" and "udp_server_ok proto abi ipv6 s"
  shows "udp_server_ok proto abi ipv6 s'"
  using assms(1)
proof cases
  note ok = udp_server_okD [OF assms(2)]
  {
    case (listens event ig)
    show ?thesis
      by (rule udp_server_okI)
        (use ok newly_spawned [OF listens(4,3)] in \<open>auto simp: listens(1)\<close>)
  next
    case listener_ends
    then show ?thesis by (intro udp_server_okI) (use ok in auto)
  next
    case (task_drops ts task ts')
    show ?thesis by (rule udp_server_okI) (use ok task_drops(2) in \<open>auto simp: task_drops(1)\<close>)
  next
    case (task_refuses ts task ts' handler response ds)
    have "sent_origin proto abi ipv6 (set (sg_answered (us_serving s))) sent" if "sent \<in> set ds" for sent
      using that task_refuses(2-4) ok(1) by (fastforce simp: sent_origin_def response_datagrams_def)
    then show ?thesis
      by (intro udp_server_okI) (use ok task_refuses(2) in \<open>auto simp: task_refuses(1)\<close>)
  next
    case (task_asks ts task ts' request handler)
    have "inflight_origin proto abi ipv6 (FromUdp task handler, request)"
      using task_asks(2,3) ok(1) by (simp add: inflight_origin_def)
    then show ?thesis
      by (intro udp_server_okI)
        (use ok task_asks(2) in \<open>auto simp: task_asks(1) catalog_request_def\<close>)
  next
    case (tcp_asks request)
    show ?thesis
      by (rule udp_server_okI) (use ok in \<open>auto simp: tcp_asks(1) catalog_request_def inflight_origin_def\<close>)
  next
    case (udp_answered before task handler request catalog after responses ds)
    have "inflight_origin proto abi ipv6 (FromUdp task handler, request)"
      using ok(2) [of "((FromUdp task handler, request), catalog)"] udp_answered(3) by simp
    then have "sent_origin proto abi ipv6 (set (sg_answered (us_serving s'))) sent" if "sent \<in> set ds" for sent
      using that udp_answered(5)
      by (fastforce simp: udp_answered(1) inflight_origin_def sent_origin_def response_datagrams_def)
    moreover have "sent_origin proto abi ipv6 (set (sg_answered (us_serving s'))) sent" if "sent \<in> set (us_sent s)" for sent
      using sent_origin_mono [OF ok(3) [OF that]] by (auto simp: udp_answered(1))
    ultimately show ?thesis
      by (intro udp_server_okI) (use ok udp_answered(3) in \<open>auto simp: udp_answered(1)\<close>)
  next
    case (tcp_answered before request catalog after responses)
    have "sent_origin proto abi ipv6 (set (sg_answered (us_serving s'))) sent" if "sent \<in> set (us_sent s)" for sent
      using sent_origin_mono [OF ok(3) [OF that]] by (auto simp: tcp_answered(1))
    then show ?thesis
      by (intro udp_server_okI) (use ok tcp_answered(3) in \<open>auto simp: tcp_answered(1)\<close>)
  next
    case (main_loop ms)
    show ?thesis by (rule udp_server_okI) (use ok in \<open>auto simp: main_loop(1)\<close>)
  }
qed

lemma udp_server_start_ok: "udp_server_ok proto abi ipv6 (udp_server_start ms)"
  by (simp add: udp_server_ok_def udp_server_start_def serving_start_def)

lemma udp_server_reachable_ok:
  assumes "udp_server_reachable sys proto abi ipv6 serve (udp_server_start ms) s"
  shows "udp_server_ok proto abi ipv6 s"
  using assms udp_server_start_ok udp_server_step_ok by (rule udp_server_runs.invariant)

text \<open>What a task knows of its request.\<close>

lemma task_request_cases:
  "task_request proto task = Handled request handler \<Longrightarrow>
     request_from_bytes proto (rt_bytes task) (rt_peer task) = Inr request
     \<and> pr_peer handler = rt_peer task \<and> pr_info handler = rt_info task
     \<and> (\<exists>header. header_read proto (rt_bytes task) = Inr header \<and> md_type (hd_metadata header) \<noteq> MT_Response)"
  "task_request proto task = Malformed handler response \<Longrightarrow>
     (\<exists>e. request_from_bytes proto (rt_bytes task) (rt_peer task) = Inl e)
     \<and> pr_peer handler = rt_peer task \<and> pr_info handler = rt_info task
     \<and> (\<exists>header. header_read proto (rt_bytes task) = Inr header \<and> md_type (hd_metadata header) \<noteq> MT_Response
          \<and> response = error_msg proto header form_err)"
  by (auto simp: task_request_def handle_request_def Let_def split: sum.splits if_splits)

lemma response_datagram_peer:
  "response_datagram proto abi ipv6 handler response = Inr d \<Longrightarrow>
   sd_peer d = pr_peer handler \<and> sd_control d = reply_control abi (pr_info handler)
   \<and> (\<exists>header. encode_response proto response = Inr (sd_data d, header))"
  by (auto simp: response_datagram_def rbind_Inr_iff prepare_send_Inr)

end
