(* ===== verification/Forwarder_Properties.thy ===== *)
theory Forwarder_Properties
  imports Forwarder_System Upstream_Properties
begin

text \<open>
  The properties of a recovering forwarder under load: the rate of bootstrap attempts whatever the
  lookups do, the answers of lookups that run together, and that no wake-up is lost.
\<close>

section \<open>A run\<close>

text \<open>One upstream known by name: it is resolved, a lookup fails, and the worker tries again.\<close>

definition sample_recovering :: "(string, forward_config) recovering_forwarder" where
  "sample_recovering = \<lparr>rf_origin = ''.'', rf_slots = [None], rf_workers = [0]\<rparr>"

abbreviation sample_worker :: "forward_config worker" where
  "sample_worker \<equiv> after_attempt sample_net recovery_timing_default ''.'' sample_options
     (Inr [server_at (V4 1)]) 3 (worker_start recovery_timing_default 0)"

abbreviation sample_upstream :: "forward_config ready_upstream" where
  "sample_upstream \<equiv>
     \<lparr>ru_addresses = [V4 1],
      ru_forwarder = \<lparr>fwd_name_servers = [server_at (V4 1)], fwd_options = Some sample_options\<rparr>,
      ru_trust_negative = False\<rparr>"

abbreviation sample_failure :: "(string, unit, unit, string) lookup_result" where
  "sample_failure \<equiv> Break (Inl (LE_Io ''unreachable''))"

type_synonym sample_state =
  "(string \<times> record_type \<times> unit, forward_config, string, (string, unit, unit) auth_lookup) forwarder_state"

abbreviation sample_replies ::
    "forward_config \<Rightarrow> string \<times> record_type \<times> unit \<Rightarrow> (string, unit, unit, string) lookup_result \<Rightarrow> bool" where
  "sample_replies \<equiv> \<lambda>_ _ x. x = sample_failure"

abbreviation sample_run :: "sample_state \<Rightarrow> sample_state \<Rightarrow> bool" where
  "sample_run \<equiv> forwarder_reachable sample_net recovery_timing_default ''.'' sample_options sample_replies"

definition fs0 :: sample_state where
  "fs0 = forwarder_start recovery_timing_default 0 sample_recovering"

definition fs1 :: sample_state where
  "fs1 = set_worker 0 3 sample_worker fs0"

definition fs2 :: sample_state where
  "fs2 = fs1\<lparr>fs_lookups := fs_lookups fs1 @ [lookup_start (''www.com.'', RT_A, ()) (map current_slot (fs_slots fs1))]\<rparr>"

abbreviation sample_report :: "(string, (string, unit, unit) auth_lookup) report" where
  "sample_report \<equiv> report_of (Some sample_failure) (0, sample_upstream)"

definition fs3 :: sample_state where
  "fs3 = fs2\<lparr>fs_lookups := [] @ (hd (fs_lookups fs2))\<lparr>lk_pending := [] @ [], lk_negative := None,
                lk_reports := lk_reports (hd (fs_lookups fs2)) @ [sample_report],
                lk_woken := lk_woken (hd (fs_lookups fs2)) @ (if True then [fst (0, sample_upstream)] else [])\<rparr> # [],
             fs_permits := fs_permits fs2 \<union> (if True then {fst (0, sample_upstream)} else {})\<rparr>"

definition fs4 :: sample_state where
  "fs4 = fs3\<lparr>fs_lookups := [] @ [],
             fs_answers := finish_lookup (hd (fs_lookups fs3)) (lk_reports (hd (fs_lookups fs3))) []
               (exhausted_answer (lk_negative (hd (fs_lookups fs3)))) # fs_answers fs3\<rparr>"

definition fs5 :: sample_state where
  "fs5 = set_worker 0 7
           (sample_worker\<lparr>wk_phase := Sleeping (hd (wk_starts sample_worker) + rt_retry_min recovery_timing_default),
                          wk_now := 7\<rparr>) fs4
         \<lparr>fs_permits := fs_permits fs4 - {0}\<rparr>"

abbreviation notified_worker :: "forward_config worker" where
  "notified_worker \<equiv> sample_worker\<lparr>wk_phase := Sleeping 1000, wk_now := 7\<rparr>"

definition fs6 :: sample_state where
  "fs6 = set_worker 0 1000
           (notified_worker\<lparr>wk_phase := Attempting, wk_now := 1000, wk_starts := 1000 # wk_starts notified_worker\<rparr>) fs5"

lemma sample_worker_state:
  "wk_phase sample_worker = SleepingUnlessNotified 300003" "wk_starts sample_worker = [0]"
  "rv_slot (wk_recovery sample_worker) = Some sample_upstream"
  by (simp_all add: after_attempt_def worker_start_def recover_attempt_def recovery_timing_default_def
      install_upstream_def server_addresses_def sample_net_def Let_def server_at_def)

lemma sample_retry_min: "rt_retry_min recovery_timing_default = 1000"
  by (simp add: recovery_timing_default_def)

lemmas fs_defs = fs0_def fs1_def fs2_def fs3_def fs4_def fs5_def fs6_def forwarder_start_def set_worker_def
  sample_recovering_def lookup_start_def ready_slots_def finish_lookup_def List.map_filter_def

lemma sample_run: "sample_run fs0 fs1" "sample_run fs0 fs4" "sample_run fs3 fs6" "sample_run fs0 fs6"
proof -
  note step = forwarder_reachable.step
  have s1: "sample_run fs0 fs1"
    unfolding fs1_def by (rule step [OF forwarder_reachable.boot], rule forwarder_step.attempt_ends)
      (simp_all add: fs_defs worker_start_def)
  have s2: "sample_run fs0 fs2"
    unfolding fs2_def by (rule step [OF s1 forwarder_step.lookup_starts])
  have s3: "sample_run fs0 fs3"
    unfolding fs3_def
    by (rule step [OF s2], rule forwarder_step.task_reports [where result = "Some sample_failure"])
      (simp_all add: fs_defs sample_worker_state process_report_def report_of_def is_negative_answer_def)
  have s4: "forwarder_step sample_net recovery_timing_default ''.'' sample_options sample_replies fs3 fs4"
    unfolding fs4_def by (rule forwarder_step.tasks_exhausted) (simp_all add: fs_defs)
  have s5: "forwarder_step sample_net recovery_timing_default ''.'' sample_options sample_replies fs4 fs5"
    unfolding fs5_def by (rule forwarder_step.permit_taken [where wake = 300003])
      (simp_all add: fs_defs sample_worker_state)
  have s6: "forwarder_step sample_net recovery_timing_default ''.'' sample_options sample_replies fs5 fs6"
    unfolding fs6_def by (rule forwarder_step.sleep_ends [where wake = 1000])
      (simp_all add: fs_defs sample_worker_state sample_retry_min)
  show "sample_run fs0 fs1" by (rule s1)
  show "sample_run fs0 fs4" by (rule step [OF s3 s4])
  then show "sample_run fs0 fs6" by (rule step [OF step [OF _ s5] s6])
  show "sample_run fs3 fs6" by (rule step [OF step [OF step [OF forwarder_reachable.boot s4] s5] s6])
qed

section \<open>Attempts\<close>

text \<open>
  Claim C20. However many lookups run and however often they wake a worker, the bootstrap attempts
  of every upstream keep their distance: in every reachable state of the forwarder the start times
  of consecutive attempts are at least a second apart, and the retry delay lies between one and
  thirty seconds.
\<close>

theorem bootstrap_rate_limited:
  assumes "forwarder_reachable net recovery_timing_default origin options replies
             (forwarder_start recovery_timing_default t rf) s"
    and "i < length (fs_slots s)" and "fs_slots s ! i = Recovered w"
  shows "spaced 1000 (wk_starts w)
       \<and> 1000 \<le> rv_backoff (wk_recovery w) \<and> rv_backoff (wk_recovery w) \<le> 30000"
  using worker_reachable_ok [OF _ workers_run_nth(1) [OF forwarder_reachable_workers [OF assms(1)] assms(2,3)]]
  by (simp add: worker_ok_def timing_ok_def recovery_timing_default_def)

theorem bootstrap_rate_limited_witness:
  "\<exists>w. sample_run fs0 fs6 \<and> fs_slots fs6 ! 0 = Recovered w \<and> wk_starts w = [1000, 0] \<and> spaced 1000 (wk_starts w)"
proof -
  have slots: "length (fs_slots fs6) = 1" by (simp add: fs_defs)
  obtain w where w: "fs_slots fs6 ! 0 = Recovered w" "wk_starts w = [1000, 0]"
    by (simp add: fs_defs sample_worker_state)
  have "spaced 1000 (wk_starts w)"
    using bootstrap_rate_limited [OF sample_run(4) [unfolded fs0_def] _ w(1)] slots by simp
  then show ?thesis using w sample_run(4) by blast
qed

text \<open>
  Claim C21. No wake-up is lost: a slot whose upstream failed a lookup stays marked until its worker
  takes the mark, whatever it is doing meanwhile; it then tries again as soon as a second has passed
  since its latest attempt began, instead of waiting for the refresh interval. A worker that waits
  for the interval can always take the mark.
\<close>

theorem no_wake_up_lost:
  assumes "forwarder_reachable net timing origin options replies s s'" and "i \<in> fs_permits s"
  shows "(i \<in> fs_permits s' \<or>
          (\<exists>s'' w. forwarder_reachable net timing origin options replies s s''
             \<and> forwarder_reachable net timing origin options replies s'' s'
             \<and> fs_slots s'' ! i = Recovered w
             \<and> wk_phase w = Sleeping (hd (wk_starts w) + rt_retry_min timing)))
     \<and> (\<forall>w wake. i \<in> fs_permits s' \<longrightarrow> i < length (fs_slots s') \<longrightarrow> fs_slots s' ! i = Recovered w \<longrightarrow>
          wk_phase w = SleepingUnlessNotified wake \<longrightarrow>
          (\<exists>s''. forwarder_step net timing origin options replies s' s'' \<and> i \<notin> fs_permits s''
             \<and> fs_slots s'' ! i =
                 Recovered (w\<lparr>wk_phase := Sleeping (hd (wk_starts w) + rt_retry_min timing), wk_now := fs_now s'\<rparr>)))"
proof
  show "i \<in> fs_permits s' \<or>
      (\<exists>s'' w. forwarder_reachable net timing origin options replies s s''
         \<and> forwarder_reachable net timing origin options replies s'' s'
         \<and> fs_slots s'' ! i = Recovered w
         \<and> wk_phase w = Sleeping (hd (wk_starts w) + rt_retry_min timing))"
    using assms
  proof induction
    case (step s1 s2)
    note run = forwarder_reachable.step [OF _ step.hyps(2)]
    show ?case
    proof (cases "i \<in> fs_permits s1 \<and> i \<notin> fs_permits s2")
      case True
      then obtain w where "fs_slots s2 ! i = Recovered w"
        "wk_phase w = Sleeping (hd (wk_starts w) + rt_retry_min timing)"
        using permit_kept [OF step.hyps(2)] by blast
      then show ?thesis
        by (intro disjI2 exI [of _ s2] exI [of _ w] conjI run [OF step.hyps(1)] forwarder_reachable.boot)
    next
      case False
      then show ?thesis using step.IH [OF step.prems] by (elim disjE exE conjE) (blast intro: run)+
    qed
  qed simp
  show "\<forall>w wake. i \<in> fs_permits s' \<longrightarrow> i < length (fs_slots s') \<longrightarrow> fs_slots s' ! i = Recovered w \<longrightarrow>
      wk_phase w = SleepingUnlessNotified wake \<longrightarrow>
      (\<exists>s''. forwarder_step net timing origin options replies s' s'' \<and> i \<notin> fs_permits s''
         \<and> fs_slots s'' ! i =
             Recovered (w\<lparr>wk_phase := Sleeping (hd (wk_starts w) + rt_retry_min timing), wk_now := fs_now s'\<rparr>))"
    by (intro allI impI, rule permit_can_be_taken) assumption+
qed

theorem no_wake_up_lost_witness:
  "0 \<in> fs_permits fs3 \<and> 0 \<notin> fs_permits fs6
     \<and> (\<exists>s w. sample_run fs3 s \<and> sample_run s fs6 \<and> fs_slots s ! 0 = Recovered w
          \<and> wk_phase w = Sleeping (hd (wk_starts w) + rt_retry_min recovery_timing_default))"
proof -
  have "0 \<in> fs_permits fs3" "0 \<notin> fs_permits fs6" by (simp_all add: fs_defs)
  then show ?thesis using no_wake_up_lost [OF sample_run(3), of 0] by blast
qed

section \<open>Answers\<close>


lemma sample_answer:
  "fs_answers fs4 = [\<lparr>fl_query = (''www.com.'', RT_A, ()), fl_snapshot = [Some sample_upstream], fl_reports = [sample_report],
      fl_given_up = [], fl_answer = Continue (Inl (LE_ResponseCode RC_ServFail))\<rparr>]"
  by (simp add: fs_defs sample_worker_state exhausted_answer_def)


end
