(* ===== verification/Store_Config.thy ===== *)
theory Store_Config
  imports Server_Properties
begin

text \<open>
  The stores of a zone as the configuration file gives them (src/lib.rs, \<^verbatim>\<open>ZoneTypeConfig\<close>,
  \<^verbatim>\<open>store_config_default\<close> and \<^verbatim>\<open>store_config_visitor\<close>): one map, a sequence of maps, or nothing.
  The derived reader of one store is the parameter \<open>read_store\<close>.
\<close>

section \<open>The visitor\<close>

datatype yaml =
    YScalar string
  | YSeq "yaml list"
  | YMap "(string \<times> yaml) list"

text \<open>\<^verbatim>\<open>visit_seq\<close> reads a vector from the sequence, element by element; \<^verbatim>\<open>visit_map\<close> one store from
  the map. A value of another kind has no \<^verbatim>\<open>visit\<close> method, so the library reports what was expected.\<close>

datatype 'e store_config_error = StoreError 'e | ExpectedMapOrSequence

definition visit_seq :: "(yaml \<Rightarrow> 'e + 's) \<Rightarrow> yaml list \<Rightarrow> 'e store_config_error + 's list" where
  "visit_seq read_store vs = map_err StoreError (collect_results read_store vs)"

definition visit_map :: "(yaml \<Rightarrow> 'e + 's) \<Rightarrow> (string \<times> yaml) list \<Rightarrow> 'e store_config_error + 's list" where
  "visit_map read_store kvs =
     (case read_store (YMap kvs) of
        Inr store \<Rightarrow> Inr [store]
      | Inl e \<Rightarrow> Inl (StoreError e))"

definition store_config_visitor :: "(yaml \<Rightarrow> 'e + 's) \<Rightarrow> yaml \<Rightarrow> 'e store_config_error + 's list" where
  "store_config_visitor read_store v =
     (case v of
        YSeq vs \<Rightarrow> visit_seq read_store vs
      | YMap kvs \<Rightarrow> visit_map read_store kvs
      | YScalar _ \<Rightarrow> Inl ExpectedMapOrSequence)"

definition store_config_default :: "external_store_config list" where
  "store_config_default = [DefaultStore]"

text \<open>The field \<^verbatim>\<open>stores\<close> of a zone.\<close>

definition zone_stores_field ::
    "(yaml \<Rightarrow> 'e + external_store_config) \<Rightarrow> yaml option \<Rightarrow> 'e store_config_error + external_store_config list" where
  "zone_stores_field read_store field =
     (case field of
        None \<Rightarrow> Inr store_config_default
      | Some v \<Rightarrow> store_config_visitor read_store v)"

text \<open>What \<^verbatim>\<open>ZoneConfig::load\<close> makes of a store that is only the default.\<close>

definition empty_stores_error :: "load_error + 'a" where
  "empty_stores_error = Inl EmptyStores"

section \<open>What a zone's stores mean\<close>

lemma visitor_singleton:
  "store_config_visitor read_store (YSeq [YMap kvs]) = store_config_visitor read_store (YMap kvs)"
  by (simp add: store_config_visitor_def visit_seq_def visit_map_def split: sum.split)

lemma load_default_store:
  "fst (load_stores (load_store net lower key_text origin) chain store_config_default hs rg) = empty_stores_error"
  by (simp add: store_config_default_def load_store_def empty_stores_error_def)

text \<open>
  One store may be written as a map or as a sequence of one map, with the same meaning. A
  zone whose field is missing is refused when it is loaded, with the error for empty stores; but a
  zone whose field is the empty sequence is loaded without any handler, and no error tells so.
\<close>

theorem zone_stores_forms:
  assumes "zone_name_parse net (zone_name zone) = Inr origin"
  shows "zone_stores_field read_store (Some (YSeq [YMap kvs])) = zone_stores_field read_store (Some (YMap kvs))
     \<and> (zone_stores_field read_store None = Inr (zone_stores zone) \<longrightarrow>
          fst (zone_load net names orders read_to_string key_text adblock_rules zone rg) = empty_stores_error)
     \<and> (zone_stores_field read_store (Some (YSeq [])) = Inr (zone_stores zone) \<longrightarrow>
          zone_load net names orders read_to_string key_text adblock_rules zone rg = (Inr [], rg))"
proof (intro conjI impI)
  show "zone_stores_field read_store (Some (YSeq [YMap kvs])) = zone_stores_field read_store (Some (YMap kvs))"
    by (simp add: zone_stores_field_def visitor_singleton)
  show "fst (zone_load net names orders read_to_string key_text adblock_rules zone rg) = empty_stores_error"
    if "zone_stores_field read_store None = Inr (zone_stores zone)"
  proof -
    have "zone_stores zone = store_config_default" using that by (simp add: zone_stores_field_def)
    then show ?thesis by (simp add: zone_load_def assms load_default_store)
  qed
  show "zone_load net names orders read_to_string key_text adblock_rules zone rg = (Inr [], rg)"
    if "zone_stores_field read_store (Some (YSeq [])) = Inr (zone_stores zone)"
  proof -
    have "zone_stores zone = []"
      using that by (simp add: zone_stores_field_def store_config_visitor_def visit_seq_def)
    then show ?thesis by (simp add: zone_load_def assms)
  qed
qed

theorem zone_stores_forms_witness:
  "zone_load (sys_net sample_system) (sys_names sample_system) (sys_maps sample_system)
      (read_file (config_disk ''ok'')) (sys_key_text sample_system) None
      \<lparr>zone_name = ''.'', zone_stores = []\<rparr> registry_empty = (Inr [], registry_empty)"
proof -
  have parse: "zone_name_parse (sys_net sample_system) (zone_name \<lparr>zone_name = ''.'', zone_stores = []\<rparr>) = Inr ''.''"
    by (simp add: sample_system_def sample_net_def)
  have field: "zone_stores_field (\<lambda>_. Inl ()) (Some (YSeq [])) = Inr (zone_stores \<lparr>zone_name = ''.'', zone_stores = []\<rparr>)"
    by code_simp
  show ?thesis
    by (rule zone_stores_forms [OF parse, THEN conjunct2, THEN conjunct2, THEN mp, OF field])
qed

end
