(* ===== verification/Log_Format.thy ===== *)
theory Log_Format
  imports Addr_Roundtrip
begin

text \<open>
  The lines of the log (src/bin/astra-dns.rs, \<^verbatim>\<open>TdnsFormatter\<close>): the time stamp, the level, target
  and line of the event, the spans around it and its fields. Since the time stamp has a fixed
  width, lines sort by time.
\<close>

section \<open>The formatter\<close>

record utc_time =
  ut_year :: int
  ut_month :: int
  ut_day :: int
  ut_hour :: int
  ut_minute :: int
  ut_second :: int

text \<open>\<^verbatim>\<open>{:0w}\<close>: zeros up to the width, after the sign.\<close>

definition pad_zero :: "nat \<Rightarrow> string \<Rightarrow> string" where
  "pad_zero w s = replicate (w - length s) (CHR ''0'') @ s"

definition format_padded :: "nat \<Rightarrow> int \<Rightarrow> string" where
  "format_padded w n = (if n < 0 then ''-'' @ pad_zero (w - 1) (dec_str (- n)) else pad_zero w (dec_str n))"

definition log_timestamp :: "utc_time \<Rightarrow> string" where
  "log_timestamp now =
     format_padded 4 (ut_year now) @ ''-'' @ format_padded 2 (ut_month now) @ ''-'' @ format_padded 2 (ut_day now)
     @ '' '' @ format_padded 2 (ut_hour now) @ '':'' @ format_padded 2 (ut_minute now) @ '':''
     @ format_padded 2 (ut_second now) @ ''Z''"

text \<open>\<open>ev_fields\<close> is what the field formatter writes, \<open>None\<close> if it fails; the spans come from the
  root, each with its name and its formatted fields.\<close>

record log_event =
  ev_level :: string
  ev_target :: string
  ev_line :: "nat option"
  ev_scope :: "(string \<times> string) list option"
  ev_fields :: "string option"

definition format_span :: "string \<times> string \<Rightarrow> string" where
  "format_span span =
     (case span of (name, fs) \<Rightarrow>
        '':'' @ name @ (if fs \<noteq> [] then ''{'' @ fs @ ''}'' else []))"

definition format_event :: "utc_time \<Rightarrow> log_event \<Rightarrow> string option" where
  "format_event now ev =
     map_option (\<lambda>fs.
       log_timestamp now @ '' ['' @ ev_level ev @ ''] '' @ ev_target ev
       @ (case ev_line ev of None \<Rightarrow> [] | Some line \<Rightarrow> '':'' @ dec_str (int line))
       @ (case ev_scope ev of None \<Rightarrow> [] | Some spans \<Rightarrow> concat (map format_span spans))
       @ '':'' @ fs @ [CHR 0x0A]) (ev_fields ev)"

section \<open>Numbers of a fixed width\<close>

fun fixed_digits :: "nat \<Rightarrow> int \<Rightarrow> string" where
  "fixed_digits 0 n = []"
| "fixed_digits (Suc w) n = fixed_digits w (n div 10) @ [digit_char (n mod 10)]"

lemma fixed_digits_length [simp]: "length (fixed_digits w n) = w"
  by (induction w arbitrary: n) auto

lemma fixed_digits_zero: "fixed_digits w 0 = replicate w (CHR ''0'')"
proof (induction w)
  case (Suc w)
  have "digit_char 0 = CHR ''0''" by code_simp
  then show ?case using Suc by (simp add: replicate_append_same)
qed simp

lemma dec_str_small: "n < 10 \<Longrightarrow> dec_str n = [digit_char n]"
  by (subst dec_str.simps) simp

lemma pad_zero_fixed:
  assumes "0 \<le> n" and "n < 10 ^ Suc w"
  shows "pad_zero (Suc w) (dec_str n) = fixed_digits (Suc w) n"
  using assms
proof (induction w arbitrary: n)
  case 0
  then show ?case by (simp add: pad_zero_def dec_str_small)
next
  case (Suc w)
  show ?case
  proof (cases "n < 10")
    case True
    then show ?thesis
      using Suc.prems(1) by (simp add: pad_zero_def dec_str_small fixed_digits_zero replicate_append_same flip: replicate_Suc)
  next
    case False
    then have "pad_zero (Suc (Suc w)) (dec_str n) = pad_zero (Suc w) (dec_str (n div 10)) @ [digit_char (n mod 10)]"
      by (simp add: pad_zero_def dec_str_Suc_digits)
    also have "pad_zero (Suc w) (dec_str (n div 10)) = fixed_digits (Suc w) (n div 10)"
      using Suc.prems by (intro Suc.IH) auto
    finally show ?thesis by simp
  qed
qed

section \<open>The order of texts\<close>

definition text_before :: "string \<Rightarrow> string \<Rightarrow> bool" where
  "text_before s s' \<longleftrightarrow> ord_class.lexordp (map code_of s) (map code_of s')"

lemma lexordp_append_same:
  fixes xs xs' ys ys' :: "int list"
  assumes "length xs = length xs'"
  shows "ord_class.lexordp (xs @ ys) (xs' @ ys') \<longleftrightarrow>
     ord_class.lexordp xs xs' \<or> xs = xs' \<and> ord_class.lexordp ys ys'"
  using assms by (induction xs xs' rule: list_induct2) auto

lemma code_of_inj: "map code_of s = map code_of s' \<longleftrightarrow> s = s'"
  by (simp add: inj_map_eq_map inj_on_def)

lemma text_before_append:
  "length s = length s' \<Longrightarrow>
   text_before (s @ r) (s' @ r') \<longleftrightarrow> text_before s s' \<or> s = s' \<and> text_before r r'"
  by (simp add: text_before_def lexordp_append_same code_of_inj)

lemma text_before_same_char [simp]: "text_before (c # r) (c # r') \<longleftrightarrow> text_before r r'"
  by (simp add: text_before_def)

lemma digit_char_code: "0 \<le> d \<Longrightarrow> d < 10 \<Longrightarrow> code_of (digit_char d) = 48 + d"
  by (simp add: digit_char_def of_char_of take_bit_int_eq_self)

lemma div_mod_order:
  fixes m n :: int
  shows "m div 10 < n div 10 \<or> m div 10 = n div 10 \<and> m mod 10 < n mod 10 \<longleftrightarrow> m < n"
    and "m div 10 = n div 10 \<and> m mod 10 = n mod 10 \<longleftrightarrow> m = n"
proof -
  have m: "m = 10 * (m div 10) + m mod 10" "0 \<le> m mod 10" "m mod 10 < 10" by simp_all
  have n: "n = 10 * (n div 10) + n mod 10" "0 \<le> n mod 10" "n mod 10 < 10" by simp_all
  consider "m div 10 < n div 10" | "m div 10 = n div 10" | "n div 10 < m div 10" by linarith
  then show "m div 10 < n div 10 \<or> m div 10 = n div 10 \<and> m mod 10 < n mod 10 \<longleftrightarrow> m < n"
    using m n by cases linarith+
  show "m div 10 = n div 10 \<and> m mod 10 = n mod 10 \<longleftrightarrow> m = n"
    using m(1) n(1) by metis
qed

lemma fixed_digits_order:
  assumes "0 \<le> m" and "0 \<le> n" and "m < 10 ^ w" and "n < 10 ^ w"
  shows "text_before (fixed_digits w m) (fixed_digits w n) \<longleftrightarrow> m < n"
    and "fixed_digits w m = fixed_digits w n \<longleftrightarrow> m = n"
  using assms
proof (induction w arbitrary: m n)
  case 0
  case 1 then show ?case by (simp add: text_before_def)
  case 2 then show ?case by simp
next
  case (Suc w)
  have range: "0 \<le> k div 10" "k div 10 < 10 ^ w" if "0 \<le> k" "k < 10 ^ Suc w" for k :: int
    using that by auto
  have digit: "code_of (digit_char (k mod 10)) = 48 + k mod 10" for k
    by (rule digit_char_code) simp_all
  have last: "text_before [digit_char (k mod 10)] [digit_char (l mod 10)] \<longleftrightarrow> k mod 10 < l mod 10"
    "digit_char (k mod 10) = digit_char (l mod 10) \<longleftrightarrow> k mod 10 = l mod 10" for k l
    using digit [of k] digit [of l] by (simp add: text_before_def) (metis add_left_cancel digit)
  {
    case 1
    note IH = Suc.IH [of "m div 10" "n div 10", OF range(1) [OF 1(1,3)] range(1) [OF 1(2,4)] range(2) [OF 1(1,3)]
        range(2) [OF 1(2,4)]]
    have "text_before (fixed_digits (Suc w) m) (fixed_digits (Suc w) n)
        \<longleftrightarrow> m div 10 < n div 10 \<or> m div 10 = n div 10 \<and> m mod 10 < n mod 10"
      by (simp add: text_before_append IH last)
    also have "\<dots> \<longleftrightarrow> m < n" by (rule div_mod_order(1))
    finally show ?case .
  next
    case 2
    note IH = Suc.IH(2) [of "m div 10" "n div 10", OF range(1) [OF 2(1,3)] range(1) [OF 2(2,4)] range(2) [OF 2(1,3)]
        range(2) [OF 2(2,4)]]
    have "fixed_digits (Suc w) m = fixed_digits (Suc w) n \<longleftrightarrow> m div 10 = n div 10 \<and> m mod 10 = n mod 10"
      by (simp add: IH last)
    also have "\<dots> \<longleftrightarrow> m = n" by (rule div_mod_order(2))
    finally show ?case .
  }
qed

section \<open>The order of log lines\<close>

definition utc_time_ok :: "utc_time \<Rightarrow> bool" where
  "utc_time_ok t \<longleftrightarrow>
     0 \<le> ut_year t \<and> ut_year t < 10000 \<and> 0 \<le> ut_month t \<and> ut_month t < 100 \<and> 0 \<le> ut_day t \<and> ut_day t < 100
     \<and> 0 \<le> ut_hour t \<and> ut_hour t < 100 \<and> 0 \<le> ut_minute t \<and> ut_minute t < 100
     \<and> 0 \<le> ut_second t \<and> ut_second t < 100"

definition time_parts :: "utc_time \<Rightarrow> int list" where
  "time_parts t = [ut_year t, ut_month t, ut_day t, ut_hour t, ut_minute t, ut_second t]"

definition time_before :: "utc_time \<Rightarrow> utc_time \<Rightarrow> bool" where
  "time_before t t' \<longleftrightarrow> ord_class.lexordp (time_parts t) (time_parts t')"

lemma format_padded_fixed:
  "0 \<le> n \<Longrightarrow> n < 10000 \<Longrightarrow> format_padded 4 n = fixed_digits 4 n"
  "0 \<le> n \<Longrightarrow> n < 100 \<Longrightarrow> format_padded 2 n = fixed_digits 2 n"
  using pad_zero_fixed [of n 3] pad_zero_fixed [of n 1]
  by (simp_all add: format_padded_def numeral_eq_Suc)

lemma log_timestamp_fixed:
  "utc_time_ok t \<Longrightarrow>
   log_timestamp t = fixed_digits 4 (ut_year t) @ ''-'' @ fixed_digits 2 (ut_month t) @ ''-''
     @ fixed_digits 2 (ut_day t) @ '' '' @ fixed_digits 2 (ut_hour t) @ '':'' @ fixed_digits 2 (ut_minute t)
     @ '':'' @ fixed_digits 2 (ut_second t) @ ''Z''"
  by (simp add: log_timestamp_def utc_time_ok_def format_padded_fixed)

lemma text_before_fixed:
  "0 \<le> m \<Longrightarrow> m < 10 ^ w \<Longrightarrow> 0 \<le> n \<Longrightarrow> n < 10 ^ w \<Longrightarrow>
   text_before (fixed_digits w m @ r) (fixed_digits w n @ r') \<longleftrightarrow> m < n \<or> m = n \<and> text_before r r'"
  by (simp add: text_before_append fixed_digits_order)

lemma timestamp_before:
  assumes "utc_time_ok t" and "utc_time_ok t'" and "time_before t t'"
  shows "text_before (log_timestamp t @ r) (log_timestamp t' @ r')"
proof -
  have digits2: "text_before (fixed_digits 2 m @ r) (fixed_digits 2 n @ r') \<longleftrightarrow> m < n \<or> m = n \<and> text_before r r'"
    if "0 \<le> m" "m < 100" "0 \<le> n" "n < 100" for m n r r'
    using text_before_fixed [of m 2 n r r'] that by simp
  have digits4: "text_before (fixed_digits 4 m @ r) (fixed_digits 4 n @ r') \<longleftrightarrow> m < n \<or> m = n \<and> text_before r r'"
    if "0 \<le> m" "m < 10000" "0 \<le> n" "n < 10000" for m n r r'
    using text_before_fixed [of m 4 n r r'] that by simp
  show ?thesis
    using assms
    by (simp add: log_timestamp_fixed digits2 digits4 utc_time_ok_def time_before_def time_parts_def) auto
qed

text \<open>
  The lines of the log sort by time: of two events from the years 0 to 9999 the earlier
  one has the line that comes first in the order of texts, whatever the events are; the time stamp
  is always the first twenty characters.
\<close>

theorem log_lines_in_time_order:
  assumes "utc_time_ok t" and "utc_time_ok t'" and "time_before t t'"
    and "format_event t ev = Some line" and "format_event t' ev' = Some line'"
  shows "text_before line line' \<and> take 20 line = log_timestamp t"
proof
  obtain r r' where "line = log_timestamp t @ r" "line' = log_timestamp t' @ r'"
    using assms(4,5) unfolding format_event_def by auto
  then show "text_before line line'" "take 20 line = log_timestamp t"
    using timestamp_before [OF assms(1-3)] by (simp_all add: log_timestamp_fixed [OF assms(1)])
qed

theorem log_lines_in_time_order_witness:
  "format_event \<lparr>ut_year = 2025, ut_month = 9, ut_day = 30, ut_hour = 23, ut_minute = 59, ut_second = 58\<rparr>
      \<lparr>ev_level = ''INFO'', ev_target = ''astra_dns'', ev_line = Some 12, ev_scope = None, ev_fields = Some ''up''\<rparr>
    = Some (''2025-09-30 23:59:58Z [INFO] astra_dns:12:up'' @ [CHR 0x0A])
   \<and> text_before (''2025-09-30 23:59:58Z [INFO] astra_dns:12:up'' @ [CHR 0x0A])
       (''2025-10-01 00:00:00Z [INFO] astra_dns:12:up'' @ [CHR 0x0A])"
proof -
  let ?ev = "\<lparr>ev_level = ''INFO'', ev_target = ''astra_dns'', ev_line = Some 12, ev_scope = None, ev_fields = Some ''up''\<rparr>"
  let ?t = "\<lparr>ut_year = 2025, ut_month = 9, ut_day = 30, ut_hour = 23, ut_minute = 59, ut_second = 58\<rparr>"
  let ?t' = "\<lparr>ut_year = 2025, ut_month = 10, ut_day = 1, ut_hour = 0, ut_minute = 0, ut_second = 0\<rparr>"
  have l: "format_event ?t ?ev = Some (''2025-09-30 23:59:58Z [INFO] astra_dns:12:up'' @ [CHR 0x0A])"
    by code_simp
  have l': "format_event ?t' ?ev = Some (''2025-10-01 00:00:00Z [INFO] astra_dns:12:up'' @ [CHR 0x0A])"
    by code_simp
  have "utc_time_ok ?t" "utc_time_ok ?t'" "time_before ?t ?t'"
    by (simp_all add: utc_time_ok_def time_before_def time_parts_def)
  then show ?thesis using log_lines_in_time_order [OF _ _ _ l l'] l by blast
qed

end
