(* ===== verification/Linux_Abi.thy ===== *)
theory Linux_Abi
  imports Udp_Packet
begin

text \<open>
  The C structures of a 64-bit little-endian Linux, an instance of \<open>c_abi\<close>: sizes, field orders
  and option numbers of the platform's headers. \<open>linux_abi_ok\<close> shows that the guarantees
  \<open>abi_ok\<close> asks of the platform hold of it.
\<close>

definition le_bytes :: "nat \<Rightarrow> int \<Rightarrow> bytes" where
  "le_bytes k n = map word_of_int (rev (be_digits 256 k n))"

definition le_val :: "bytes \<Rightarrow> int" where
  "le_val bs = be_val 256 (rev (map uint bs))"

definition linux_abi :: c_abi where
  "linux_abi =
     \<lparr>abi_usize = 8, abi_cmsghdr_size = 16,
      abi_read_cmsghdr = \<lambda>bs. \<lparr>cmsg_len = nat (le_val (take 8 bs)),
                                cmsg_level = word_of_int (le_val (take 4 (drop 8 bs))),
                                cmsg_type = word_of_int (le_val (take 4 (drop 12 bs)))\<rparr>,
      abi_write_cmsghdr = \<lambda>h. le_bytes 8 (int (cmsg_len h)) @ le_bytes 4 (uint (cmsg_level h))
                                @ le_bytes 4 (uint (cmsg_type h)),
      abi_in_size = 12,
      abi_read_in = \<lambda>bs. \<lparr>ipi_ifindex = sint (word_of_int (le_val (take 4 bs)) :: 32 word),
                           ipi_spec_dst = take 4 (drop 4 bs), ipi_addr = take 4 (drop 8 bs)\<rparr>,
      abi_write_in = \<lambda>p. le_bytes 4 (ipi_ifindex p) @ ipi_spec_dst p @ ipi_addr p,
      abi_in6_size = 20,
      abi_read_in6 = \<lambda>bs. \<lparr>ipi6_addr = take 16 bs, ipi6_ifindex = word_of_int (le_val (take 4 (drop 16 bs)))\<rparr>,
      abi_write_in6 = \<lambda>p. ipi6_addr p @ le_bytes 4 (uint (ipi6_ifindex p)),
      abi_ipproto_ip = 0, abi_ip_pktinfo = 8, abi_ipproto_ipv6 = 41, abi_ipv6_pktinfo = 50,
      abi_ipv6_recvpktinfo = 49, abi_af_inet = 2, abi_af_inet6 = 10,
      abi_sockaddr_in_size = 16, abi_sockaddr_in6_size = 28\<rparr>"

lemma length_le_bytes [simp]: "length (le_bytes k n) = k"
  by (simp add: le_bytes_def)

lemma le_val_le_bytes [simp]: "le_val (le_bytes k n) = n mod 256 ^ k"
proof -
  have "map uint (le_bytes k n) = rev (be_digits 256 k n)"
    unfolding le_bytes_def by (rule uint_octets) (use be_digits_range [of 256] in auto)
  then show ?thesis by (simp add: le_val_def be_val_be_digits)
qed

lemma uint_mod_32 [simp]: "uint (w :: 32 word) mod 4294967296 = uint w"
  using uint_bounded [of w] by (intro mod_pos_pos_trivial) simp_all

lemma word_of_int_mod_32 [simp]: "word_of_int (n mod 4294967296) = (word_of_int n :: 32 word)"
  by (rule word_uint_eqI) (simp add: unsigned_of_int take_bit_eq_mod)

lemma sint_of_int_32: "- (2 ^ 31) \<le> n \<Longrightarrow> n < 2 ^ 31 \<Longrightarrow> sint (word_of_int n :: 32 word) = n"
  by (simp add: signed_of_int signed_take_bit_int_eq_self)

lemma linux_cmsghdr: "cmsg_len h \<le> 128 \<Longrightarrow>
   abi_read_cmsghdr linux_abi (abi_write_cmsghdr linux_abi h @ rest) = h"
  by (simp add: linux_abi_def)

lemma linux_in: "length (ipi_spec_dst p) = 4 \<Longrightarrow> length (ipi_addr p) = 4 \<Longrightarrow>
   - (2 ^ 31) \<le> ipi_ifindex p \<Longrightarrow> ipi_ifindex p < 2 ^ 31 \<Longrightarrow>
   abi_read_in linux_abi (abi_write_in linux_abi p) = p"
  by (simp add: linux_abi_def sint_of_int_32)

lemma linux_in6: "length (ipi6_addr p) = 16 \<Longrightarrow> abi_read_in6 linux_abi (abi_write_in6 linux_abi p) = p"
  by (simp add: linux_abi_def)

lemma linux_sizes [simp]:
  "abi_usize linux_abi = 8" "abi_cmsghdr_size linux_abi = 16"
  "abi_in_size linux_abi = 12" "abi_in6_size linux_abi = 20"
  "abi_ipproto_ip linux_abi = 0" "abi_ipproto_ipv6 linux_abi = 41"
  "abi_ip_pktinfo linux_abi = 8" "abi_ipv6_pktinfo linux_abi = 50"
  "length (abi_write_cmsghdr linux_abi h) = 16"
  "length (ipi6_addr q) = 16 \<Longrightarrow> length (abi_write_in6 linux_abi q) = 20"
  "length (ipi_spec_dst p) = 4 \<Longrightarrow> length (ipi_addr p) = 4 \<Longrightarrow> length (abi_write_in linux_abi p) = 12"
  by (simp_all add: linux_abi_def)

lemma linux_abi_ok: "abi_ok linux_abi"
  unfolding abi_ok_def
  by (simp add: linux_cmsghdr linux_in linux_in6 cmsg_space_of_def align_up_def)

end
