(* ===== verification/Udp_Properties.thy ===== *)
theory Udp_Properties
  imports Udp_Ingress Linux_Abi
begin

text \<open>
  The properties of the UDP ingress: what the serving loop accepts, to whom and from which local
  address it replies, the packet information read from and written to the system, and what a sent
  response is. The witnesses use the C structures of Linux (\<open>linux_abi\<close>) and a minimal message
  format (\<open>sample_proto\<close>).
\<close>

section \<open>Instances of the third-party interfaces\<close>

definition sample_header :: "bytes \<Rightarrow> header" where
  "sample_header bs =
     \<lparr>hd_metadata = \<lparr>md_id = ucast (bs ! 0) * 256 + ucast (bs ! 1),
                    md_type = (if 128 \<le> bs ! 2 then MT_Response else MT_Query), md_op = OP_Query,
                    md_rcode = RC_NoError\<rparr>,
      hd_counts = [0, 0, 0, 0]\<rparr>"

definition sample_proto :: "(bytes, string, bytes) dns_proto" where
  "sample_proto =
     \<lparr>header_read = \<lambda>bs. if length bs < 12 then Inl ''short'' else Inr (sample_header bs),
      request_from_bytes = \<lambda>bs _. if length bs = 12 then Inr bs else Inl ''malformed'',
      request_queries = \<lambda>_. [], error_msg = \<lambda>header _. replicate 12 0,
      response_id = \<lambda>bs. 0, response_max_payload = \<lambda>_. None,
      response_emit = \<lambda>bs n. if length bs \<le> unat n then Inr (bs, sample_header bs) else Inl ''too long'',
      header_emit = \<lambda>_. Inr (replicate 12 0)\<rparr>"

definition local_info :: packet_info where
  "local_info = \<lparr>pi_local_addr = V6 1, pi_if_index = 1\<rparr>"

definition peer_sockaddr :: sockaddr where
  "peer_sockaddr =
     \<lparr>sa_family = 10, sin_addr = [], sin_port = [], sin6_addr = v6_bytes 2, sin6_port = [0x30, 0x39],
      sin6_flowinfo = [0, 0, 0, 0], sin6_scope_id = 0\<rparr>"

definition query_bytes :: bytes where
  "query_bytes = replicate 12 0"

definition sample_message :: received where
  "sample_message =
     \<lparr>rm_data = query_bytes, rm_truncated = False, rm_address = peer_sockaddr, rm_namelen = 28,
      rm_control = reply_control linux_abi local_info,
      rm_controllen = length (reply_control linux_abi local_info)\<rparr>"

abbreviation sample_peer :: socket_addr where
  "sample_peer \<equiv> SockV6 2 12345 0 0"

lemma local_info_valid: "validate_info local_info True = Inr ()"
  by code_simp

lemma sample_message_received:
  "recv_once linux_abi True (Inr sample_message) = Some (Inr (query_bytes, sample_peer, local_info))"
proof -
  have "decode_peer linux_abi peer_sockaddr 28 = Inr sample_peer" by code_simp
  then show ?thesis
    using reply_control_v6 [OF linux_abi_ok local_info_valid]
    by (simp add: recv_once_def sample_message_def)
qed

section \<open>The serving loop\<close>

text \<open>
  Claim C26. The serving loop starts one task for each datagram from a safe sender, in order, until
  it stops, and none for any other event; each task owns the bytes, the sender and the local
  address of its own datagram. It stops only at a shutdown or at a receive error that means the
  socket is gone, and then no request is left in flight.
\<close>

theorem ingress_serves_safe_datagrams:
  "ig_spawned (snd (ingress_run events ingress_start)) =
     List.map_filter accepted (takeWhile (\<lambda>event. stops event = None) events)
   \<and> fst (ingress_run events ingress_start) =
       (case dropWhile (\<lambda>event. stops event = None) events of [] \<Rightarrow> None | event # _ \<Rightarrow> stops event)
   \<and> set (ig_requests (snd (ingress_run events ingress_start)))
       \<subseteq> (if fst (ingress_run events ingress_start) = None
          then set (ig_spawned (snd (ingress_run events ingress_start))) else {})"
  using ingress_run_stopped [of events ingress_start] ingress_run_requests [of ingress_start events]
  by (simp add: ingress_run_spawned ingress_run_result) (simp add: ingress_start_def)

lemma decode_payload_error: "decode_payload abi v6 level kind payload = Inl e \<Longrightarrow> \<exists>p. e = BadPacket p"
  by (auto simp: decode_payload_def Let_def split: if_splits)

lemma validate_info_error: "validate_info info v6 = Inl e \<Longrightarrow> \<exists>p. e = BadPacket p"
  by (auto simp: validate_info_def split: if_splits)

lemma decode_messages_error:
  "decode_messages fuel abi v6 control result = Some (Inl e) \<Longrightarrow> \<exists>p. e = BadPacket p"
proof (induction fuel abi v6 control result rule: decode_messages.induct)
  case (2 fuel abi v6 control result)
  then show ?case
    by (auto simp: Let_def ok_or_def dest: decode_payload_error validate_info_error
        split: if_splits sum.splits option.splits)
qed simp

lemma decode_info_error: "decode_info abi control v6 = Some (Inl e) \<Longrightarrow> \<exists>p. e = BadPacket p"
  unfolding decode_info_def by (rule decode_messages_error)

lemma decode_peer_error: "decode_peer abi a n = Inl e \<Longrightarrow> \<exists>p. e = BadPacket p"
  by (auto simp: decode_peer_def Let_def split: if_splits)

lemma recv_once_error:
  assumes "recv_once abi v6 (Inr message) = Some (Inl e)"
  shows "\<exists>p. e = BadPacket p"
proof -
  have pair: "rbind z (\<lambda>i. Inr (f i)) = Inl e' \<longleftrightarrow> z = Inl e'"
    for z :: "udp_error + 'x" and f :: "'x \<Rightarrow> 'y" and e'
    by (cases z) simp_all
  show ?thesis
    using assms
    by (auto simp: recv_once_def pair dest: decode_info_error decode_peer_error
        split: if_splits sum.splits)
qed

text \<open>
  Claim C34. No datagram a sender crafts can stop the listener: whatever a received message holds,
  an error it leads to in the program is skipped and the loop goes on.
\<close>

theorem malformed_datagram_does_not_stop:
  assumes "recv_once abi ipv6 (Inr message) = Some (Inl e)"
  shows "ingress_step (Packet (Inl e)) s = (None, s)"
proof -
  have "\<exists>p. e = BadPacket p" using assms by (rule recv_once_error)
  then show ?thesis by (auto simp: ingress_step_def fatal_receive_error_def)
qed

theorem malformed_datagram_does_not_stop_witness:
  "ingress_step (Packet (Inl (BadPacket MissingMetadata))) ingress_start = (None, ingress_start)"
proof (rule malformed_datagram_does_not_stop)
  show "recv_once linux_abi True (Inr (sample_message\<lparr>rm_controllen := 0\<rparr>)) = Some (Inl (BadPacket MissingMetadata))"
  proof -
    have "decode_peer linux_abi peer_sockaddr 28 = Inr sample_peer" by code_simp
    then show ?thesis by (simp add: recv_once_def sample_message_def decode_info_def)
  qed
qed

section \<open>Replies\<close>

text \<open>
  Claim C15. Every datagram the server sends is an answer to a query it received: it goes to the
  sender of that query, never to port zero, nor to an unspecified, multicast or broadcast address,
  also in IPv4-mapped form; it leaves from the unicast address the query was sent to; and a
  datagram that is itself a response is never answered, so that two servers cannot answer each
  other.
\<close>

theorem replies_are_safe:
  assumes "recv_once abi ipv6 message = Some (Inr (bs, peer, info))"
    and "accepted (Packet (Inr (bs, peer, info))) = Some task"
    and "(handler, response) \<in> set (task_responses serve
           (handle_request proto (rt_bytes task) (rt_peer task) (rt_info task)))"
    and "response_datagram proto abi ipv6 handler response = Inr d"
  shows "sd_peer d = peer \<and> sock_port peer \<noteq> 0
       \<and> \<not> is_unspecified (sock_ip peer) \<and> \<not> is_multicast (sock_ip peer)
       \<and> sock_ip peer \<noteq> V4 0xFFFFFFFF
       \<and> (\<nexists>b. sock_ip peer = V6 b \<and> to_ipv4_mapped b \<in> {Some 0, Some 0xFFFFFFFF})
       \<and> valid_local_addr (pi_local_addr info) ipv6 \<and> sd_control d = reply_control abi info
       \<and> (\<exists>header. header_read proto bs = Inr header \<and> md_type (hd_metadata header) = MT_Query)"
proof -
  have task: "task = task_of (bs, peer, info)" and safe: "safe_peer peer"
    using assms(2) by (auto simp: accepted_def task_of_def split: if_splits)
  note props = task_responses_props [OF assms(3) [unfolded task task_of_def, simplified]]
  have d: "sd_peer d = peer" "sd_control d = reply_control abi info"
    using assms(4) props by (auto simp: response_datagram_def rbind_Inr_iff prepare_send_Inr)
  have "valid_local_addr (pi_local_addr info) ipv6"
    using recv_once_Inr(2) [OF assms(1)] by (simp add: validate_info_Inr)
  then show ?thesis
    using safe [unfolded safe_peer_iff] props(3) d by auto
qed

theorem replies_are_safe_witness:
  "\<exists>d. response_datagram sample_proto linux_abi True
          \<lparr>pr_peer = sample_peer, pr_info = local_info,
           pr_request_meta = hd_metadata (sample_header query_bytes), pr_queries = []\<rparr> query_bytes = Inr d
      \<and> sd_peer d = sample_peer \<and> sd_control d = reply_control linux_abi local_info"
proof -
  let ?handler = "\<lparr>pr_peer = sample_peer, pr_info = local_info,
     pr_request_meta = hd_metadata (sample_header query_bytes), pr_queries = []\<rparr>"
  let ?d = "\<lparr>sd_data = query_bytes, sd_peer = sample_peer, sd_control = reply_control linux_abi local_info\<rparr>"
  have a: "accepted (Packet (Inr (query_bytes, sample_peer, local_info))) =
      Some (task_of (query_bytes, sample_peer, local_info))"
  proof -
    have "safe_peer sample_peer" by code_simp
    then show ?thesis by (simp add: accepted_def task_of_def)
  qed
  have r: "(?handler, query_bytes) \<in> set (task_responses (\<lambda>bs. [bs])
      (handle_request sample_proto (rt_bytes (task_of (query_bytes, sample_peer, local_info)))
         (rt_peer (task_of (query_bytes, sample_peer, local_info)))
         (rt_info (task_of (query_bytes, sample_peer, local_info)))))"
    by (simp add: task_of_def handle_request_def sample_proto_def sample_header_def task_responses_def
        query_bytes_def)
  have s: "response_datagram sample_proto linux_abi True ?handler query_bytes = Inr ?d"
    by (simp add: response_datagram_def encode_response_def sample_proto_def prepare_send_Inr local_info_valid
        query_bytes_def unwrap_or_def)
  show ?thesis using replies_are_safe [OF sample_message_received a r s] s by blast
qed

text \<open>
  A response counts as sent only if the system took the whole datagram, after any
  number of attempts that would block; the datagram is the encoded response, no longer than the
  size the client announced or 512 bytes, or else a bare server failure with the identifier of
  the response.
\<close>

theorem sent_response_is_complete:
  assumes "send_response proto abi ipv6 attempts handler response = Some (Inr header)"
    and "\<And>r n bs h. response_emit proto r n = Inr (bs, h) \<Longrightarrow> length bs \<le> unat n"
  shows "\<exists>d. retry_io (attempts d) = Some (Inr (length (sd_data d)))
     \<and> sd_peer d = pr_peer handler \<and> sd_control d = reply_control abi (pr_info handler)
     \<and> (length (sd_data d) \<le> unat (unwrap_or 512 (response_max_payload proto response))
        \<or> header = servfail_header (response_id proto response) \<and> header_emit proto header = Inr (sd_data d))"
proof -
  obtain bs d where e: "encode_response proto response = Inr (bs, header)"
    and p: "prepare_send abi ipv6 bs (pr_peer handler) (pr_info handler) = Inr d"
    and r: "retry_io (attempts d) = Some (Inr (length bs))"
    using send_response_Inr [OF assms(1)] by blast
  have d: "sd_data d = bs" "sd_peer d = pr_peer handler" "sd_control d = reply_control abi (pr_info handler)"
    using p by (auto simp: prepare_send_Inr)
  show ?thesis
    using encode_response_cases [OF e] assms(2) r d by (intro exI [of _ d]) auto
qed

theorem sent_response_is_complete_witness:
  "\<exists>d :: sent_datagram. retry_io [Inl (OsError WouldBlock 11), Inr 12 :: udp_error + nat] = Some (Inr (length (sd_data d)))"
proof -
  let ?handler = "\<lparr>pr_peer = sample_peer, pr_info = local_info,
     pr_request_meta = hd_metadata (sample_header query_bytes), pr_queries = []\<rparr> :: string packet_response"
  have s: "send_response sample_proto linux_abi True (\<lambda>_. [Inl (OsError WouldBlock 11), Inr 12]) ?handler query_bytes
      = Some (Inr (sample_header query_bytes))"
    by (simp add: send_response_def send_packet_def encode_response_def sample_proto_def prepare_send_def
        local_info_valid query_bytes_def unwrap_or_def)
  have size: "length bs \<le> unat n" if "response_emit sample_proto r n = Inr (bs, h)" for r n bs h
    using that by (simp add: sample_proto_def split: if_splits)
  have "\<exists>d :: sent_datagram. retry_io [Inl (OsError WouldBlock 11), Inr 12] = Some (Inr (length (sd_data d)))
     \<and> sd_peer d = pr_peer ?handler \<and> sd_control d = reply_control linux_abi (pr_info ?handler)
     \<and> (length (sd_data d) \<le> unat (unwrap_or 512 (response_max_payload sample_proto query_bytes))
        \<or> sample_header query_bytes = servfail_header (response_id sample_proto query_bytes)
          \<and> header_emit sample_proto (sample_header query_bytes) = Inr (sd_data d))"
    by (rule sent_response_is_complete [where attempts = "\<lambda>_. [Inl (OsError WouldBlock 11), Inr 12]", OF s])
      (rule size)
  then show ?thesis by blast
qed

section \<open>Packet information\<close>

text \<open>
  Claim C27. Decoding the control data of a datagram always comes to an end, whatever bytes the
  system delivered, and what it accepts names a usable local unicast address and an interface:
  of the socket's family, not unspecified, multicast, broadcast or IPv4-mapped.
\<close>

theorem decode_info_total_and_valid:
  assumes "abi_ok abi"
  shows "\<exists>r. decode_info abi control ipv6 = Some r
     \<and> (case r of Inl e \<Rightarrow> True
        | Inr info \<Rightarrow> valid_local_addr (pi_local_addr info) ipv6 \<and> pi_if_index info \<noteq> 0)"
proof -
  have "decode_info abi control ipv6 \<noteq> None"
    unfolding decode_info_def by (rule decode_messages_enough) (use abi_okD(1,2) [OF assms] in auto)
  then obtain r where r: "decode_info abi control ipv6 = Some r" by blast
  have "valid_local_addr (pi_local_addr info) ipv6 \<and> pi_if_index info \<noteq> 0" if "r = Inr info" for info
    using decode_info_valid [of abi control ipv6 info] r that by (simp add: validate_info_Inr)
  then show ?thesis using r by (auto split: sum.split)
qed

theorem decode_info_total_and_valid_witness:
  "\<exists>r. decode_info linux_abi (replicate 20 255) True = Some r"
  using decode_info_total_and_valid [OF linux_abi_ok] by blast

text \<open>
  Claim C28. The control message of an IPv6 reply holds exactly the packet information the query
  came with: read back the way received control data is, it gives the same local address and
  interface.
\<close>

theorem reply_control_v6_roundtrip:
  assumes "abi_ok abi" and "validate_info info True = Inr ()"
  shows "decode_info abi (reply_control abi info) True = Some (Inr info)"
  by (rule reply_control_v6 [OF assms])

theorem reply_control_v6_roundtrip_witness:
  "decode_info linux_abi (reply_control linux_abi local_info) True = Some (Inr local_info)"
  by (rule reply_control_v6_roundtrip [OF linux_abi_ok local_info_valid])

text \<open>
  The control message of an IPv4 reply asks the system to send from the local address
  the query came to, on the interface it came in on; the interface number survives the cast to a
  signed integer, for every packet information that passed the checks.
\<close>

theorem reply_control_v4_source:
  assumes "abi_ok abi" and "validate_info info False = Inr ()"
  shows "\<exists>a payload. pi_local_addr info = V4 a
     \<and> reply_control abi info = fill_control abi (abi_ipproto_ip abi) (abi_ip_pktinfo abi) payload
     \<and> abi_read_in abi payload = \<lparr>ipi_ifindex = uint (pi_if_index info), ipi_spec_dst = v4_bytes a,
                                  ipi_addr = [0, 0, 0, 0]\<rparr>
     \<and> v4_of_bytes (ipi_spec_dst (abi_read_in abi payload)) = a"
proof -
  obtain a where a: "pi_local_addr info = V4 a"
    using assms(2) by (cases "pi_local_addr info") (simp_all add: validate_info_Inr valid_local_addr_def)
  have "pi_if_index info \<le> 0x7FFFFFFF" using assms(2) by (simp add: validate_info_Inr)
  then show ?thesis using reply_control_v4 [OF assms(1) a] a by auto
qed

theorem reply_control_v4_source_witness:
  "\<exists>payload. reply_control linux_abi \<lparr>pi_local_addr = V4 0x7F000001, pi_if_index = 1\<rparr>
      = fill_control linux_abi 0 8 payload"
proof -
  have "validate_info \<lparr>pi_local_addr = V4 0x7F000001, pi_if_index = 1\<rparr> False = Inr ()" by code_simp
  from reply_control_v4_source [OF linux_abi_ok this] show ?thesis by auto
qed

end
