(* ===== verification/Spec2Isabelle.thy ===== *)
theory Spec2Isabelle
  imports Zone_Handlers Query_Liveness Program_Run Udp_Server Forwarder_Properties Store_Config Metrics Log_Format Udp_Properties
begin

text \<open>
  astra-dns: a forwarding DNS server with filtering

  The program answers DNS queries for a local network. It blocks names by filter lists and by the
  user's own rules, answers local hosts and overrides itself, rewrites answers, and forwards the
  rest to upstream servers that may be unreachable at start-up. This development models its own
  logic, all Rust files under src/src, and proves what makes it correct.

  \<^bold>\<open>The parts of the program and the theories that model them\<close>

  \<^item> Shared ground. \<open>Prelude\<close> has results as sums (\<open>rbind\<close>, \<open>map_err\<close>, \<open>collect_results\<close> for
    \<^verbatim>\<open>?\<close> and \<^verbatim>\<open>collect\<close>) and the entries of hash maps. \<open>Rust_Str\<close> models the string
    functions the program calls, on byte strings with UTF-8 white space. \<open>Net_Addr\<close>,
    \<open>Addr_Text\<close> and \<open>Addr_Roundtrip\<close> model the address types of the standard library, their
    order, their parsers and their printed text.
  \<^item> Rules (src/src/adblock/rules.rs, config.rs). \<open>Rule_Types\<close> has the data,
    \<open>Domain_Index\<close> the hash sets of names and their lookup, \<open>Rule_Parser\<close> the reading of one
    rule line with all its branches, \<open>Rule_Build\<close> the compilation of a configuration.
    \<open>Rule_Facts\<close> and \<open>Pattern_Regex\<close> hold their lemmas; the second gives the fragment of regular
    expressions the program generates its documented meaning.
  \<^item> Local hosts (rules.rs, from \<^verbatim>\<open>load_lan_host_overrides\<close>): \<open>Lan_Hosts\<close>.
  \<^item> Downloads and their cache (fetch.rs): \<open>Filter_Fetch\<close>, with the disk as an explicit state.
  \<^item> Handlers (authority.rs, mod.rs). \<open>Dns_Types\<close> has lookups and their results,
    \<open>Authorities\<close> the override, rewrite and block handlers and the chain
    \<^verbatim>\<open>build_authorities\<close> makes, \<open>Authority_Facts\<close> their lemmas and the way the server library
    walks a chain.
  \<^item> Configuration (lib.rs): \<open>Server_Config\<close>, from the parsed YAML on; \<open>Store_Config\<close> has the visitor
    that reads the stores of a zone.
  \<^item> Upstreams (upstream.rs, and \<^verbatim>\<open>ZoneConfig::load\<close> in lib.rs): \<open>Upstream\<close> has the slots, the
    recovery worker as a step relation with a clock, lookups over all upstreams in any order of
    completion, and the registry of live forwarders. Lemmas: \<open>Upstream_Facts\<close>.
    \<open>Forwarder_System\<close> runs the workers of a forwarder, the wake-up permits of its slots and any
    number of lookups together, one task's report at a time; it reduces each worker to
    \<open>worker_step\<close> and each finished lookup to \<open>aggregate\<close>.
  \<^item> The server (bin/astra-dns.rs). \<open>Reload\<close> has the building of a catalog, the reload and the
    main loop as a step relation; \<open>Startup\<close> the start, the sockets as sequences of system
    calls, the privileges and the supervision of the listeners. Lemmas: \<open>Reload_Facts\<close>.
    \<open>Serving\<close> adds the queries in flight, each holding the catalog it arrived under, to the main
    loop. \<open>Log_Format\<close> has the lines of the log. \<open>Program_Run\<close> has the command line, \<^verbatim>\<open>main\<close> and \<^verbatim>\<open>run\<close>,
    the start with the metrics and the signal handlers, and the exit status.
  \<^item> The server with its forwarders (bin/astra-dns.rs, lib.rs, upstream.rs together).
    \<open>Query_Forwarding\<close> runs the main loop, the queries in flight and all forwarders, each with its
    workers and lookups, as one step relation: a query is numbered when it arrives, asks the handlers
    of its zone one after the other, starts a lookup in the forwarder it comes to, and is answered
    with what that lookup gave; meanwhile the refresh tasks of the override handlers of every installed
    catalog load their lease caches anew (\<open>leases_refreshed\<close>, on \<open>fw_views\<close>), so that a query sees a
    handler as it is when it asks it (\<open>fw_asked\<close>); reloads start and drop forwarders. \<open>Query_Facts\<close>
    has what reloads keep of the forwarders, \<open>Query_Progress\<close> the invariant of a run, \<open>Query_Sample\<close> a
    run for the witnesses. \<open>Zone_Handlers\<close> has what handlers say about themselves.
  \<^item> Metrics (prometheus_server.rs, \<^verbatim>\<open>ConfigMetrics\<close> in bin/astra-dns.rs): \<open>Metrics\<close>, with the accept
    loop and its graceful shutdown as a step relation.
  \<^item> UDP (udp/mod.rs, udp/pktinfo.rs). \<open>Udp_Packet\<close> reads and writes the packet information
    that says which local address a datagram was sent to, over byte buffers; \<open>Udp_Ingress\<close>
    has the serving loop and the replies; \<open>Udp_Server\<close> joins the loop, its tasks, the catalog and the
    main loop in one step relation; \<open>Linux_Abi\<close> is the instance of the C structures on
    64-bit Linux.

  A configuration is normalized (\<open>normalize_config\<close>), its rules are compiled from the cached
  lists and the user's lines (\<open>compiled_build\<close>), a chain of handlers is built for each zone
  (\<open>zone_load\<close>), and the catalog of chains answers queries until a reload or a refresh replaces it
  (\<open>reload_runtime_config\<close>). Definitions carry the names of the functions they translate.

  \<^bold>\<open>How the program is represented\<close>

  Results are sums with an error datatype for each part; every early return and every \<^verbatim>\<open>?\<close> is a
  branch. A panic is a value of its own (\<open>Panicked\<close>, phase \<open>Crashed\<close>). Integers that the
  program keeps in a fixed width are words. Mutable state is passed explicitly: the rule sets, the
  disk, the registry, the server. Asynchronous parts are step relations (\<open>worker_step\<close>,
  \<open>main_step\<close>, \<open>serving_step\<close>, \<open>udp_server_step\<close>,
  \<open>forwarder_step\<close>, \<open>forwarding_step\<close>, \<open>prometheus_step\<close>) or functions over the sequence of events (\<open>ingress_run\<close>, \<open>supervise\<close>,
  \<open>refresh_lan_host_cache_loop\<close>), so that every interleaving is a run. The iteration order of a
  hash map or set, and the order in which concurrent queries finish, are parameters; a theorem
  that needs it assumes only that they are permutations.

  Code that is not under src is a parameter: the regular expression engine, IP networks and record
  type names (\<open>rule_libs\<close>), DNS names (\<open>name_libs\<close>), resolver, URL parser and forwarders
  (\<open>net_libs\<close>), HTTP client and hash function (\<open>fetch_env\<close>), DNS messages
  (\<open>dns_proto\<close>), the finding of a zone and the walk over its chain (\<open>server_lib\<close>), C structures
  (\<open>c_abi\<close>), accounts (\<open>os_accounts\<close>), runtime, logger and signals (\<open>process_env\<close>), the texts the
  libraries print for their own types in the key of the forwarder registry (\<open>debug_texts\<close>; the key
  itself is \<open>forwarder_key\<close>), the graceful shutdown of HTTP connections, the reading of command line
  arguments (\<open>command_line\<close>). What theorems assume of them is documented behaviour under a name:
  \<open>engine_documented\<close>, \<open>catalog_documented\<close>, \<open>server_lib_documented\<close>, \<open>abi_ok\<close>, \<open>posix_accounts\<close> (both
  calls may fail, for root too), \<open>names_printed\<close>, \<open>graceful_documented\<close>, \<open>hash_orders_ok\<close>; each has an
  instance in a witness.

  \<^bold>\<open>Interfaces\<close>

  Locales state what one part relies on: a suffix index of names (\<open>Domain_Index\<close>), a handler
  that answers only the question it was asked (\<open>Authority_Facts\<close>), a store of downloaded lists
  (\<open>Filter_Fetch\<close>), a growing delay (\<open>Upstream_Facts\<close>), the runs of a step relation and a simulation
  between two (\<open>Prelude\<close>); every one is interpreted on the program's own definitions. Simulations
  carry the results of the parts to the whole: the server with its forwarders is simulated by the
  serving system (\<open>forwarding_serving\<close>), which is simulated by the main loop.

  \<^bold>\<open>What is proved\<close>

  \<^item> \<open>Rule_Properties\<close>: the two implementations of a domain rule agree, wildcard patterns mean what
    they say, simple rules do not depend on their order, the rule sets stay well formed, rewrites
    compile to what they list, a refresh survives a restart, and how one bad line or one failed
    download is handled.
  \<^item> \<open>Authority_Properties\<close>: the precedence of exceptions and blocks, the answer of the whole
    chain, local hosts, rewrites of upstream answers.
  \<^item> \<open>Upstream_Properties\<close>: which answer a lookup over several upstreams gives, the retry delays, the
    reuse of forwarders, the addresses the configuration accepts.
  \<^item> \<open>Forwarder_Properties\<close>: the rate of bootstrap attempts, the wake-ups and the answers when
    workers and lookups run together.
  \<^item> \<open>Server_Properties\<close>: reloads are all or nothing, the invariant of the running server, the
    timer, the listeners, the privileges.
  \<^item> \<open>Udp_Properties\<close>: replies go back where queries came from and nowhere else, no datagram stops
    the listener, control data decode safely.
  \<^item> \<open>Query_Properties\<close>: which queries leave the server, and what every answer is made of, under
    reloads and any interleaving of queries, lookups and workers. \<open>Query_Liveness\<close>: every query in
    flight can be answered. \<open>Zone_Handlers\<close>: every handler belongs to its zone. \<open>Program_Run\<close>: what the exit status says.
  \<^item> This theory, with \<open>System_Facts\<close>: from the configuration on disk to the answer, the answers
    during an outage, the reasons of the errors clients see, queries in flight during a reload, and from one datagram
    to another. Smaller parts have their properties beside
    the definitions (\<open>Lan_Hosts\<close>, \<open>Store_Config\<close>, \<open>Metrics\<close>, \<open>Log_Format\<close>).

  \<^bold>\<open>Bounds and fuel\<close>

  The only loop with fuel is the decoding of control data (\<open>decode_messages\<close>): a step consumes at
  least one byte, so the fuel \<open>decode_info\<close> gives, one more than the length, always suffices
  (\<open>decode_info_total_and_valid\<close>). Other loops are structural or have a measure. Time is counted
  in milliseconds for workers and in seconds for the main loop.

  \<^bold>\<open>Not modelled\<close>

  The texts of log messages and the banner, the reading of single command line arguments (generated
  by a library; \<open>run\<close> starts from what it tells apart: help, version, an error or options), the derived
  readers of YAML (their results are the parameters
  \<open>sys_yaml\<close> and \<open>read_store\<close>), the collector of process metrics, lock poisoning, and the resolver
  of whole configurations that exists for tests only (\<^verbatim>\<open>CompactForwardConfig::resolve\<close>). The rest of
  the files are tests, imports and comments, so every part of the program with logic of its own is
  modelled. The UDP listener and the forwarders are composed with the catalog and the main loop
  separately (\<open>udp_server_step\<close>, \<open>forwarding_step\<close>); both are simulated by \<open>serving_step\<close>, and
  the one takes from it, as the other gives, the answer to a query. Two short sequences are one step:
  a lookup reads the locks of all slots at one moment (\<open>lookup_start\<close>), while the code takes them one
  after the other without waiting in between, and a handler reads its lease cache once for a query. The
  ticks of the refresh tasks carry no time: they come at any moment, and stop never too early.
\<close>

section \<open>From the configuration to the answer\<close>

text \<open>
  Claim C3. What a started server answers is decided by its configuration alone. Take a server with
  one zone of one store, whose rules, those of the cached lists and those of the user together, are
  all simple, and whose lists and settings are otherwise arbitrary. Then its catalog consists of one
  chain, built from what the configuration compiles to. Whatever leases that chain has loaded since,
  from the disk of the start or from any other, a query is answered by the overrides, to which the
  local hosts of those leases belong; else by the rewrites; else as blocked, in the configured way,
  exactly if one of the rules covers the name and no exception does, in whatever order lists and
  rules are given; and every other query as the forwarder answers it, with the rewrites of answers
  applied.
\<close>

theorem started_server_blocks:
  fixes sys :: "('rx, 'net, 'c, 'r, 'res, 'n, 'm, 'f) system"
  assumes "async_run sys fails os validate d cr = (Started (sv, listeners), cr')"
    and "read_config sys d = Finished (Inr cfg)" and "cfg_zones cfg = [zone]" and "zone_stores zone = [store]"
    and "adblock_runtime_config_of cfg = Some rc" and "hash_orders_ok (sys_hash sys)"
    and "parse_inputs (sys_rules sys) (config_lines (sys_fetch sys) rc d) (rule_sets_default, {})
           = Inr (rules, {})"
    and "block_rules rules = []" and "allow_rules rules = []"
    and "catalog_documented (ask_handler (sys_rules sys) (sys_names sys) forward)
           (consult_handler (sys_rules sys) (sys_names sys) lookup_iter) catalog"
    and "\<And>forwarder. forward forwarder name rtype options = Continue upstream"
  shows "\<exists>origin hs compiled. sv_catalog sv = [(lower_of_name (sys_names sys) origin, hs)]
     \<and> compiled_build (sys_rules sys) (sys_hash sys) (sys_fetch sys) rc d = (Inr compiled, sv_disk sv)
     \<and> overrides compiled = overrides rules \<and> ptr_overrides compiled = ptr_overrides rules
     \<and> lan_hosts compiled = ac_lan_hosts rc
     \<and> (\<forall>reads hs'. chain_version reads hs hs' \<longrightarrow>
          (\<exists>read oa. (read = read_file (sv_disk sv) \<or> 0 < lh_refresh_interval_secs (ac_lan_hosts rc) \<and> read \<in> reads)
             \<and> override_authority_of (sys_names sys) (sys_maps sys) read origin compiled = Inr oa
             \<and> catalog hs' (name, rtype, options) =
                 (case override_decision (sys_names sys) oa name rtype options of
                    Skip \<Rightarrow>
                      (case rewrite_decision (sys_names sys) (rewrite_authority_of (sys_names sys) origin compiled)
                              name rtype options of
                         Skip \<Rightarrow>
                           if some_rule_covers Block (input_ops (config_lines (sys_fetch sys) rc d))
                                (normalized_query_name (sys_names sys) name)
                              \<and> \<not> some_rule_covers Allow (input_ops (config_lines (sys_fetch sys) rc d))
                                (normalized_query_name (sys_names sys) name)
                           then configured_block_response (sys_names sys) (ac_filtering rc) name rtype options
                           else (case rewrite_authority_of (sys_names sys) origin compiled of
                                   None \<Rightarrow> Continue upstream
                                 | Some self \<Rightarrow>
                                     rewrite_consult (sys_rules sys) (sys_names sys) lookup_iter self name rtype options
                                       (Continue upstream))
                       | x \<Rightarrow> x)
                  | x \<Rightarrow> x)))"
proof -
  obtain cfg' where "read_config sys d = Finished (Inr cfg')"
    and "build_catalog sys LoadCacheFirst cfg' d registry_empty
           = (Inr (sv_catalog sv), sv_disk sv, sv_registry sv)"
    using assms(1) by (rule async_run_started)
  then have built: "build_catalog sys LoadCacheFirst cfg d registry_empty
      = (Inr (sv_catalog sv), sv_disk sv, sv_registry sv)"
    using assms(2) by simp
  obtain compiled origin forwarder hs where
    c: "compiled_build (sys_rules sys) (sys_hash sys) (sys_fetch sys) rc d = (Inr compiled, sv_disk sv)"
    and chain: "build_authorities (sys_names sys) (sys_maps sys) (read_file (sv_disk sv)) origin forwarder compiled
                  = Inr hs"
    and cat: "sv_catalog sv = [(lower_of_name (sys_names sys) origin, hs)]"
    using built assms(3-5) by (rule build_catalog_single_zone)
  have fin: "finish_build (sys_rules sys) (sys_hash sys) rc (rules, {}) = Inr compiled"
    using c unfolding compiled_build_lines assms(7) by simp
  note parts = finish_build_parts [OF fin assms(6)]
  obtain oa0 where oa0: "override_authority_of (sys_names sys) (sys_maps sys) (read_file (sv_disk sv)) origin compiled = Inr oa0"
    "hs = local_handlers (sys_names sys) origin oa0 compiled @ [H_Forwarder forwarder]"
    using chain by (rule build_authorities_chain)
  show ?thesis
  proof (intro exI [of _ origin] exI [of _ hs] exI [of _ compiled] conjI allI impI cat c parts(1-3))
    fix reads hs'
    assume "chain_version reads hs hs'"
    from chain_version_single [OF oa0(1) this [unfolded oa0(2)]] obtain read oa where
      read: "read = read_file (sv_disk sv) \<or> 0 < lh_refresh_interval_secs (ac_lan_hosts rc) \<and> read \<in> reads"
      and oa: "override_authority_of (sys_names sys) (sys_maps sys) read origin compiled = Inr oa"
      and hs': "hs' = local_handlers (sys_names sys) origin oa compiled @ [H_Forwarder forwarder]"
      unfolding parts(3) by blast
    have chain': "build_authorities (sys_names sys) (sys_maps sys) read origin forwarder compiled = Inr hs'"
      by (simp add: build_authorities_def oa hs' local_handlers_def)
    from read oa chain_decides [OF chain' oa assms(10,11)]
    show "\<exists>read oa. (read = read_file (sv_disk sv) \<or> 0 < lh_refresh_interval_secs (ac_lan_hosts rc) \<and> read \<in> reads)
        \<and> override_authority_of (sys_names sys) (sys_maps sys) read origin compiled = Inr oa
        \<and> catalog hs' (name, rtype, options) =
            (case override_decision (sys_names sys) oa name rtype options of
               Skip \<Rightarrow>
                 (case rewrite_decision (sys_names sys) (rewrite_authority_of (sys_names sys) origin compiled)
                         name rtype options of
                    Skip \<Rightarrow>
                      if some_rule_covers Block (input_ops (config_lines (sys_fetch sys) rc d))
                           (normalized_query_name (sys_names sys) name)
                         \<and> \<not> some_rule_covers Allow (input_ops (config_lines (sys_fetch sys) rc d))
                           (normalized_query_name (sys_names sys) name)
                      then configured_block_response (sys_names sys) (ac_filtering rc) name rtype options
                      else (case rewrite_authority_of (sys_names sys) origin compiled of
                              None \<Rightarrow> Continue upstream
                            | Some self \<Rightarrow>
                                rewrite_consult (sys_rules sys) (sys_names sys) lookup_iter self name rtype options
                                  (Continue upstream))
                  | x \<Rightarrow> x)
             | x \<Rightarrow> x)"
      unfolding parts(4) finish_build_decides [OF fin assms(6-9)] by blast
  qed
qed

abbreviation sample_boot_rules where
  "sample_boot_rules \<equiv> parse_inputs fragment_libs [(UserRule, ''||ads.com^'')] (rule_sets_default, {})"

lemma sample_boot_rules_simple:
  "is_ok sample_boot_rules" "snd (projr sample_boot_rules) = {}"
  "block_rules (fst (projr sample_boot_rules)) = []" "allow_rules (fst (projr sample_boot_rules)) = []"
  "override_entries (sys_maps sample_system) (overrides (fst (projr sample_boot_rules))) = []"
  "ptr_entries (sys_maps sample_system) (ptr_overrides (fst (projr sample_boot_rules))) = []"
  "input_ops [(UserRule, ''||ads.com^'')] = [(Block, ''ads.com'', True)]"
  "configured_block_response string_names (ac_filtering sample_boot_rc) ''x.ads.com.'' RT_A () =
     (Break (Inr (LookupMany () [\<lparr>rs_name = ''x.ads.com.'', rs_type = RT_A, rs_ttl = 60, rs_rdatas = [RD_A 0]\<rparr>]))
        :: (string, unit, unit, string) lookup_result)"
  by code_simp+

abbreviation upstream_answer ::
    "forward_config forwarder_ref \<Rightarrow> string \<Rightarrow> record_type \<Rightarrow> unit \<Rightarrow> (string, unit, unit, string) lookup_result" where
  "upstream_answer \<equiv> \<lambda>f name rtype options. Continue (Inr (LookupFrom ()))"

theorem started_server_blocks_witness:
  "\<exists>sv listeners apex hs. sample_boot = (Started (sv, listeners), snd sample_boot)
     \<and> sv_catalog sv = [(apex, hs)]
     \<and> run_catalog (ask_handler fragment_libs string_names upstream_answer)
          (consult_handler fragment_libs string_names (\<lambda>_. [])) [] hs (''x.ads.com.'', RT_A, ())
       = Break (Inr (LookupMany () [\<lparr>rs_name = ''x.ads.com.'', rs_type = RT_A, rs_ttl = 60, rs_rdatas = [RD_A 0]\<rparr>]))"
proof -
  obtain sv listeners where b: "sample_boot = (Started (sv, listeners), snd sample_boot)"
    using sample_boot_Started by blast
  have cfg: "read_config sample_system (config_disk ''ok'') = Finished (Inr sample_boot_cfg)"
    using sample_boot_config(1) is_okD by (auto split: outcome.splits)
  obtain zone where z: "cfg_zones sample_boot_cfg = [zone]"
    using sample_boot_config(2) by (auto simp: length_Suc_conv)
  obtain store where s: "zone_stores zone = [store]"
    using sample_boot_config(3) z by (auto simp: length_Suc_conv)
  have rc: "adblock_runtime_config_of sample_boot_cfg = Some sample_boot_rc"
    using sample_boot_config(4) by (cases "adblock_runtime_config_of sample_boot_cfg") simp_all
  have sys: "sys_rules sample_system = fragment_libs" "sys_names sample_system = string_names"
    "sys_hash sample_system = set_orders"
    by (simp_all add: sample_system_def)
  have rules: "parse_inputs (sys_rules sample_system) (config_lines (sys_fetch sample_system) sample_boot_rc
      (config_disk ''ok'')) (rule_sets_default, {}) = Inr (fst (projr sample_boot_rules), {})"
    unfolding sample_boot_config(5) sys
    using is_okD [OF sample_boot_rules_simple(1)] sample_boot_rules_simple(2) by (metis prod.collapse)
  have orders: "hash_orders_ok (sys_hash sample_system)" using set_orders_ok by (simp add: sys)
  have name: "normalized_query_name string_names ''x.ads.com.'' = ''x.ads.com''" by code_simp
  note decides = started_server_blocks [OF b cfg z s rc orders rules sample_boot_rules_simple(3,4),
      unfolded sys sample_boot_config(5) sample_boot_rules_simple(7), OF run_catalog_documented,
      where forward = upstream_answer and lookup_iter = "\<lambda>_. []" and name = "''x.ads.com.''" and rtype = RT_A
        and options = "()" and upstream = "Inr (LookupFrom ())", OF refl, unfolded name]
  obtain origin hs compiled where decide: "sv_catalog sv = [(lower_of_name string_names origin, hs)]"
    "compiled_build fragment_libs set_orders (sys_fetch sample_system) sample_boot_rc (config_disk ''ok'')
       = (Inr compiled, sv_disk sv)"
    "overrides compiled = overrides (fst (projr sample_boot_rules))"
    "ptr_overrides compiled = ptr_overrides (fst (projr sample_boot_rules))"
    "lan_hosts compiled = ac_lan_hosts sample_boot_rc"
    and answers: "\<exists>read oa. override_authority_of string_names (sys_maps sample_system) read origin compiled = Inr oa
       \<and> run_catalog (ask_handler fragment_libs string_names upstream_answer)
            (consult_handler fragment_libs string_names (\<lambda>_. [])) [] hs (''x.ads.com.'', RT_A, ()) =
         (case override_decision string_names oa ''x.ads.com.'' RT_A () of
            Skip \<Rightarrow>
              (case rewrite_decision string_names (rewrite_authority_of string_names origin compiled) ''x.ads.com.'' RT_A () of
                 Skip \<Rightarrow>
                   if some_rule_covers Block [(Block, ''ads.com'', True)] ''x.ads.com''
                      \<and> \<not> some_rule_covers Allow [(Block, ''ads.com'', True)] ''x.ads.com''
                   then configured_block_response string_names (ac_filtering sample_boot_rc) ''x.ads.com.'' RT_A ()
                   else (case rewrite_authority_of string_names origin compiled of
                           None \<Rightarrow> Continue (Inr (LookupFrom ()))
                         | Some self \<Rightarrow> rewrite_consult fragment_libs string_names (\<lambda>_. []) self ''x.ads.com.'' RT_A ()
                             (Continue (Inr (LookupFrom ()))))
               | x \<Rightarrow> x)
          | x \<Rightarrow> x)"
    using decides chain_version_refl [of "{}"] by blast
  have fin: "finish_build fragment_libs set_orders sample_boot_rc (fst (projr sample_boot_rules), {}) = Inr compiled"
    using decide(2) unfolding compiled_build_lines rules [unfolded sys] prod.inject by (drule_tac conjunct1) simp
  have "rewrite_authority_of string_names origin compiled = None"
    by (rule finish_build_no_rewrites [OF fin sample_boot_config(7)]) (use orders in \<open>simp add: sys\<close>)
  moreover have "override_authority_of string_names (sys_maps sample_system) read origin compiled = Inr None" for read
    by (simp add: override_authority_of_def decide(3-5) sample_boot_rules_simple(5,6) sample_boot_config(6))
  ultimately have "run_catalog (ask_handler fragment_libs string_names upstream_answer)
      (consult_handler fragment_libs string_names (\<lambda>_. [])) [] hs (''x.ads.com.'', RT_A, ())
    = configured_block_response string_names (ac_filtering sample_boot_rc) ''x.ads.com.'' RT_A ()"
    using answers sample_decision(1)
    by (auto simp: override_decision_def rewrite_decision_def some_rule_covers_list)
  then show ?thesis using b decide(1) unfolding sample_boot_rules_simple(8) by blast
qed

section \<open>Answers during an outage\<close>

lemma outage_report:
  assumes "mset rs' = mset rs"
    and "\<And>r. r \<in> set rs \<Longrightarrow> outcome_of r = Nothing \<or> (\<exists>e. outcome_of r = Failure e)"
  shows "fst (aggregate rs' None []) = Continue (Inl (LE_ResponseCode RC_ServFail))"
proof -
  have bad: "x = Nothing \<or> (\<exists>e. x = Failure e)" if "x \<in> outcomes rs'" for x
    using that assms(2) mset_eq_setD [OF assms(1)] by (auto simp: outcomes_def)
  have "\<not> settled rs'" using bad by (auto simp: settled_def)
  moreover have "first_denial rs' = None" using bad by (auto simp: first_denial_None)
  ultimately show ?thesis by (simp add: aggregate_unsettled)
qed

text \<open>
  Claim C10. During an outage, while every upstream fails, is unresolved or lost its task, the
  server still answers what it can decide itself, as it always does: overrides, local hosts,
  rewrites and blocked names. Every other query gets a server failure, which clients do not
  cache, and never a denial.
\<close>

theorem outage_answers:
  fixes compiled :: "('rx, 'net) compiled_rule_sets"
    and hs :: "('n, 'm, 'rx, 'net, 'f) handler list"
  assumes "build_authorities names orders read origin forwarder compiled = Inr hs"
    and "override_authority_of names orders read origin compiled = Inr oa"
    and "catalog_documented (ask_handler libs names forward) (consult_handler libs names lookup_iter) catalog"
    and "forward forwarder name rtype options = fst (recovering_lookup completion ask slots)"
    and "mset (completion (slot_reports ask slots)) = mset (slot_reports ask slots)"
    and "\<And>r. r \<in> set (slot_reports ask slots) \<Longrightarrow> outcome_of r = Nothing \<or> (\<exists>e. outcome_of r = Failure e)"
  shows "catalog hs (name, rtype, options) =
     (case override_decision names oa name rtype options of
        Skip \<Rightarrow>
          (case rewrite_decision names (rewrite_authority_of names origin compiled) name rtype options of
             Skip \<Rightarrow>
               if blocks_query libs (full_block_authority names origin compiled)
                    (normalized_query_name names name) rtype
               then block_response names (full_block_authority names origin compiled) name rtype options
               else Continue (Inl (LE_ResponseCode RC_ServFail))
           | x \<Rightarrow> x)
      | x \<Rightarrow> x)"
proof -
  have f: "forward forwarder name rtype options = Continue (Inl (LE_ResponseCode RC_ServFail))"
    unfolding assms(4) recovering_lookup_def using assms(5,6) by (rule outage_report)
  have "rewrite_consult libs names lookup_iter self name rtype options
      (Continue (Inl (LE_ResponseCode RC_ServFail))) = Continue (Inl (LE_ResponseCode RC_ServFail))" for self
    by (simp add: rewrite_consult_def)
  then show ?thesis
    unfolding chain_decides [OF assms(1-3) f] by (auto split: control_flow.split option.split)
qed

theorem outage_answers_witness:
  "run_catalog (ask_handler fragment_libs string_names
       (\<lambda>f name rtype options. fst (recovering_lookup rev (\<lambda>_. Some (Break (Inl (LE_Io ''unreachable'')))) failing_slots)))
     (consult_handler fragment_libs string_names (\<lambda>_. [])) [] (projr sample_chain) (''www.com.'', RT_A, ())
   = (Continue (Inl (LE_ResponseCode RC_ServFail)) :: (string, unit, unit, string) lookup_result)"
proof -
  let ?ask = "\<lambda>_. Some (Break (Inl (LE_Io ''unreachable'')) :: (string, unit, unit, string) lookup_result)"
  have f: "outcome_of r = Nothing \<or> (\<exists>e. outcome_of r = Failure e)"
    if "r \<in> set (slot_reports ?ask failing_slots)" for r
    using that
    by (auto simp: slot_reports_def List.map_filter_simps outcome_of_def is_negative_answer_def)
  have d: "override_decision string_names (projr sample_override_authority) ''www.com.'' RT_A () =
      (Skip :: (string, unit, unit, string) lookup_result)"
    "\<not> blocks_query fragment_libs (full_block_authority string_names ''.'' sample_compiled) ''www.com'' RT_A"
    "normalized_query_name string_names ''www.com.'' = ''www.com''"
    by code_simp+
  show ?thesis
    by (subst outage_answers [OF is_okD [OF sample_chain_ok(1)] is_okD [OF sample_chain_ok(2)]
          run_catalog_documented refl _ f])
      (simp_all add: d rewrite_decision_def sample_chain_decision(2))
qed

section \<open>Errors that clients see\<close>

lemma local_decisions_answer:
  "override_decision names oa name rtype options \<notin> {Continue (Inl e), Break (Inl e)}"
  "rewrite_decision names ra name rtype options \<notin> {Continue (Inl e), Break (Inl e)}"
  by (auto simp: override_decision_def rewrite_decision_def override_lookup_def rewrite_lookup_def Let_def
      split: option.splits)

lemma block_response_error:
  "block_response names self name rtype options = Break (Inl e) \<Longrightarrow>
   ba_blocking_mode self = BM_Nxdomain \<and> e = LE_ResponseCode RC_NXDomain"
  by (cases "ba_blocking_mode self") (simp_all add: block_response_def)

lemma rewrite_consult_error:
  assumes "rewrite_consult libs names lookup_iter self name rtype options (Continue upstream)
             \<in> {Continue (Inl e), Break (Inl e)}"
  shows "upstream = Inl e"
  using assms by (cases upstream) (auto simp: rewrite_consult_def Let_def split: option.splits)

text \<open>
  Claim C13. Every error a client sees has a reason. A chain of handlers in front of a recovering
  forwarder, whose lookups run together with its workers, answers with an error only if the name is
  blocked and the configuration asks for \<^verbatim>\<open>NXDOMAIN\<close> then, or with a server failure, or with a
  denial that an upstream ready when the lookup started really sent for this query. So neither an
  outage nor a failed rewrite makes a name look nonexistent.
\<close>

theorem client_errors_explained:
  fixes compiled :: "('rx, 'net) compiled_rule_sets"
    and hs :: "('n, 'm, 'rx, 'net, 'f) handler list"
  assumes "build_authorities names orders read origin forwarder compiled = Inr hs"
    and "override_authority_of names orders read origin compiled = Inr oa"
    and "catalog_documented (ask_handler libs names forward) (consult_handler libs names lookup_iter) catalog"
    and "forwarder_reachable net timing zone opts replies (forwarder_start timing t rf) s"
    and "fl \<in> set (fs_answers s)" and "fl_query fl = (name, rtype, options)"
    and "forward forwarder name rtype options = fl_answer fl"
    and "catalog hs (name, rtype, options) \<in> {Continue (Inl e), Break (Inl e)}"
  shows "(blocks_query libs (full_block_authority names origin compiled) (normalized_query_name names name) rtype
            \<and> ba_blocking_mode (full_block_authority names origin compiled) = BM_Nxdomain
            \<and> e = LE_ResponseCode RC_NXDomain)
     \<or> e = LE_ResponseCode RC_ServFail \<or> denial_sent_for replies fl e"
proof -
  have fin: "finished_ok replies fl"
    using forwarder_reachable_lookups [OF assms(4)] assms(5) by (simp add: lookups_ok_def)
  then obtain upstream where up: "fl_answer fl = Continue upstream" by (rule finished_continues)
  note decides = chain_decides [OF assms(1-3) trans [OF assms(7) up]]
  consider
      "blocks_query libs (full_block_authority names origin compiled) (normalized_query_name names name) rtype"
      "ba_blocking_mode (full_block_authority names origin compiled) = BM_Nxdomain" "e = LE_ResponseCode RC_NXDomain"
    | "upstream = Inl e"
    using assms(8) local_decisions_answer(1) [of names oa name rtype options e]
      local_decisions_answer(2) [of names "rewrite_authority_of names origin compiled" name rtype options e]
      rewrite_consult_error [of libs names lookup_iter _ name rtype options upstream e]
      block_response_error [of names "full_block_authority names origin compiled" name rtype options e]
    unfolding decides
    by (auto split: control_flow.splits if_splits option.splits)
  then show ?thesis using finished_error [OF fin] up by cases auto
qed

abbreviation failed_lookup where
  "failed_lookup \<equiv> hd (fs_answers fs4)"

theorem client_errors_explained_witness:
  "\<exists>e. run_catalog (ask_handler fragment_libs string_names (\<lambda>f name rtype options. fl_answer failed_lookup))
       (consult_handler fragment_libs string_names (\<lambda>_. [])) [] (projr sample_chain) (''www.com.'', RT_A, ())
       = Continue (Inl e)
     \<and> (e = LE_ResponseCode RC_ServFail \<or> denial_sent_for sample_replies failed_lookup e)"
proof -
  have ans: "failed_lookup \<in> set (fs_answers fs4)" "fl_query failed_lookup = (''www.com.'', RT_A, ())"
    "fl_answer failed_lookup = Continue (Inl (LE_ResponseCode RC_ServFail))"
    by (simp_all add: sample_answer)
  have d: "override_decision string_names (projr sample_override_authority) ''www.com.'' RT_A () =
      (Skip :: (string, unit, unit, string) lookup_result)"
    "\<not> blocks_query fragment_libs (full_block_authority string_names ''.'' sample_compiled) ''www.com'' RT_A"
    "normalized_query_name string_names ''www.com.'' = ''www.com''"
    by code_simp+
  have result: "run_catalog (ask_handler fragment_libs string_names (\<lambda>f name rtype options. fl_answer failed_lookup))
      (consult_handler fragment_libs string_names (\<lambda>_. [])) [] (projr sample_chain) (''www.com.'', RT_A, ())
      = Continue (Inl (LE_ResponseCode RC_ServFail))"
    by (subst chain_decides [OF is_okD [OF sample_chain_ok(1)] is_okD [OF sample_chain_ok(2)]
          run_catalog_documented ans(3)])
      (simp_all add: d rewrite_decision_def sample_chain_decision(2))
  then show ?thesis
    using client_errors_explained [OF is_okD [OF sample_chain_ok(1)] is_okD [OF sample_chain_ok(2)]
        run_catalog_documented sample_run(2) [unfolded fs0_def] ans(1,2) refl,
        where e = "LE_ResponseCode RC_ServFail"] d by auto
qed

section \<open>Queries in flight during a reload\<close>


text \<open>A query that arrives before a reload and is answered after it.\<close>

lemma sample_boot_reload_serving:
  "case fst sample_boot of
     Started x \<Rightarrow> ms_phase (on_reload_signal sample_system 5 (main_start (fst x) 0)) = Serving | _ \<Rightarrow> False"
  by code_simp


section \<open>From one datagram to another\<close>


text \<open>A datagram arrives, its task asks the catalog, the answer echoes it.\<close>

abbreviation sample_task :: request_task where
  "sample_task \<equiv> task_of (query_bytes, sample_peer, local_info)"

abbreviation sample_handler :: "string packet_response" where
  "sample_handler \<equiv> \<lparr>pr_peer = sample_peer, pr_info = local_info,
     pr_request_meta = hd_metadata (sample_header query_bytes), pr_queries = []\<rparr>"

abbreviation sample_reply :: sent_datagram where
  "sample_reply \<equiv> \<lparr>sd_data = query_bytes, sd_peer = sample_peer, sd_control = reply_control linux_abi local_info\<rparr>"

lemma sample_task_facts:
  "ingress_step (Packet (Inr (query_bytes, sample_peer, local_info))) ingress_start
     = (None, \<lparr>ig_requests = [sample_task], ig_spawned = [sample_task]\<rparr>)"
  "task_request sample_proto sample_task = Handled query_bytes sample_handler"
  "response_datagram sample_proto linux_abi True sample_handler query_bytes = Inr sample_reply"
  "from_kernel linux_abi True (Packet (Inr (query_bytes, sample_peer, local_info)))"
proof -
  have "safe_peer sample_peer" by code_simp
  then show "ingress_step (Packet (Inr (query_bytes, sample_peer, local_info))) ingress_start
      = (None, \<lparr>ig_requests = [sample_task], ig_spawned = [sample_task]\<rparr>)"
    by (simp add: ingress_step_def ingress_start_def task_of_def Let_def)
  show "task_request sample_proto sample_task = Handled query_bytes sample_handler"
    by (simp add: task_request_def task_of_def handle_request_def sample_proto_def sample_header_def query_bytes_def Let_def)
  show "response_datagram sample_proto linux_abi True sample_handler query_bytes = Inr sample_reply"
    by (simp add: response_datagram_def encode_response_def sample_proto_def prepare_send_Inr local_info_valid
        query_bytes_def unwrap_or_def)
  show "from_kernel linux_abi True (Packet (Inr (query_bytes, sample_peer, local_info)))"
    using sample_message_received by (auto simp: from_kernel_def)
qed


end
